(* ===== verification/Prelude.thy ===== *)
theory Prelude
  imports Main "HOL-Library.Word"
begin

text \<open>
  Shared vocabulary of the development: the machine integer types of the C code, a result type
  for C operations whose behaviour is undefined on some inputs, and the generic lemmas on
  words, lists and maps that the component theories use.

  The C code is compiled for Linux on a 64-bit machine, so \<open>int\<close> and \<open>int32_t\<close> are 32 bits
  wide and \<open>size_t\<close> 64 bits.  A signed \<open>int\<close> is kept as a \<open>32 word\<close> read by \<open>sint\<close>
  wherever its wrap-around, its conversion to unsigned or its width matters.
\<close>

unbundle bit_operations_syntax

type_synonym u8 = "8 word"
type_synonym u16 = "16 word"
type_synonym u32 = "32 word"
type_synonym u64 = "64 word"
type_synonym i32 = "32 word"  \<comment> \<open>two's complement, read by \<open>sint\<close>\<close>

text \<open>
  \<open>UB\<close> is the result of a C operation outside its defined behaviour: a null or dangling
  pointer dereference, an access out of bounds, a float to integer conversion out of range.
\<close>

datatype 'a ub = Defined 'a | UB

definition ub_bind :: "'a ub \<Rightarrow> ('a \<Rightarrow> 'b ub) \<Rightarrow> 'b ub" where
  "ub_bind m f = (case m of Defined a \<Rightarrow> f a | UB \<Rightarrow> UB)"

fun ub_defined :: "'a ub \<Rightarrow> bool" where
  "ub_defined (Defined a) = True"
| "ub_defined UB = False"

lemma ub_bind_simps [simp]:
  "ub_bind (Defined a) f = f a"
  "ub_bind UB f = UB"
  by (simp_all add: ub_bind_def)

lemma ub_bind_eq_Defined: "ub_bind m f = Defined b \<longleftrightarrow> (\<exists>a. m = Defined a \<and> f a = Defined b)"
  by (cases m) auto

lemma ub_bind_split: "P (ub_bind m f) \<longleftrightarrow> (m = UB \<longrightarrow> P UB) \<and> (\<forall>a. m = Defined a \<longrightarrow> P (f a))"
  by (cases m) auto

lemma ub_defined_iff: "ub_defined m \<longleftrightarrow> (\<exists>a. m = Defined a)"
  by (cases m) auto

text \<open>
  The result of a loop that may not end: \<open>None\<close> when it does not, and otherwise the result of
  its body's operations.  \<open>returns\<close> says that it ends with defined behaviour.
\<close>

type_synonym 'a run = "'a ub option"

definition run_bind :: "'a run \<Rightarrow> ('a \<Rightarrow> 'b run) \<Rightarrow> 'b run" where
  "run_bind m f = (case m of None \<Rightarrow> None | Some UB \<Rightarrow> Some UB | Some (Defined a) \<Rightarrow> f a)"

abbreviation returns :: "'a \<Rightarrow> 'a run" where
  "returns a \<equiv> Some (Defined a)"

lemma run_bind_simps [simp]:
  "run_bind (returns a) f = f a"
  "run_bind (Some UB) f = Some UB"
  "run_bind None f = None"
  by (simp_all add: run_bind_def)

lemma run_bind_eq_returns: "run_bind m f = returns b \<longleftrightarrow> (\<exists>a. m = returns a \<and> f a = returns b)"
  by (auto simp: run_bind_def split: option.splits ub.splits)

section \<open>Named collections\<close>

named_theorems wire_simps "evaluation of the wire format's encoders and decoders"
named_theorems inv_intros "preservation of the components' invariants"
named_theorems frame_simps "what an operation leaves unchanged"

section \<open>Words\<close>

lemma unat_u8_bound [simp]: "unat (x :: u8) < 256"
  using unsigned_less [of x, where 'a = nat] by simp

lemma unat_u32_bound: "unat (x :: u32) < 2 ^ 32"
  using unsigned_less [of x, where 'a = nat] by simp

lemma u32_le_iff: "(a :: u32) \<le> b \<longleftrightarrow> unat a \<le> unat b"
  by (rule word_le_nat_alt)

lemma u32_less_iff: "(a :: u32) < b \<longleftrightarrow> unat a < unat b"
  by (rule word_less_nat_alt)

lemma sint_i32_range: "- (2 ^ 31) \<le> sint (x :: i32)" "sint (x :: i32) < 2 ^ 31"
  using sint_range_size [of x] by (simp_all add: word_size)

lemma sint_word_of_int_i32: "- (2 ^ 31) \<le> z \<Longrightarrow> z < 2 ^ 31 \<Longrightarrow> sint (word_of_int z :: i32) = z"
  by (simp add: sint_sbintrunc' signed_take_bit_int_eq_self)

lemma sint_nonneg_unat: assumes "0 \<le> sint (v :: i32)" shows "int (unat v) = sint v"
proof -
  have "v = word_of_int (sint v)" by simp
  then have "uint v = uint (word_of_int (sint v) :: i32)" by (simp only:)
  also have "\<dots> = sint v" using assms sint_i32_range [of v] by (simp only: uint_word_of_int) simp
  finally show ?thesis by simp
qed

text \<open>Signed addition and negation of \<open>int\<close>: undefined on overflow.\<close>

definition add_i32 :: "i32 \<Rightarrow> i32 \<Rightarrow> i32 ub" where
  "add_i32 a b =
     (let s = sint a + sint b in if - (2 ^ 31) \<le> s \<and> s < 2 ^ 31 then Defined (a + b) else UB)"

definition neg_i32 :: "i32 \<Rightarrow> i32 ub" where
  "neg_i32 a = (if sint a = - (2 ^ 31) then UB else Defined (- a))"

lemma add_i32_sint:
  assumes "add_i32 a b = Defined c"
  shows "sint c = sint a + sint b"
proof -
  have r: "- (2 ^ 31) \<le> sint a + sint b" "sint a + sint b < 2 ^ 31" and c: "c = a + b"
    using assms by (auto simp: add_i32_def Let_def split: if_splits)
  have "a + b = word_of_int (sint a + sint b)" by simp
  with r c show ?thesis by (simp only: sint_word_of_int_i32)
qed

lemma neg_i32_sint:
  assumes "neg_i32 a = Defined c"
  shows "sint c = - sint a"
proof -
  have r: "sint a \<noteq> - (2 ^ 31)" and c: "c = - a"
    using assms by (auto simp: neg_i32_def split: if_splits)
  have "- a = word_of_int (- sint a)" by simp
  with c r sint_i32_range [of a] show ?thesis by (simp only: sint_word_of_int_i32)
qed

section \<open>Lists\<close>

lemma find_Some_set: "List.find P xs = Some x \<Longrightarrow> x \<in> set xs \<and> P x"
  by (induction xs) (auto split: if_splits)

lemma find_None_all: "List.find P xs = None \<longleftrightarrow> (\<forall>x \<in> set xs. \<not> P x)"
  by (induction xs) auto

end
