(* ===== verification/FloatC.thy ===== *)
theory FloatC
  imports Prelude Complex_Main "HOL-Library.Log_Nat"
begin

text \<open>
  The C types \<open>float\<close> and \<open>double\<close>: IEEE 754 binary32 and binary64 with rounding to
  nearest, ties to even.  A finite number is the rational it denotes; the two zeros are one
  value, which no operation of the modelled code tells apart (it never divides by a float,
  never reads a sign bit and never sends a zero).  Every arithmetic operation is the exact
  rational operation followed by one rounding, as the standard defines it.

  The lemmas show that rounding leaves a representable number unchanged, that truncating a
  float and subtracting its integer part are exact, and that a comparison with an unordered
  operand is false.
\<close>

datatype fp = Fin rat | PosInf | NegInf | NaN

section \<open>Rounding\<close>

definition ilog2 :: "rat \<Rightarrow> int" where
  "ilog2 q =
     (case quotient_of q of (n, d) \<Rightarrow>
        let e = bitlen n - bitlen d in if q < 2 powi e then e - 1 else e)"

definition round_half_even :: "rat \<Rightarrow> int" where
  "round_half_even x =
     (let f = \<lfloor>x\<rfloor>; r = x - of_int f
      in if r < 1 / 2 then f else if 1 / 2 < r then f + 1 else if even f then f else f + 1)"

text \<open>\<open>fp_round p emin emax\<close>: \<open>p\<close> bits of precision, least quantum \<open>2 powi emin\<close>,
  overflow from \<open>2 powi emax\<close>.\<close>

definition fp_quantum :: "nat \<Rightarrow> int \<Rightarrow> rat \<Rightarrow> int" where
  "fp_quantum p emin q = max emin (ilog2 \<bar>q\<bar> - (int p - 1))"

definition fp_round :: "nat \<Rightarrow> int \<Rightarrow> int \<Rightarrow> rat \<Rightarrow> fp" where
  "fp_round p emin emax q =
     (if q = 0 then Fin 0
      else let k = fp_quantum p emin q;
               r = of_int (round_half_even (q / 2 powi k)) * 2 powi k
           in if \<bar>r\<bar> \<ge> 2 powi emax then (if q > 0 then PosInf else NegInf) else Fin r)"

definition round32 :: "rat \<Rightarrow> fp" where
  "round32 = fp_round 24 (-149) 128"

definition round64 :: "rat \<Rightarrow> fp" where
  "round64 = fp_round 53 (-1074) 1024"

section \<open>Operations\<close>

text \<open>The operations take the rounding of their result type.\<close>

fun fp_neg :: "fp \<Rightarrow> fp" where
  "fp_neg (Fin q) = Fin (- q)"
| "fp_neg PosInf = NegInf"
| "fp_neg NegInf = PosInf"
| "fp_neg NaN = NaN"

fun fp_add :: "(rat \<Rightarrow> fp) \<Rightarrow> fp \<Rightarrow> fp \<Rightarrow> fp" where
  "fp_add rnd (Fin a) (Fin b) = rnd (a + b)"
| "fp_add rnd NaN _ = NaN"
| "fp_add rnd _ NaN = NaN"
| "fp_add rnd PosInf NegInf = NaN"
| "fp_add rnd NegInf PosInf = NaN"
| "fp_add rnd PosInf _ = PosInf"
| "fp_add rnd _ PosInf = PosInf"
| "fp_add rnd NegInf _ = NegInf"
| "fp_add rnd _ NegInf = NegInf"

definition fp_sub :: "(rat \<Rightarrow> fp) \<Rightarrow> fp \<Rightarrow> fp \<Rightarrow> fp" where
  "fp_sub rnd a b = fp_add rnd a (fp_neg b)"

fun fp_sgn :: "fp \<Rightarrow> rat" where
  "fp_sgn (Fin q) = sgn q"
| "fp_sgn PosInf = 1"
| "fp_sgn NegInf = -1"
| "fp_sgn NaN = 0"

fun fp_mul :: "(rat \<Rightarrow> fp) \<Rightarrow> fp \<Rightarrow> fp \<Rightarrow> fp" where
  "fp_mul rnd (Fin a) (Fin b) = rnd (a * b)"
| "fp_mul rnd NaN _ = NaN"
| "fp_mul rnd _ NaN = NaN"
| "fp_mul rnd a b =
     (let s = fp_sgn a * fp_sgn b in if s = 0 then NaN else if s > 0 then PosInf else NegInf)"

text \<open>Comparisons: false when an operand is NaN.\<close>

fun fp_less :: "fp \<Rightarrow> fp \<Rightarrow> bool" where
  "fp_less (Fin a) (Fin b) = (a < b)"
| "fp_less NaN _ = False"
| "fp_less _ NaN = False"
| "fp_less NegInf b = (b \<noteq> NegInf)"
| "fp_less _ NegInf = False"
| "fp_less PosInf _ = False"
| "fp_less _ PosInf = True"

definition fp_le :: "fp \<Rightarrow> fp \<Rightarrow> bool" where
  "fp_le a b = (fp_less a b \<or> (a = b \<and> a \<noteq> NaN))"

fun fp_abs :: "fp \<Rightarrow> fp" where
  "fp_abs (Fin q) = Fin \<bar>q\<bar>"
| "fp_abs NegInf = PosInf"
| "fp_abs x = x"

text \<open>\<open>fmaxf\<close>: the other operand when one is NaN.\<close>

definition fp_max :: "fp \<Rightarrow> fp \<Rightarrow> fp" where
  "fp_max a b = (if a = NaN then b else if b = NaN then a else if fp_less a b then b else a)"

fun fp_floor :: "fp \<Rightarrow> fp" where
  "fp_floor (Fin q) = Fin (of_int \<lfloor>q\<rfloor>)"
| "fp_floor x = x"

fun fp_ceil :: "fp \<Rightarrow> fp" where
  "fp_ceil (Fin q) = Fin (of_int \<lceil>q\<rceil>)"
| "fp_ceil x = x"

text \<open>
  The conversion \<open>(int)x\<close> discards the fraction; it is undefined unless the integer part fits
  an \<open>int\<close> (C17, 6.3.1.4).
\<close>

definition rat_trunc :: "rat \<Rightarrow> int" where
  "rat_trunc q = (if q \<ge> 0 then \<lfloor>q\<rfloor> else \<lceil>q\<rceil>)"

fun fp_to_int :: "fp \<Rightarrow> i32 ub" where
  "fp_to_int (Fin q) =
     (let z = rat_trunc q in if - (2 ^ 31) \<le> z \<and> z < 2 ^ 31 then Defined (word_of_int z) else UB)"
| "fp_to_int _ = UB"

definition fp_of_int :: "(rat \<Rightarrow> fp) \<Rightarrow> int \<Rightarrow> fp" where
  "fp_of_int rnd z = rnd (of_int z)"

text \<open>A conversion to a narrower type rounds; to a wider type it is exact.\<close>

fun fp_convert :: "(rat \<Rightarrow> fp) \<Rightarrow> fp \<Rightarrow> fp" where
  "fp_convert rnd (Fin q) = rnd q"
| "fp_convert rnd x = x"

section \<open>Square root\<close>

function isqrt :: "int \<Rightarrow> int" where
  "isqrt n =
     (if n \<le> 0 then 0
      else let r = 2 * isqrt (n div 4) in if (r + 1) * (r + 1) \<le> n then r + 1 else r)"
  by pat_completeness auto
termination
  by (relation "measure nat") auto

declare isqrt.simps [simp del]

text \<open>
  \<open>sqrtf\<close> is correctly rounded.  The argument is scaled by a power of four until its integer
  square root has at least 26 bits; a remainder is recorded as half a unit, which lies on the
  same side of every rounding boundary of a 24-bit significand as the root itself.
\<close>

definition sqrt_scaled :: "rat \<Rightarrow> rat" where
  "sqrt_scaled q =
     (let t = 26 - ilog2 q div 2;
          x = q * 4 powi t;
          n = \<lfloor>x\<rfloor>;
          s = isqrt n
      in (of_int s + (if of_int (s * s) = x then 0 else 1 / 2)) * 2 powi (- t))"

fun fp_sqrt :: "(rat \<Rightarrow> fp) \<Rightarrow> fp \<Rightarrow> fp" where
  "fp_sqrt rnd (Fin q) = (if q < 0 then NaN else if q = 0 then Fin 0 else rnd (sqrt_scaled q))"
| "fp_sqrt rnd PosInf = PosInf"
| "fp_sqrt rnd _ = NaN"

section \<open>Rounding a representable number is exact\<close>

lemma powi_2_mono: "i \<le> j \<Longrightarrow> (2 :: rat) powi i \<le> 2 powi j"
  by (rule power_int_increasing) simp_all

lemma powi_2_less_iff: "(2 :: rat) powi i < 2 powi j \<longleftrightarrow> i < j"
proof
  assume "(2 :: rat) powi i < 2 powi j"
  then show "i < j" using powi_2_mono [of j i] by (cases "j \<le> i") simp_all
next
  assume "i < j"
  then show "(2 :: rat) powi i < 2 powi j" by (rule power_int_strict_increasing) simp
qed

lemma powi_2_pos [simp]: "(0 :: rat) < 2 powi i"
  by (rule zero_less_power_int) simp

lemma powi_2_split: "(2 :: rat) powi (i + j) = 2 powi i * 2 powi j"
  by (rule power_int_add) simp

lemma powi_2_nonneg_int: "0 \<le> i \<Longrightarrow> (2 :: rat) powi i = of_int (2 ^ nat i)"
  by (simp add: power_int_def)

lemma bitlen_powi_bounds:
  assumes "0 < n"
  shows "2 powi (bitlen n - 1) \<le> (of_int n :: rat)" and "(of_int n :: rat) < 2 powi (bitlen n)"
proof -
  have b: "0 < bitlen n" using assms bitlen_nonneg [of n] by (simp add: bitlen_eq_zero_iff order_less_le)
  have l: "2 ^ nat (bitlen n - 1) \<le> n" and u: "n < 2 ^ nat (bitlen n)"
    using bitlen_bounds [OF assms] by simp_all
  have "(of_int (2 ^ nat (bitlen n - 1)) :: rat) \<le> of_int n" using l by (simp only: of_int_le_iff)
  then show "2 powi (bitlen n - 1) \<le> (of_int n :: rat)" using b by (simp add: powi_2_nonneg_int)
  have "(of_int n :: rat) < of_int (2 ^ nat (bitlen n))" using u by (simp only: of_int_less_iff)
  then show "(of_int n :: rat) < 2 powi (bitlen n)" using b by (simp add: powi_2_nonneg_int)
qed

lemma ilog2_bounds:
  assumes "0 < q"
  shows "2 powi (ilog2 q) \<le> q" and "q < 2 powi (ilog2 q + 1)"
proof -
  obtain n d where nd: "quotient_of q = (n, d)" by (cases "quotient_of q")
  have q: "q = of_int n / of_int d" and d: "0 < d"
    using nd by (simp_all add: quotient_of_div quotient_of_denom_pos)
  have n: "0 < n" using assms d by (simp add: q zero_less_divide_iff)
  let ?e = "bitlen n - bitlen d"
  have "q < 2 powi (bitlen n) / of_int d"
    using bitlen_powi_bounds(2) [OF n] d by (simp add: q divide_strict_right_mono)
  also have "\<dots> \<le> 2 powi (bitlen n) / 2 powi (bitlen d - 1)"
    using bitlen_powi_bounds(1) [OF d] d by (intro divide_left_mono mult_pos_pos) simp_all
  also have "\<dots> = 2 powi (?e + 1)" by (simp add: power_int_diff power_int_add)
  finally have up: "q < 2 powi (?e + 1)" .
  have "2 powi (?e - 1) = 2 powi (bitlen n - 1) / (2 :: rat) powi (bitlen d)"
    by (simp add: power_int_diff)
  also have "\<dots> \<le> of_int n / 2 powi (bitlen d)"
    using bitlen_powi_bounds(1) [OF n] by (simp add: divide_right_mono)
  also have "\<dots> \<le> q"
    unfolding q using bitlen_powi_bounds(2) [OF d] d n
    by (intro divide_left_mono mult_pos_pos) simp_all
  finally have low: "2 powi (?e - 1) \<le> q" .
  show "2 powi (ilog2 q) \<le> q" using low by (simp add: ilog2_def nd Let_def)
  show "q < 2 powi (ilog2 q + 1)" using up by (simp add: ilog2_def nd Let_def)
qed

lemma ilog2_less: "0 < q \<Longrightarrow> q < 2 powi e \<Longrightarrow> ilog2 q < e"
  using ilog2_bounds(1) [of q] by (metis le_less_trans powi_2_less_iff)

lemma round_half_even_of_int [simp]: "round_half_even (of_int z) = z"
  by (simp add: round_half_even_def)

lemma round_half_even_bounds: "of_int \<lfloor>x\<rfloor> \<le> (of_int (round_half_even x) :: rat)"
    "round_half_even x \<le> \<lceil>x\<rceil>"
proof -
  show "of_int \<lfloor>x\<rfloor> \<le> (of_int (round_half_even x) :: rat)"
    by (simp add: round_half_even_def Let_def)
  show "round_half_even x \<le> \<lceil>x\<rceil>"
    by (cases "x = of_int \<lfloor>x\<rfloor>")
      (auto simp: round_half_even_def Let_def ceiling_altdef)
qed

lemma round_half_even_ge: "of_int z \<le> x \<Longrightarrow> z \<le> round_half_even x"
  using round_half_even_bounds(1) [of x] by (simp only: of_int_le_iff le_floor_iff [symmetric]) simp

lemma round_half_even_le: "x \<le> of_int z \<Longrightarrow> round_half_even x \<le> z"
  using round_half_even_bounds(2) [of x] by (simp only: ceiling_le_iff [symmetric])

definition representable :: "nat \<Rightarrow> int \<Rightarrow> rat \<Rightarrow> bool" where
  "representable p emin q \<longleftrightarrow> (\<exists>m e. q = of_int m * 2 powi e \<and> \<bar>m\<bar> < 2 ^ p \<and> emin \<le> e)"

lemma representableI:
  "q = of_int m * 2 powi e \<Longrightarrow> \<bar>m\<bar> < 2 ^ p \<Longrightarrow> emin \<le> e \<Longrightarrow> representable p emin q"
  unfolding representable_def by blast

lemma representable_zero [simp]: "representable p emin 0"
  by (rule representableI [where m = 0 and e = emin]) simp_all

lemma representable_of_int: "\<bar>z\<bar> < 2 ^ p \<Longrightarrow> emin \<le> 0 \<Longrightarrow> representable p emin (of_int z)"
  by (rule representableI [where m = z and e = 0]) simp_all

lemma fp_round_exact:
  assumes "representable p emin q" and "\<bar>q\<bar> < 2 powi emax" and "0 < p"
  shows "fp_round p emin emax q = Fin q"
proof (cases "q = 0")
  case True
  then show ?thesis by (simp add: fp_round_def)
next
  case False
  obtain m e where q: "q = of_int m * 2 powi e" and m: "\<bar>m\<bar> < 2 ^ p" and e: "emin \<le> e"
    using assms(1) unfolding representable_def by blast
  let ?k = "fp_quantum p emin q"
  have "(of_int \<bar>m\<bar> :: rat) < of_int (2 ^ p)" using m by (simp only: of_int_less_iff)
  then have "\<bar>q\<bar> < 2 powi (int p) * 2 powi e"
    by (simp add: q abs_mult power_int_def)
  then have "\<bar>q\<bar> < 2 powi (int p + e)" by (simp add: powi_2_split)
  then have "ilog2 \<bar>q\<bar> < int p + e" using False by (intro ilog2_less) simp_all
  then have k: "?k \<le> e" using e by (simp add: fp_quantum_def)
  have "q / 2 powi ?k = of_int m * (2 powi e / 2 powi ?k)" by (simp add: q)
  also have "\<dots> = of_int m * 2 powi (e - ?k)" by (simp add: power_int_diff)
  also have "\<dots> = of_int (m * 2 ^ nat (e - ?k))" using k by (simp add: powi_2_nonneg_int)
  finally have "of_int (round_half_even (q / 2 powi ?k)) = q / 2 powi ?k"
    by (simp only: round_half_even_of_int)
  then have "of_int (round_half_even (q / 2 powi ?k)) * 2 powi ?k = q" by simp
  then show ?thesis using False assms(2) by (simp add: fp_round_def Let_def)
qed

lemma fp_round_representable:
  assumes "fp_round p emin emax q = Fin r" and "0 < p"
  shows "representable p emin r" and "\<bar>r\<bar> < 2 powi emax \<or> r = 0"
proof -
  show "\<bar>r\<bar> < 2 powi emax \<or> r = 0"
    using assms(1) by (auto simp: fp_round_def Let_def split: if_splits)
  show "representable p emin r"
  proof (cases "q = 0")
    case True
    then show ?thesis using assms(1) by (simp add: fp_round_def)
  next
    case False
    let ?k = "fp_quantum p emin q"
    let ?x = "q / 2 powi ?k"
    let ?n = "round_half_even ?x"
    have r: "r = of_int ?n * 2 powi ?k"
      using assms(1) False by (simp add: fp_round_def Let_def split: if_splits)
    have k: "emin \<le> ?k" and lk: "ilog2 \<bar>q\<bar> + 1 \<le> int p + ?k" by (simp_all add: fp_quantum_def)
    have "\<bar>q\<bar> < 2 powi (ilog2 \<bar>q\<bar> + 1)" using False by (intro ilog2_bounds) simp
    also have "\<dots> \<le> 2 powi (int p + ?k)" using lk by (rule powi_2_mono)
    finally have "\<bar>q\<bar> < 2 powi (int p) * 2 powi ?k" by (simp add: powi_2_split)
    then have "\<bar>?x\<bar> < 2 powi (int p)" by (simp add: abs_divide divide_less_eq)
    then have x: "\<bar>?x\<bar> < of_int (2 ^ p)" by (simp add: power_int_def)
    have xu: "?x \<le> of_int (2 ^ p)" using x abs_ge_self [of ?x] by linarith
    have xl: "of_int (- (2 ^ p)) \<le> ?x" using x abs_ge_minus_self [of ?x] by simp
    have n: "\<bar>?n\<bar> \<le> 2 ^ p"
      using round_half_even_le [OF xu] round_half_even_ge [OF xl] by simp
    show ?thesis
    proof (cases "\<bar>?n\<bar> < 2 ^ p")
      case True
      then show ?thesis using r k by (intro representableI)
    next
      case False
      with n have "\<bar>?n\<bar> = 2 ^ p" by simp
      then have "?n = sgn ?n * 2 ^ p" by (metis mult_sgn_abs)
      also have "\<dots> = 2 * (sgn ?n * 2 ^ (p - 1))" using assms(2) by (cases p) simp_all
      finally obtain s where s: "?n = 2 * s" "s = sgn ?n * 2 ^ (p - 1)" by simp
      have "\<bar>s\<bar> \<le> 2 ^ (p - 1)" using s(2) by (simp add: abs_mult abs_sgn_eq)
      also have "(2 :: int) ^ (p - 1) < 2 ^ p" using assms(2) by simp
      finally have "\<bar>s\<bar> < 2 ^ p" .
      moreover have "r = of_int s * 2 powi (?k + 1)"
        by (simp add: r s(1) power_int_add)
      ultimately show ?thesis using k by (intro representableI [where m = s and e = "?k + 1"]) simp_all
    qed
  qed
qed

section \<open>Truncation and fractional parts\<close>

lemma rat_trunc_nonneg: "0 \<le> q \<Longrightarrow> (0 :: rat) \<le> of_int (rat_trunc q) \<and> of_int (rat_trunc q) \<le> q \<and>
    q < of_int (rat_trunc q) + (1 :: rat)"
  using floor_correct [of q] by (simp add: rat_trunc_def)

lemma rat_trunc_neg: "q < 0 \<Longrightarrow> of_int (rat_trunc q) \<le> (0 :: rat) \<and> q \<le> of_int (rat_trunc q) \<and>
    of_int (rat_trunc q) < q + (1 :: rat)"
  using ceiling_correct [of q] by (simp add: rat_trunc_def)

lemma rat_trunc_bounds:
  "\<bar>of_int (rat_trunc q)\<bar> \<le> (\<bar>q\<bar> :: rat) \<and> \<bar>q - of_int (rat_trunc q)\<bar> < 1 \<and>
   \<bar>q - of_int (rat_trunc q)\<bar> \<le> \<bar>q\<bar>"
proof (cases "0 \<le> q")
  case True
  from rat_trunc_nonneg [OF this] True show ?thesis by (auto simp: abs_if)
next
  case False
  then have "q < 0" by simp
  from rat_trunc_neg [OF this] this show ?thesis by (auto simp: abs_if)
qed

lemmas rat_trunc_abs_le = rat_trunc_bounds [THEN conjunct1]
  and rat_trunc_frac_less_one = rat_trunc_bounds [THEN conjunct2, THEN conjunct1]
  and rat_trunc_frac_le = rat_trunc_bounds [THEN conjunct2, THEN conjunct2]

lemma rat_trunc_of_int [simp]: "rat_trunc (of_int z) = z"
  by (simp add: rat_trunc_def)

lemma representable_cases:
  assumes "representable p emin q"
  obtains (integer) z where "q = of_int z"
  | (fraction) m e where "q = of_int m * 2 powi e" "\<bar>m\<bar> < 2 ^ p" "emin \<le> e" "e < 0"
proof -
  obtain m e where q: "q = of_int m * 2 powi e" and m: "\<bar>m\<bar> < 2 ^ p" and e: "emin \<le> e"
    using assms unfolding representable_def by blast
  show ?thesis
  proof (cases "0 \<le> e")
    case True
    then have "q = of_int (m * 2 ^ nat e)" by (simp add: q powi_2_nonneg_int)
    then show ?thesis by (rule integer)
  next
    case False
    then show ?thesis by (intro fraction [OF q m e]) simp
  qed
qed

lemma representable_trunc:
  assumes "representable p emin q" and "emin \<le> 0"
  shows "representable p emin (of_int (rat_trunc q))"
  using assms(1)
proof (cases rule: representable_cases)
  case (integer z)
  then show ?thesis using assms(1) by simp
next
  case (fraction m e)
  have "\<bar>of_int (rat_trunc q) :: rat\<bar> \<le> of_int \<bar>m\<bar> * 2 powi e"
    using rat_trunc_abs_le [of q] by (simp add: fraction(1) abs_mult)
  also have "\<dots> \<le> of_int \<bar>m\<bar> * 1"
    using fraction(4) powi_2_mono [of e 0] by (intro mult_left_mono) simp_all
  finally have "of_int \<bar>rat_trunc q\<bar> \<le> (of_int \<bar>m\<bar> :: rat)" by simp
  then have "\<bar>rat_trunc q\<bar> \<le> \<bar>m\<bar>" by (simp only: of_int_le_iff)
  then show ?thesis using fraction(2) assms(2) by (intro representable_of_int) simp_all
qed

lemma representable_frac:
  assumes "representable p emin q"
  shows "representable p emin (q - of_int (rat_trunc q))"
  using assms
proof (cases rule: representable_cases)
  case (integer z)
  then show ?thesis by simp
next
  case (fraction m e)
  let ?m = "m - rat_trunc q * 2 ^ nat (- e)"
  have one: "(2 :: rat) powi (- e) * 2 powi e = 1"
    using powi_2_split [of "- e" e] by simp
  have "q - of_int (rat_trunc q) = of_int m * 2 powi e - of_int (rat_trunc q) * (2 powi (- e) * 2 powi e)"
    by (simp only: one fraction(1) mult_1_right)
  also have "\<dots> = of_int ?m * 2 powi e"
    using fraction(4) by (simp add: powi_2_nonneg_int algebra_simps)
  finally have eq: "q - of_int (rat_trunc q) = of_int ?m * 2 powi e" .
  have "\<bar>of_int ?m * 2 powi e\<bar> \<le> \<bar>of_int m * (2 :: rat) powi e\<bar>"
    using rat_trunc_frac_le [of q] by (simp only: eq [symmetric] fraction(1) [symmetric])
  then have "(of_int \<bar>?m\<bar> :: rat) * 2 powi e \<le> of_int \<bar>m\<bar> * 2 powi e"
    by (simp only: abs_mult abs_of_pos [OF powi_2_pos] of_int_abs)
  then have "(of_int \<bar>?m\<bar> :: rat) \<le> of_int \<bar>m\<bar>" by (rule mult_right_le_imp_le) simp
  then have "\<bar>?m\<bar> \<le> \<bar>m\<bar>" by (simp only: of_int_le_iff)
  then have "\<bar>?m\<bar> < 2 ^ p" using fraction(2) by linarith
  then show ?thesis using eq fraction(3) by (intro representableI)
qed

section \<open>Comparisons and maxima\<close>

lemma fp_less_NaN [simp]: "\<not> fp_less x NaN" "\<not> fp_less NaN x"
  by (cases x; simp)+

lemma fp_max_ge_left: "a \<noteq> NaN \<Longrightarrow> fp_max a b \<noteq> NaN \<and> fp_le a (fp_max a b)"
  by (auto simp: fp_max_def fp_le_def)

text \<open>A binary32 value: not NaN and, when finite, in the format.\<close>

definition is_float32 :: "fp \<Rightarrow> bool" where
  "is_float32 x \<longleftrightarrow>
     (case x of Fin q \<Rightarrow> representable 24 (-149) q \<and> \<bar>q\<bar> < 2 powi 128 | _ \<Rightarrow> True)"

lemma round32_exact: "representable 24 (-149) q \<Longrightarrow> \<bar>q\<bar> < 2 powi 128 \<Longrightarrow> round32 q = Fin q"
  by (simp add: round32_def fp_round_exact)

lemma is_float32_round32: "is_float32 (round32 q)"
  using fp_round_representable [of 24 "-149" 128 q]
  by (cases "round32 q") (auto simp: is_float32_def round32_def)

lemma round64_of_int: 
  assumes "\<bar>z\<bar> < 2 ^ 53"
  shows "round64 (of_int z) = Fin (of_int z)"
proof -
  have "(of_int \<bar>z\<bar> :: rat) < of_int (2 ^ 53)" using assms by (simp only: of_int_less_iff)
  also have "(of_int (2 ^ 53) :: rat) = 2 powi 53" by simp
  also have "(2 :: rat) powi 53 \<le> 2 powi 1024" by (rule powi_2_mono) simp
  finally have "\<bar>of_int z :: rat\<bar> < 2 powi 1024" by simp
  with representable_of_int [OF assms, of "-1074"] show ?thesis
    by (simp add: round64_def fp_round_exact)
qed

lemma fp_of_int_round64: "\<bar>z\<bar> < 2 ^ 53 \<Longrightarrow> fp_of_int round64 z = Fin (of_int z)"
  by (simp add: fp_of_int_def round64_of_int)

end
