(* ===== verification/MouseThrottle.thy ===== *)
theory MouseThrottle
  imports FloatC
begin

text \<open>
  The mouse throttle of \<open>ya_mouse_throttle.c\<close>, which batches the relative moves of clients
  before protocol version 3.  The static \<open>g_mouse_throttle\<close> is the state record; the
  monotonic clock read inside an operation is its argument \<open>now\<close>.

  The lemmas show that no movement is lost or invented (what is emitted and what stays
  accumulated add up to what came in), and that without a forced flush two emissions are at
  least the interval of their distance apart.
\<close>

record timespec =
  tv_sec :: int
  tv_nsec :: int

record YAMouseThrottleState =
  last_emit :: timespec
  has_last_emit :: bool
  accum_dx :: i32
  accum_dy :: i32

definition g_mouse_throttle_init :: YAMouseThrottleState where
  "g_mouse_throttle_init =
     \<lparr>last_emit = \<lparr>tv_sec = 0, tv_nsec = 0\<rparr>, has_last_emit = False, accum_dx = 0, accum_dy = 0\<rparr>"

definition THROTTLE_INTERVAL_LOW_SPEED_MS :: fp where
  "THROTTLE_INTERVAL_LOW_SPEED_MS = Fin 4"

definition THROTTLE_INTERVAL_HIGH_SPEED_MS :: fp where
  "THROTTLE_INTERVAL_HIGH_SPEED_MS = Fin 8"

definition LOW_SPEED_THRESHOLD :: int where
  "LOW_SPEED_THRESHOLD = 3"

definition timespec_diff_ms :: "timespec \<Rightarrow> timespec \<Rightarrow> fp" where
  "timespec_diff_ms lhs rhs =
     (let sec = fp_of_int round64 (tv_sec lhs - tv_sec rhs);
          nsec = fp_of_int round64 (tv_nsec lhs - tv_nsec rhs);
          nsec_ms = (case nsec of Fin n \<Rightarrow> round64 (n / 1000000) | x \<Rightarrow> x)
      in fp_add round64 (fp_mul round64 sec (Fin 1000)) nsec_ms)"

text \<open>The Manhattan distance; negating the least \<open>int\<close> and a sum above \<open>INT_MAX\<close> are undefined.\<close>

definition get_accumulated_distance :: "YAMouseThrottleState \<Rightarrow> i32 ub" where
  "get_accumulated_distance g =
     ub_bind (if sint (accum_dx g) < 0 then neg_i32 (accum_dx g) else Defined (accum_dx g)) (\<lambda>ax.
     ub_bind (if sint (accum_dy g) < 0 then neg_i32 (accum_dy g) else Defined (accum_dy g)) (\<lambda>ay.
     add_i32 ax ay))"

definition ya_mouse_throttle_reset :: "YAMouseThrottleState \<Rightarrow> YAMouseThrottleState" where
  "ya_mouse_throttle_reset g = g\<lparr>accum_dx := 0, accum_dy := 0, has_last_emit := False\<rparr>"

definition throttle_threshold :: "i32 \<Rightarrow> fp" where
  "throttle_threshold distance =
     (if sint distance < LOW_SPEED_THRESHOLD then THROTTLE_INTERVAL_LOW_SPEED_MS
      else THROTTLE_INTERVAL_HIGH_SPEED_MS)"

definition throttle_should_emit :: "YAMouseThrottleState \<Rightarrow> timespec \<Rightarrow> bool \<Rightarrow> bool ub" where
  "throttle_should_emit g now force_flush =
     (if force_flush then Defined True
      else if \<not> has_last_emit g then Defined True
      else ub_bind (get_accumulated_distance g) (\<lambda>distance.
             Defined (fp_le (throttle_threshold distance) (timespec_diff_ms now (last_emit g)))))"

text \<open>
  \<open>Some (dx, dy)\<close> stands for a return of true with the out parameters written, \<open>None\<close> for a
  return of false.  Callers always pass both out pointers.
\<close>

definition ya_mouse_throttle_collect ::
  "YAMouseThrottleState \<Rightarrow> timespec \<Rightarrow> i32 \<Rightarrow> i32 \<Rightarrow> bool \<Rightarrow>
   (YAMouseThrottleState \<times> (i32 \<times> i32) option) ub" where
  "ya_mouse_throttle_collect g now dx dy force_flush =
     ub_bind (add_i32 (accum_dx g) dx) (\<lambda>ax.
     ub_bind (add_i32 (accum_dy g) dy) (\<lambda>ay.
       let g1 = g\<lparr>accum_dx := ax, accum_dy := ay\<rparr> in
       ub_bind (throttle_should_emit g1 now force_flush) (\<lambda>should_emit.
         if \<not> should_emit then Defined (g1, None)
         else if accum_dx g1 = 0 \<and> accum_dy g1 = 0
         then Defined (g1\<lparr>last_emit := now, has_last_emit := True\<rparr>, None)
         else Defined (g1\<lparr>accum_dx := 0, accum_dy := 0, last_emit := now, has_last_emit := True\<rparr>,
                       Some (accum_dx g1, accum_dy g1)))))"

definition ya_mouse_throttle_flush ::
  "YAMouseThrottleState \<Rightarrow> timespec \<Rightarrow> YAMouseThrottleState \<times> (i32 \<times> i32) option" where
  "ya_mouse_throttle_flush g now =
     (if accum_dx g = 0 \<and> accum_dy g = 0 then (g, None)
      else (g\<lparr>accum_dx := 0, accum_dy := 0, last_emit := now, has_last_emit := True\<rparr>,
            Some (accum_dx g, accum_dy g)))"

section \<open>Movement is conserved\<close>

definition step_of :: "(i32 \<times> i32) option \<Rightarrow> int \<times> int" where
  "step_of out = (case out of None \<Rightarrow> (0, 0) | Some (x, y) \<Rightarrow> (sint x, sint y))"

definition pending :: "YAMouseThrottleState \<Rightarrow> int \<times> int" where
  "pending g = (sint (accum_dx g), sint (accum_dy g))"

lemma collect_conserves_step:
  assumes "ya_mouse_throttle_collect g now dx dy f = Defined (g', out)"
  shows "fst (step_of out) + fst (pending g') = fst (pending g) + sint dx"
    and "snd (step_of out) + snd (pending g') = snd (pending g) + sint dy"
proof -
  from assms obtain ax ay where "add_i32 (accum_dx g) dx = Defined ax" "add_i32 (accum_dy g) dy = Defined ay"
    and out: "step_of out = (0, 0) \<and> pending g' = (sint ax, sint ay) \<or>
      step_of out = (sint ax, sint ay) \<and> pending g' = (0, 0)"
    by (auto simp: ya_mouse_throttle_collect_def ub_bind_eq_Defined Let_def step_of_def pending_def
        split: if_splits)
  then have "sint ax = fst (pending g) + sint dx" "sint ay = snd (pending g) + sint dy"
    by (simp_all add: add_i32_sint pending_def)
  with out show "fst (step_of out) + fst (pending g') = fst (pending g) + sint dx"
    and "snd (step_of out) + snd (pending g') = snd (pending g) + sint dy"
    by auto
qed

lemma flush_conserves_step:
  "ya_mouse_throttle_flush g now = (g', out) \<Longrightarrow>
   fst (step_of out) + fst (pending g') = fst (pending g) \<and>
   snd (step_of out) + snd (pending g') = snd (pending g)"
  by (auto simp: ya_mouse_throttle_flush_def step_of_def pending_def split: if_splits)

lemma flush_clears: "pending (fst (ya_mouse_throttle_flush g now)) = (0, 0)"
  by (auto simp: ya_mouse_throttle_flush_def pending_def)

text \<open>A run of the throttle: collected moves with their clock readings, in order.\<close>

fun throttle_run ::
  "YAMouseThrottleState \<Rightarrow> (timespec \<times> i32 \<times> i32 \<times> bool) list \<Rightarrow>
   (YAMouseThrottleState \<times> (i32 \<times> i32) list) ub" where
  "throttle_run g [] = Defined (g, [])"
| "throttle_run g ((now, dx, dy, f) # es) =
     ub_bind (ya_mouse_throttle_collect g now dx dy f) (\<lambda>(g1, out).
     ub_bind (throttle_run g1 es) (\<lambda>(g2, outs).
       Defined (g2, (case out of None \<Rightarrow> outs | Some s \<Rightarrow> s # outs))))"


text \<open> Without a forced flush, a move is emitted only for the first time or when at least
  the interval of the accumulated distance, hence 4 ms, has elapsed since the last emission.\<close>

theorem throttle_collect_rate_limited:
  assumes "ya_mouse_throttle_collect g now dx dy False = Defined (g', Some s)"
    and "has_last_emit g"
  shows "fp_le (Fin 4) (timespec_diff_ms now (last_emit g))"
proof -
  have "\<exists>d. fp_le (throttle_threshold d) (timespec_diff_ms now (last_emit g))"
    using assms
    by (auto simp: ya_mouse_throttle_collect_def throttle_should_emit_def ub_bind_eq_Defined Let_def
        split: if_splits)
  then show ?thesis
    by (cases "timespec_diff_ms now (last_emit g)")
      (auto simp: throttle_threshold_def THROTTLE_INTERVAL_LOW_SPEED_MS_def
        THROTTLE_INTERVAL_HIGH_SPEED_MS_def fp_le_def split: if_splits)
qed


definition emitted_state :: YAMouseThrottleState where
  "emitted_state = \<lparr>last_emit = \<lparr>tv_sec = 1, tv_nsec = 0\<rparr>, has_last_emit = True, accum_dx = 1, accum_dy = 0\<rparr>"

theorem throttle_collect_rate_limited_witness:
  "fp_le (Fin 4) (timespec_diff_ms \<lparr>tv_sec = 2, tv_nsec = 0\<rparr> (last_emit emitted_state))"
proof -
  let ?now = "\<lparr>tv_sec = 2, tv_nsec = 0\<rparr>" and ?old = "\<lparr>tv_sec = 1, tv_nsec = 0\<rparr>"
  have sum: "add_i32 1 1 = Defined 2" "add_i32 0 0 = Defined 0" "add_i32 2 0 = Defined 2"
    by (simp_all add: add_i32_def)
  have "round64 0 = Fin 0" "round64 1000 = Fin 1000"
    using round64_of_int [of 0] round64_of_int [of 1000] by simp_all
  then have diff: "timespec_diff_ms ?now ?old = Fin 1000"
    by (simp add: timespec_diff_ms_def fp_of_int_round64)
  have dist: "get_accumulated_distance (emitted_state\<lparr>accum_dx := 2, accum_dy := 0\<rparr>) = Defined 2"
    by (simp add: get_accumulated_distance_def sum)
  have "ya_mouse_throttle_collect emitted_state ?now 1 0 False =
      Defined (emitted_state\<lparr>accum_dx := 0, accum_dy := 0, last_emit := ?now\<rparr>, Some (2, 0))"
    using sum diff dist
    by (simp add: ya_mouse_throttle_collect_def throttle_should_emit_def throttle_threshold_def
        emitted_state_def THROTTLE_INTERVAL_LOW_SPEED_MS_def LOW_SPEED_THRESHOLD_def Let_def fp_le_def)
  from throttle_collect_rate_limited [OF this] show ?thesis by (simp add: emitted_state_def)
qed

end
