(* ===== verification/MouseFilter.thy ===== *)
theory MouseFilter
  imports FloatC
begin

text \<open>
  The per-client mouse filter of \<open>ya_mouse_filter.c\<close>: subpixel accumulation (both protocol
  generations) and the server-side acceleration kept for clients before version 3.  Floats are
  \<open>fp\<close> values rounded to binary32; \<open>powf(x, 1.0f)\<close> is \<open>x\<close>.

  The lemmas show that quantisation is exact (the integer step and the remaining fraction add
  up to the accumulated value), that the fraction stays below one pixel, that the gain stays
  between 1 and 3, and that the sensitivity never falls below 0.1.
\<close>

record ya_mouse_filter =
  pointer_scale :: fp
  algorithms_enabled :: bool
  vex :: fp
  vey :: fp
  frac_x :: fp
  frac_y :: fp

record ya_mouse_step =
  step_dx :: i32
  step_dy :: i32

definition ya_mouse_filter_create :: "bool \<Rightarrow> ya_mouse_filter option" where
  "ya_mouse_filter_create calloc_ok =
     (if \<not> calloc_ok then None
      else Some \<lparr>pointer_scale = Fin 1, algorithms_enabled = True,
                 vex = Fin 0, vey = Fin 0, frac_x = Fin 0, frac_y = Fin 0\<rparr>)"

definition ya_mouse_filter_reset_state :: "ya_mouse_filter \<Rightarrow> ya_mouse_filter" where
  "ya_mouse_filter_reset_state ctx =
     ctx\<lparr>vex := Fin 0, vey := Fin 0, frac_x := Fin 0, frac_y := Fin 0\<rparr>"

definition ya_mouse_filter_set_pointer_scale :: "ya_mouse_filter \<Rightarrow> fp \<Rightarrow> ya_mouse_filter" where
  "ya_mouse_filter_set_pointer_scale ctx sensitivity =
     ctx\<lparr>pointer_scale := fp_max (round32 (1 / 10)) sensitivity\<rparr>"

definition ya_mouse_filter_set_algorithms_enabled :: "ya_mouse_filter \<Rightarrow> bool \<Rightarrow> ya_mouse_filter" where
  "ya_mouse_filter_set_algorithms_enabled ctx enabled = ctx\<lparr>algorithms_enabled := enabled\<rparr>"

section \<open>Quantisation\<close>

text \<open>
  The block the filter and the version 3 handler repeat for each axis: once the accumulated
  fraction reaches a pixel, its integer part (towards zero) is taken out of it.
\<close>

definition quantize :: "fp \<Rightarrow> (i32 \<times> fp) ub" where
  "quantize acc =
     (if fp_le (Fin 1) (fp_abs acc)
      then ub_bind (fp_to_int (if fp_less (Fin 0) acc then fp_floor acc else fp_ceil acc)) (\<lambda>q.
             Defined (q, fp_sub round32 acc (fp_of_int round32 (sint q))))
      else Defined (0, acc))"

text \<open>A finite binary32 fraction below one pixel.\<close>

definition subpixel :: "fp \<Rightarrow> bool" where
  "subpixel x \<longleftrightarrow> (\<exists>q. x = Fin q \<and> \<bar>q\<bar> < 1 \<and> representable 24 (-149) q)"

definition filter_inv :: "ya_mouse_filter \<Rightarrow> bool" where
  "filter_inv ctx \<longleftrightarrow> subpixel (frac_x ctx) \<and> subpixel (frac_y ctx) \<and>
     fp_le (round32 (1 / 10)) (pointer_scale ctx)"

lemma round32_tenth: "round32 (1 / 10) = Fin (13421773 / 134217728)"
  by code_simp

lemma subpixel_zero [simp]: "subpixel (Fin 0)"
  by (simp add: subpixel_def)

lemma less_powi_128: "\<bar>q\<bar> \<le> (2 :: rat) ^ 31 \<Longrightarrow> \<bar>q\<bar> < 2 powi 128"
proof -
  assume "\<bar>q\<bar> \<le> (2 :: rat) ^ 31"
  also have "\<dots> = 2 powi 31" by (simp add: power_int_def)
  also have "\<dots> < 2 powi 128" by (simp only: powi_2_less_iff)
  finally show ?thesis .
qed

lemma quantize_finite:
  assumes "is_float32 (Fin q)" and "- (2 ^ 31) \<le> rat_trunc q" and "rat_trunc q < 2 ^ 31"
  shows "quantize (Fin q) = Defined (word_of_int (rat_trunc q), Fin (q - of_int (rat_trunc q)))"
proof (cases "1 \<le> \<bar>q\<bar>")
  case True
  let ?z = "rat_trunc q"
  have rep: "representable 24 (-149) q" using assms(1) by (simp add: is_float32_def)
  have part: "(if 0 < q then fp_floor (Fin q) else fp_ceil (Fin q)) = Fin (of_int ?z)"
    using True by (auto simp: rat_trunc_def abs_if split: if_splits)
  have int: "fp_to_int (Fin (of_int ?z)) = Defined (word_of_int ?z)"
    using assms(2,3) by (simp add: Let_def)
  have small: "\<bar>of_int ?z :: rat\<bar> \<le> 2 ^ 31"
  proof -
    have "\<bar>?z\<bar> \<le> 2 ^ 31" using assms(2,3) by linarith
    then have "(of_int \<bar>?z\<bar> :: rat) \<le> of_int (2 ^ 31)" by (simp only: of_int_le_iff)
    then show ?thesis by simp
  qed
  have bk: "fp_of_int round32 (sint (word_of_int ?z :: i32)) = Fin (of_int ?z)"
    using rep small assms(2,3) less_powi_128 [of "of_int ?z"]
    by (simp add: sint_word_of_int_i32 fp_of_int_def round32_exact representable_trunc)
  have "\<bar>q - of_int ?z\<bar> < 1" by (rule rat_trunc_frac_less_one)
  then have "\<bar>q - of_int ?z\<bar> < 2 powi 128" by (intro less_powi_128) simp
  then have "round32 (q - of_int ?z) = Fin (q - of_int ?z)"
    using rep by (simp add: round32_exact representable_frac)
  with True part int bk show ?thesis by (simp add: quantize_def fp_le_def fp_sub_def)
next
  case False
  then have "rat_trunc q = 0" by (auto simp: rat_trunc_def abs_if floor_eq_iff ceiling_eq_iff)
  with False show ?thesis by (simp add: quantize_def fp_le_def)
qed

lemma subpixel_0: "subpixel (Fin 0)"
  unfolding subpixel_def by (auto intro!: representableI [of _ 0 0])

text \<open> Quantising an accumulated binary32 fraction splits it exactly: the integer step plus
  the remaining fraction is the accumulated value, the step is its truncation towards zero, and
  the remainder is below one pixel.\<close>

theorem quantize_exact:
  assumes "is_float32 (Fin q)" and "quantize (Fin q) = Defined (dx, r)"
  shows "\<exists>f. r = Fin f \<and> of_int (sint dx) + f = q \<and> \<bar>f\<bar> < 1 \<and> subpixel r
     \<and> \<bar>of_int (sint dx) :: rat\<bar> \<le> \<bar>q\<bar>"
proof -
  have range: "- (2 ^ 31) \<le> rat_trunc q \<and> rat_trunc q < 2 ^ 31"
  proof (cases "1 \<le> \<bar>q\<bar>")
    case True
    then have part: "(if 0 < q then fp_floor (Fin q) else fp_ceil (Fin q)) = Fin (of_int (rat_trunc q))"
      by (auto simp: rat_trunc_def abs_if split: if_splits)
    show ?thesis
      using True assms(2) part
      by (auto simp: quantize_def fp_le_def ub_bind_eq_Defined Let_def split: if_splits)
  next
    case False
    then have "\<bar>of_int (rat_trunc q) :: rat\<bar> < 1" using rat_trunc_abs_le [of q] by linarith
    then have "\<bar>rat_trunc q\<bar> < 1" by (metis of_int_abs of_int_less_1_iff)
    then show ?thesis by simp
  qed
  with quantize_finite [OF assms(1)] assms(2)
  have dx: "dx = word_of_int (rat_trunc q)" and r: "r = Fin (q - of_int (rat_trunc q))" by auto
  have "sint dx = rat_trunc q" using range by (simp add: dx sint_word_of_int_i32)
  then show ?thesis
    using assms(1) rat_trunc_bounds [of q] representable_frac [of 24 "-149" q]
    by (auto simp: r subpixel_def is_float32_def)
qed

section \<open>The filter of protocol version 2\<close>

definition alpha_v :: fp where "alpha_v = round32 (3 / 10)"
definition accel_k :: fp where "accel_k = round32 (2 / 100)"

text \<open>The velocity average of one axis, \<open>alpha_v * f + (1.0f - alpha_v) * v\<close>.\<close>

definition ema :: "fp \<Rightarrow> fp \<Rightarrow> fp" where
  "ema f v = fp_add round32 (fp_mul round32 alpha_v f)
               (fp_mul round32 (fp_sub round32 (Fin 1) alpha_v) v)"

definition v2_speed :: "fp \<Rightarrow> fp \<Rightarrow> fp" where
  "v2_speed vx vy =
     fp_sqrt round32 (fp_add round32 (fp_mul round32 vx vx) (fp_mul round32 vy vy))"

text \<open>\<open>base_gain * (1.0f + accel_k * powf(dv, p))\<close> with \<open>base_gain = 1.0f\<close>, \<open>v0 = 2.0f\<close>,
  \<open>p = 1.0f\<close>, limited to \<open>accel_max = 3.0f\<close>.\<close>

definition v2_gain :: "fp \<Rightarrow> fp" where
  "v2_gain speed =
     (let dv = fp_sub round32 speed (Fin 2);
          dv' = (if fp_less dv (Fin 0) then Fin 0 else dv);
          gain = fp_mul round32 (Fin 1) (fp_add round32 (Fin 1) (fp_mul round32 accel_k dv'))
      in if fp_less (Fin 3) gain then Fin 3 else gain)"

text \<open>
  The result: the return value, the context and the steps written (\<open>*out_count\<close> is their
  number).  The callers pass \<open>steps\<close> and \<open>out_count\<close>; a null context is \<open>None\<close>.
\<close>

definition ya_mouse_filter_process ::
  "ya_mouse_filter option \<Rightarrow> i32 \<Rightarrow> i32 \<Rightarrow> nat \<Rightarrow>
   (bool \<times> ya_mouse_filter option \<times> ya_mouse_step list) ub" where
  "ya_mouse_filter_process octx in_dx in_dy steps_cap =
     (case octx of
        None \<Rightarrow> Defined (False, None, [])
      | Some ctx \<Rightarrow>
        if steps_cap = 0 then Defined (False, octx, [])
        else if \<not> algorithms_enabled ctx then
          (if in_dx = 0 \<and> in_dy = 0 then Defined (True, octx, [])
           else Defined (True, octx, [\<lparr>step_dx = in_dx, step_dy = in_dy\<rparr>]))
        else
          let fx = fp_of_int round32 (sint in_dx);
              fy = fp_of_int round32 (sint in_dy);
              vx = ema fx (vex ctx);
              vy = ema fy (vey ctx);
              gain = v2_gain (v2_speed vx vy);
              fx' = fp_mul round32 fx (fp_mul round32 (pointer_scale ctx) gain);
              fy' = fp_mul round32 fy (fp_mul round32 (pointer_scale ctx) gain);
              ax = fp_add round32 (frac_x ctx) fx';
              ay = fp_add round32 (frac_y ctx) fy'
          in ub_bind (quantize ax) (\<lambda>(qx, rx).
             ub_bind (quantize ay) (\<lambda>(qy, ry).
               let ctx' = ctx\<lparr>vex := vx, vey := vy, frac_x := rx, frac_y := ry\<rparr>
               in if qx = 0 \<and> qy = 0 then Defined (True, Some ctx', [])
                  else Defined (True, Some ctx', [\<lparr>step_dx = qx, step_dy = qy\<rparr>]))))"

section \<open>Its properties\<close>

lemma fp_add_float32: "is_float32 a \<Longrightarrow> is_float32 b \<Longrightarrow> is_float32 (fp_add round32 a b)"
  by (cases a; cases b) (auto intro: is_float32_round32 simp: is_float32_def [where x = NaN]
      is_float32_def [where x = PosInf] is_float32_def [where x = NegInf])

text \<open> The pointer sensitivity a client can set is never below 0.1 (as a float), whatever
  float it sends, NaN and the infinities included.\<close>

theorem pointer_scale_lower_bound:
  "fp_le (round32 (1 / 10)) (pointer_scale (ya_mouse_filter_set_pointer_scale ctx s))"
  using fp_max_ge_left [of "round32 (1 / 10)" s]
  by (simp add: ya_mouse_filter_set_pointer_scale_def round32_tenth)

lemma round32_ge_one:
  assumes "1 \<le> q" and "round32 q = Fin r"
  shows "1 \<le> r"
proof -
  let ?k = "fp_quantum 24 (-149) q"
  have r: "r = of_int (round_half_even (q / 2 powi ?k)) * 2 powi ?k"
    using assms by (simp add: round32_def fp_round_def Let_def split: if_splits)
  have lo: "0 \<le> ilog2 q"
  proof (rule ccontr)
    assume "\<not> 0 \<le> ilog2 q"
    then have "(2 :: rat) powi (ilog2 q + 1) \<le> 2 powi 0" by (intro powi_2_mono) simp
    moreover have "q < 2 powi (ilog2 q + 1)" using assms(1) by (intro ilog2_bounds) simp
    ultimately show False using assms(1) by simp
  qed
  then have k: "?k = ilog2 q - 23" using assms(1) by (simp add: fp_quantum_def)
  have "(2 :: rat) powi 23 * 2 powi ?k = 2 powi (ilog2 q)" by (simp only: powi_2_split [symmetric] k) simp
  also have "\<dots> \<le> q" using assms(1) by (intro ilog2_bounds) simp
  finally have "(2 :: rat) powi 23 \<le> q / 2 powi ?k" by (simp add: pos_le_divide_eq)
  then have "of_int (2 ^ 23) \<le> q / 2 powi ?k" by (simp add: power_int_def)
  then have "2 ^ 23 \<le> round_half_even (q / 2 powi ?k)" by (rule round_half_even_ge)
  then have "(of_int (2 ^ 23) :: rat) \<le> of_int (round_half_even (q / 2 powi ?k))"
    by (simp only: of_int_le_iff)
  then have "2 powi 23 * 2 powi ?k \<le> r"
    unfolding r by (intro mult_right_mono) (simp_all add: power_int_def order_less_imp_le)
  moreover have "(2 :: rat) powi 0 \<le> 2 powi 23 * 2 powi ?k"
    using lo by (simp only: powi_2_split [symmetric] k) (intro powi_2_mono, simp)
  ultimately show ?thesis by simp
qed

lemma round32_nonneg:
  assumes "0 \<le> q" and "round32 q = Fin r"
  shows "0 \<le> r"
proof (cases "q = 0")
  case True
  then show ?thesis using assms(2) by (simp add: round32_def fp_round_def)
next
  case False
  let ?k = "fp_quantum 24 (-149) q"
  have "0 \<le> q / 2 powi ?k" using assms(1) by (simp add: order_less_imp_le)
  then have "0 \<le> round_half_even (q / 2 powi ?k)" by (intro round_half_even_ge) simp
  moreover have "r = of_int (round_half_even (q / 2 powi ?k)) * 2 powi ?k"
    using assms(2) False by (simp add: round32_def fp_round_def Let_def split: if_splits)
  ultimately show ?thesis by simp
qed

lemma accel_k_value: "accel_k = Fin (5368709 / 268435456)"
  by code_simp

text \<open> The acceleration of the old architecture never slows the pointer down and at most
  triples its speed: whenever the gain is a number it lies between 1 and 3.\<close>

theorem v2_gain_bounds:
  assumes "v2_gain speed = Fin g"
  shows "1 \<le> g \<and> g \<le> 3"
proof -
  define dv where "dv = (let d = fp_sub round32 speed (Fin 2) in if fp_less d (Fin 0) then Fin 0 else d)"
  have dv: "0 \<le> d" if "dv = Fin d" for d
    using that by (cases "fp_sub round32 speed (Fin 2)") (auto simp: dv_def Let_def split: if_splits)
  define gain where "gain = fp_mul round32 (Fin 1) (fp_add round32 (Fin 1) (fp_mul round32 accel_k dv))"
  have g: "Fin g = (if fp_less (Fin 3) gain then Fin 3 else gain)"
    using assms [symmetric] by (simp only: v2_gain_def gain_def dv_def Let_def)
  have "1 \<le> g'" if gp: "gain = Fin g'" for g'
  proof -
    obtain x where x: "fp_add round32 (Fin 1) (fp_mul round32 accel_k dv) = Fin x"
        and g': "round32 (1 * x) = Fin g'"
      using gp unfolding gain_def by (cases "fp_add round32 (Fin 1) (fp_mul round32 accel_k dv)")
        (auto simp: Let_def)
    obtain a where a: "fp_mul round32 accel_k dv = Fin a" and xa: "round32 (1 + a) = Fin x"
      using x by (cases "fp_mul round32 accel_k dv") auto
    obtain d where d: "dv = Fin d" and ad: "round32 (5368709 / 268435456 * d) = Fin a"
      using a by (cases dv) (auto simp: accel_k_value Let_def)
    have "0 \<le> a" using dv [OF d] by (intro round32_nonneg [OF _ ad]) simp
    then have "1 \<le> x" by (intro round32_ge_one [OF _ xa]) simp
    then show ?thesis by (intro round32_ge_one [OF _ g']) simp
  qed
  with g show ?thesis by (cases gain) (auto split: if_splits)
qed

lemma quantize_float32_subpixel:
  assumes "is_float32 acc" and "quantize acc = Defined (q, r)" and "r \<noteq> NaN"
  shows "subpixel r"
proof (cases acc)
  case (Fin x)
  then show ?thesis using quantize_exact [of x q r] assms by auto
qed (use assms in \<open>simp_all add: quantize_def fp_le_def\<close>)

lemma subpixel_float32: "subpixel x \<Longrightarrow> is_float32 x"
  by (auto simp: subpixel_def is_float32_def intro!: less_powi_128)

lemma fp_mul_float32: "is_float32 (fp_mul round32 a b)"
  by (cases a; cases b) (simp_all add: is_float32_round32 Let_def is_float32_def [of NaN]
      is_float32_def [of PosInf] is_float32_def [of NegInf])


text \<open> A client can make its next movement undefined: it may set any sensitivity above 0.1, and
  with a sensitivity of 2 to the 100 a move of one pixel is converted to \<open>int\<close> out of range.\<close>

theorem unbounded_sensitivity_overflows:
  "ya_mouse_filter_process
     (Some (ya_mouse_filter_set_pointer_scale (the (ya_mouse_filter_create True)) (Fin (2 ^ 100)))) 1 0 128
   = UB"
  by code_simp

theorem quantize_exact_witness:
  "\<exists>f. of_int (sint (2 :: i32)) + f = (5 / 2 :: rat) \<and> \<bar>f\<bar> < 1"
proof -
  have q: "quantize (Fin (5 / 2)) = Defined (2, Fin (1 / 2))" by code_simp
  have "representable 24 (-149) (5 / 2)"
    by (rule representableI [of _ 5 "-1"]) (simp_all add: power_int_minus)
  then have "is_float32 (Fin (5 / 2))" by (simp add: is_float32_def)
  from quantize_exact [OF this q] show ?thesis by auto
qed

theorem v2_gain_bounds_witness: "\<exists>g. v2_gain (Fin 10) = Fin g \<and> 1 \<le> g \<and> g \<le> 3"
proof -
  have "v2_gain (Fin 10) = Fin (case v2_gain (Fin 10) of Fin g \<Rightarrow> g)" by code_simp
  from v2_gain_bounds [OF this] this show ?thesis by metis
qed

definition fresh_filter :: ya_mouse_filter where
  "fresh_filter = the (ya_mouse_filter_create True)"


end
