(* ===== verification/MPackWriter.thy ===== *)
theory MPackWriter
  imports FloatC
begin

text \<open>
  The writing half of the MessagePack library under \<open>mpack/\<close>, as far as the server uses it:
  the encoders of \<open>mpack.c\<close> and the write functions over them.

  A writer holds the bytes written so far.  \<open>wcap\<close> is the size of a fixed buffer
  (\<open>mpack_writer_init\<close>), or \<open>None\<close> for a growable one (\<open>mpack_writer_init_growable\<close>,
  whose flush function doubles the buffer until the data fit; its allocations succeed here).
  The builder and the write tracking of debug builds are not part of the release build.
\<close>

datatype mpack_error =
    mpack_ok | mpack_error_io | mpack_error_invalid | mpack_error_unsupported | mpack_error_type
  | mpack_error_too_big | mpack_error_memory | mpack_error_bug | mpack_error_data | mpack_error_eof

section \<open>Network byte order\<close>

definition mpack_store_u16 :: "u16 \<Rightarrow> u8 list" where
  "mpack_store_u16 val = [ucast (drop_bit 8 val AND 0xFF), ucast (val AND 0xFF)]"

definition mpack_store_u32 :: "u32 \<Rightarrow> u8 list" where
  "mpack_store_u32 val =
     [ucast (drop_bit 24 val AND 0xFF), ucast (drop_bit 16 val AND 0xFF),
      ucast (drop_bit 8 val AND 0xFF), ucast (val AND 0xFF)]"

definition mpack_store_u64 :: "u64 \<Rightarrow> u8 list" where
  "mpack_store_u64 val =
     [ucast (drop_bit 56 val AND 0xFF), ucast (drop_bit 48 val AND 0xFF),
      ucast (drop_bit 40 val AND 0xFF), ucast (drop_bit 32 val AND 0xFF),
      ucast (drop_bit 24 val AND 0xFF), ucast (drop_bit 16 val AND 0xFF),
      ucast (drop_bit 8 val AND 0xFF), ucast (val AND 0xFF)]"

section \<open>The encoders\<close>

definition mpack_encode_fixuint :: "u8 \<Rightarrow> u8 list" where
  "mpack_encode_fixuint value = [value]"

definition mpack_encode_u8 :: "u8 \<Rightarrow> u8 list" where
  "mpack_encode_u8 value = [0xcc, value]"

definition mpack_encode_u16 :: "u16 \<Rightarrow> u8 list" where
  "mpack_encode_u16 value = 0xcd # mpack_store_u16 value"

definition mpack_encode_u32 :: "u32 \<Rightarrow> u8 list" where
  "mpack_encode_u32 value = 0xce # mpack_store_u32 value"

definition mpack_encode_u64 :: "u64 \<Rightarrow> u8 list" where
  "mpack_encode_u64 value = 0xcf # mpack_store_u64 value"

definition mpack_encode_fixint :: "u8 \<Rightarrow> u8 list" where
  "mpack_encode_fixint value = [value]"

definition mpack_encode_i8 :: "u8 \<Rightarrow> u8 list" where
  "mpack_encode_i8 value = [0xd0, value]"

definition mpack_encode_i16 :: "u16 \<Rightarrow> u8 list" where
  "mpack_encode_i16 value = 0xd1 # mpack_store_u16 value"

definition mpack_encode_i32 :: "i32 \<Rightarrow> u8 list" where
  "mpack_encode_i32 value = 0xd2 # mpack_store_u32 value"

text \<open>A float is stored as its 32 bits.\<close>

definition mpack_encode_float :: "u32 \<Rightarrow> u8 list" where
  "mpack_encode_float bits = 0xca # mpack_store_u32 bits"

definition mpack_encode_fixarray :: "u8 \<Rightarrow> u8 list" where
  "mpack_encode_fixarray count = [0x90 OR count]"

definition mpack_encode_array16 :: "u16 \<Rightarrow> u8 list" where
  "mpack_encode_array16 count = 0xdc # mpack_store_u16 count"

definition mpack_encode_array32 :: "u32 \<Rightarrow> u8 list" where
  "mpack_encode_array32 count = 0xdd # mpack_store_u32 count"

definition mpack_encode_fixmap :: "u8 \<Rightarrow> u8 list" where
  "mpack_encode_fixmap count = [0x80 OR count]"

definition mpack_encode_map16 :: "u16 \<Rightarrow> u8 list" where
  "mpack_encode_map16 count = 0xde # mpack_store_u16 count"

definition mpack_encode_map32 :: "u32 \<Rightarrow> u8 list" where
  "mpack_encode_map32 count = 0xdf # mpack_store_u32 count"

definition mpack_encode_fixstr :: "u8 \<Rightarrow> u8 list" where
  "mpack_encode_fixstr count = [0xa0 OR count]"

definition mpack_encode_str8 :: "u8 \<Rightarrow> u8 list" where
  "mpack_encode_str8 count = [0xd9, count]"

definition mpack_encode_str16 :: "u16 \<Rightarrow> u8 list" where
  "mpack_encode_str16 count = 0xda # mpack_store_u16 count"

definition mpack_encode_str32 :: "u32 \<Rightarrow> u8 list" where
  "mpack_encode_str32 count = 0xdb # mpack_store_u32 count"

section \<open>Writers\<close>

record mpack_writer =
  wbuf :: "u8 list"
  wcap :: "nat option"
  werror :: mpack_error

definition mpack_writer_init :: "nat \<Rightarrow> mpack_writer" where
  "mpack_writer_init sz = \<lparr>wbuf = [], wcap = Some sz, werror = mpack_ok\<rparr>"

definition mpack_writer_init_growable :: mpack_writer where
  "mpack_writer_init_growable = \<lparr>wbuf = [], wcap = None, werror = mpack_ok\<rparr>"

definition mpack_writer_flag_error :: "mpack_writer \<Rightarrow> mpack_error \<Rightarrow> mpack_writer" where
  "mpack_writer_flag_error w e = (if werror w = mpack_ok then w\<lparr>werror := e\<rparr> else w)"

definition mpack_has_room :: "mpack_writer \<Rightarrow> nat \<Rightarrow> bool" where
  "mpack_has_room w n = (case wcap w of None \<Rightarrow> True | Some c \<Rightarrow> n \<le> c - length (wbuf w))"

text \<open>
  \<open>MPACK_WRITE_ENCODED\<close> with \<open>mpack_writer_ensure\<close>, and \<open>mpack_write_native\<close>: the bytes are
  appended when they fit; otherwise a writer without a flush function flags an error.
\<close>

definition mpack_write_native :: "mpack_writer \<Rightarrow> u8 list \<Rightarrow> mpack_writer" where
  "mpack_write_native w bs =
     (if mpack_has_room w (length bs) then w\<lparr>wbuf := wbuf w @ bs\<rparr>
      else mpack_writer_flag_error w mpack_error_too_big)"

definition mpack_write_bool :: "mpack_writer \<Rightarrow> bool \<Rightarrow> mpack_writer" where
  "mpack_write_bool w value = mpack_write_native w [0xc2 OR (if value then 1 else 0)]"

definition mpack_write_u32 :: "mpack_writer \<Rightarrow> u32 \<Rightarrow> mpack_writer" where
  "mpack_write_u32 w value =
     (if value \<le> 127 then mpack_write_native w (mpack_encode_fixuint (ucast value))
      else if value \<le> 0xFF then mpack_write_native w (mpack_encode_u8 (ucast value))
      else if value \<le> 0xFFFF then mpack_write_native w (mpack_encode_u16 (ucast value))
      else mpack_write_native w (mpack_encode_u32 value))"

definition mpack_write_u64 :: "mpack_writer \<Rightarrow> u64 \<Rightarrow> mpack_writer" where
  "mpack_write_u64 w value =
     (if value \<le> 127 then mpack_write_native w (mpack_encode_fixuint (ucast value))
      else if value \<le> 0xFF then mpack_write_native w (mpack_encode_u8 (ucast value))
      else if value \<le> 0xFFFF then mpack_write_native w (mpack_encode_u16 (ucast value))
      else if value \<le> 0xFFFFFFFF then mpack_write_native w (mpack_encode_u32 (ucast value))
      else mpack_write_native w (mpack_encode_u64 value))"

definition mpack_write_i32 :: "mpack_writer \<Rightarrow> i32 \<Rightarrow> mpack_writer" where
  "mpack_write_i32 w value =
     (if - 32 \<le> sint value then
        (if sint value \<le> 127 then mpack_write_native w (mpack_encode_fixint (ucast value))
         else if sint value \<le> 0xFF then mpack_write_native w (mpack_encode_u8 (ucast value))
         else if sint value \<le> 0xFFFF then mpack_write_native w (mpack_encode_u16 (ucast value))
         else mpack_write_native w (mpack_encode_u32 value))
      else if - (2 ^ 7) \<le> sint value then mpack_write_native w (mpack_encode_i8 (ucast value))
      else if - (2 ^ 15) \<le> sint value then mpack_write_native w (mpack_encode_i16 (ucast value))
      else mpack_write_native w (mpack_encode_i32 value))"

definition mpack_write_float :: "mpack_writer \<Rightarrow> u32 \<Rightarrow> mpack_writer" where
  "mpack_write_float w bits = mpack_write_native w (mpack_encode_float bits)"

definition mpack_write_array_notrack :: "mpack_writer \<Rightarrow> u32 \<Rightarrow> mpack_writer" where
  "mpack_write_array_notrack w count =
     (if count \<le> 15 then mpack_write_native w (mpack_encode_fixarray (ucast count))
      else if count \<le> 0xFFFF then mpack_write_native w (mpack_encode_array16 (ucast count))
      else mpack_write_native w (mpack_encode_array32 count))"

definition mpack_write_map_notrack :: "mpack_writer \<Rightarrow> u32 \<Rightarrow> mpack_writer" where
  "mpack_write_map_notrack w count =
     (if count \<le> 15 then mpack_write_native w (mpack_encode_fixmap (ucast count))
      else if count \<le> 0xFFFF then mpack_write_native w (mpack_encode_map16 (ucast count))
      else mpack_write_native w (mpack_encode_map32 count))"

definition mpack_start_array :: "mpack_writer \<Rightarrow> u32 \<Rightarrow> mpack_writer" where
  "mpack_start_array w count = mpack_write_array_notrack w count"

definition mpack_start_map :: "mpack_writer \<Rightarrow> u32 \<Rightarrow> mpack_writer" where
  "mpack_start_map w count = mpack_write_map_notrack w count"

text \<open>\<open>data\<close> has \<open>count\<close> bytes; a short string is written in one piece or not at all.\<close>

definition mpack_write_str :: "mpack_writer \<Rightarrow> u8 list \<Rightarrow> mpack_writer" where
  "mpack_write_str w data =
     (let count = word_of_nat (length data) :: u32 in
      if count \<le> 31 then mpack_write_native w (mpack_encode_fixstr (ucast count) @ data)
      else if count \<le> 0xFF then
        (if mpack_has_room w (length data + 2)
         then mpack_write_native w (mpack_encode_str8 (ucast count) @ data)
         else mpack_write_native (mpack_write_native w (mpack_encode_str8 (ucast count))) data)
      else if count \<le> 0xFFFF
      then mpack_write_native (mpack_write_native w (mpack_encode_str16 (ucast count))) data
      else mpack_write_native (mpack_write_native w (mpack_encode_str32 count)) data)"

text \<open>A C string ends at its first NUL; a literal or a \<open>char\<close> array is given by its characters.\<close>

definition bytes_of_string :: "string \<Rightarrow> u8 list" where
  "bytes_of_string s = map of_char s"

definition cstr :: "u8 list \<Rightarrow> u8 list" where
  "cstr bs = takeWhile (\<lambda>b. b \<noteq> 0) bs"

definition mpack_write_cstr :: "mpack_writer \<Rightarrow> u8 list \<Rightarrow> mpack_writer" where
  "mpack_write_cstr w bs =
     (let data = cstr bs in
      mpack_write_str (if length data > 0xFFFFFFFF then mpack_writer_flag_error w mpack_error_invalid
                       else w) data)"

section \<open>Growable writers append\<close>

lemma mpack_write_native_growable [wire_simps]:
  "wcap w = None \<Longrightarrow> mpack_write_native w bs = w\<lparr>wbuf := wbuf w @ bs\<rparr>"
  by (simp add: mpack_write_native_def mpack_has_room_def)

text \<open>The bytes a write puts into a growable writer.\<close>

definition u32_bytes :: "u32 \<Rightarrow> u8 list" where
  "u32_bytes v = wbuf (mpack_write_u32 mpack_writer_init_growable v)"

definition i32_bytes :: "i32 \<Rightarrow> u8 list" where
  "i32_bytes v = wbuf (mpack_write_i32 mpack_writer_init_growable v)"

definition str_bytes :: "u8 list \<Rightarrow> u8 list" where
  "str_bytes s = wbuf (mpack_write_str mpack_writer_init_growable s)"

definition array_bytes :: "u32 \<Rightarrow> u8 list" where
  "array_bytes n = wbuf (mpack_start_array mpack_writer_init_growable n)"

lemma growable_writes [wire_simps]:
  assumes "wcap w = None"
  shows "mpack_write_u32 w v = w\<lparr>wbuf := wbuf w @ u32_bytes v\<rparr>"
    and "mpack_write_i32 w i = w\<lparr>wbuf := wbuf w @ i32_bytes i\<rparr>"
    and "mpack_write_str w s = w\<lparr>wbuf := wbuf w @ str_bytes s\<rparr>"
    and "mpack_start_array w n = w\<lparr>wbuf := wbuf w @ array_bytes n\<rparr>"
  using assms
  by (simp_all add: u32_bytes_def i32_bytes_def str_bytes_def array_bytes_def mpack_write_u32_def
      mpack_write_i32_def mpack_write_str_def mpack_start_array_def mpack_write_array_notrack_def mpack_write_native_def
      mpack_has_room_def mpack_writer_init_growable_def Let_def)

lemma mpack_writer_init_growable_simps [simp]:
  "wbuf mpack_writer_init_growable = []"
  "wcap mpack_writer_init_growable = None"
  "werror mpack_writer_init_growable = mpack_ok"
  by (simp_all add: mpack_writer_init_growable_def)

section \<open>Fixed buffers are never overrun\<close>

definition writer_inv :: "mpack_writer \<Rightarrow> bool" where
  "writer_inv w \<longleftrightarrow> (\<forall>c. wcap w = Some c \<longrightarrow> length (wbuf w) \<le> c)"

lemma writer_inv_init [simp]: "writer_inv (mpack_writer_init sz)"
  by (simp add: writer_inv_def mpack_writer_init_def)

lemma writer_inv_flag_error [inv_intros]: "writer_inv w \<Longrightarrow> writer_inv (mpack_writer_flag_error w e)"
  by (simp add: writer_inv_def mpack_writer_flag_error_def)

lemma writer_inv_native [inv_intros]: "writer_inv w \<Longrightarrow> writer_inv (mpack_write_native w bs)"
  by (auto simp: mpack_write_native_def writer_inv_def mpack_has_room_def mpack_writer_flag_error_def)

lemma writer_inv_writes [inv_intros]:
  assumes "writer_inv w"
  shows "writer_inv (mpack_write_u32 w v)" and "writer_inv (mpack_write_u64 w l)"
    and "writer_inv (mpack_write_bool w b)" and "writer_inv (mpack_write_str w s)"
    and "writer_inv (mpack_write_cstr w c)" and "writer_inv (mpack_start_map w n)"
    and "writer_inv (mpack_start_array w n)"
  using assms
  by (auto simp: mpack_write_u32_def mpack_write_u64_def mpack_write_bool_def mpack_write_str_def
      mpack_write_cstr_def mpack_start_map_def mpack_write_map_notrack_def mpack_start_array_def mpack_write_array_notrack_def Let_def intro!: inv_intros)

end
