(* ===== verification/MPackGrow.thy ===== *)
theory MPackGrow
  imports MPackWriter
begin

text \<open>
  The growable writer of \<open>mpack.c\<close> as it runs: a heap block, a position in it, and a flush
  function that doubles the block.  \<open>MPackWriter\<close> describes such a writer by the bytes written to
  it (\<open>wcap = None\<close>); here the block, its size, every allocation and the result that
  \<open>mpack_writer_destroy\<close> hands over are explicit, allocations may fail, and every copy is
  checked against the block.  The theorems say that the two agree: what the destroyed writer
  hands over is exactly what was written, or nothing.
\<close>

section \<open>The heap\<close>

text \<open>
  \<open>grants h k n\<close> says whether the \<open>k\<close>-th allocation, of \<open>n\<close> bytes, succeeds; \<open>fresh h k i\<close> is what
  its \<open>i\<close>-th byte holds before it is written.  \<open>realloc\<close> keeps the bytes of the old block that
  fit into the new one.
\<close>

record c_heap =
  grants :: "nat \<Rightarrow> u64 \<Rightarrow> bool"
  fresh :: "nat \<Rightarrow> nat \<Rightarrow> u8"

definition mpack_realloc :: "c_heap \<Rightarrow> nat \<Rightarrow> u8 list \<Rightarrow> u64 \<Rightarrow> u8 list option" where
  "mpack_realloc h k old n =
     (if grants h k n
      then Some (take (unat n) old @ map (fresh h k) [length old ..< unat n]) else None)"

lemma mpack_realloc_block:
  assumes "mpack_realloc h k old n = Some b"
  shows "length b = unat n" and "u \<le> length old \<Longrightarrow> u \<le> unat n \<Longrightarrow> take u b = take u old"
  using assms by (auto simp: mpack_realloc_def min_def split: if_splits)

section \<open>Growable writers\<close>

text \<open>
  \<open>gblock\<close> is the block at \<open>writer->buffer\<close>, \<open>None\<close> for a null pointer; \<open>end\<close> is its end.
  \<open>gflush\<close> and \<open>gteardown\<close> say whether the two callbacks are set, \<open>gdata\<close> and \<open>gcount\<close> are the
  caller's \<open>target_data\<close> and \<open>target_size\<close>, and \<open>gcalls\<close> counts the allocations.
\<close>

record growable =
  gblock :: "u8 list option"
  gposition :: nat
  gerror :: mpack_error
  gflush :: bool
  gteardown :: bool
  gdata :: "u8 list option"
  gcount :: u64
  gcalls :: nat

definition gbytes :: "growable \<Rightarrow> u8 list" where
  "gbytes w = (case gblock w of None \<Rightarrow> [] | Some b \<Rightarrow> b)"

definition mpack_writer_buffer_used :: "growable \<Rightarrow> nat" where
  "mpack_writer_buffer_used w = gposition w"

definition mpack_writer_buffer_size :: "growable \<Rightarrow> nat" where
  "mpack_writer_buffer_size w = length (gbytes w)"

definition mpack_writer_buffer_left :: "growable \<Rightarrow> nat" where
  "mpack_writer_buffer_left w = mpack_writer_buffer_size w - gposition w"

definition growable_flag_error :: "growable \<Rightarrow> mpack_error \<Rightarrow> growable" where
  "growable_flag_error w e = (if gerror w = mpack_ok then w\<lparr>gerror := e\<rparr> else w)"

text \<open>\<open>mpack_memcpy(writer->position, bs, n)\<close> and the step over it.\<close>

definition put_bytes :: "u8 list \<Rightarrow> growable \<Rightarrow> growable run" where
  "put_bytes bs w =
     (if bs = [] then returns w
      else if gposition w + length bs \<le> mpack_writer_buffer_size w
      then returns (w\<lparr>gblock := Some (take (gposition w) (gbytes w) @ bs
                                     @ drop (gposition w + length bs) (gbytes w)),
                      gposition := gposition w + length bs\<rparr>)
      else Some UB)"

definition mpack_growable_init :: "c_heap \<Rightarrow> growable" where
  "mpack_growable_init h =
     (case mpack_realloc h 0 [] 4096 of
        None \<Rightarrow> \<lparr>gblock = None, gposition = 0, gerror = mpack_error_memory, gflush = False,
                 gteardown = False, gdata = None, gcount = 0, gcalls = 1\<rparr>
      | Some b \<Rightarrow> \<lparr>gblock = Some b, gposition = 0, gerror = mpack_ok, gflush = True,
                   gteardown = True, gdata = None, gcount = 0, gcalls = 1\<rparr>)"

section \<open>Flushing\<close>

text \<open>The loop that doubles the size.  The sizes wrap around, and then it does not end.\<close>

partial_function (option) grow_size :: "u64 \<Rightarrow> u64 \<Rightarrow> u64 option" where
  "grow_size need n = (if n < need then grow_size need (n * 2) else Some n)"

text \<open>The second half of \<open>mpack_growable_writer_flush\<close>: growing the block and appending.\<close>

definition grow_block :: "c_heap \<Rightarrow> u8 list \<Rightarrow> growable \<Rightarrow> growable run" where
  "grow_block h bs w =
     (let used = mpack_writer_buffer_used w; sz = mpack_writer_buffer_size w in
      case grow_size (of_nat used + of_nat (length bs)) (of_nat sz * 2) of
        None \<Rightarrow> None
      | Some new_size \<Rightarrow>
          (case mpack_realloc h (gcalls w) (gbytes w) new_size of
             None \<Rightarrow> returns (growable_flag_error (w\<lparr>gcalls := gcalls w + 1\<rparr>) mpack_error_memory)
           | Some b \<Rightarrow> put_bytes bs (w\<lparr>gblock := Some b, gposition := used, gcalls := gcalls w + 1\<rparr>)))"

text \<open>What a flush function is called with: the writer's own buffer and a count, or other bytes.\<close>

datatype flush_data = OwnBuffer nat | Extra "u8 list"

definition mpack_growable_writer_flush :: "c_heap \<Rightarrow> flush_data \<Rightarrow> growable \<Rightarrow> growable run" where
  "mpack_growable_writer_flush h d w =
     (case d of
        OwnBuffer count \<Rightarrow>
          if mpack_writer_buffer_used w = count then returns w
          else grow_block h [] (w\<lparr>gposition := count\<rparr>)
      | Extra bs \<Rightarrow> grow_block h bs w)"

definition mpack_writer_flush_unchecked :: "c_heap \<Rightarrow> growable \<Rightarrow> growable run" where
  "mpack_writer_flush_unchecked h w =
     mpack_growable_writer_flush h (OwnBuffer (mpack_writer_buffer_used w)) (w\<lparr>gposition := 0\<rparr>)"

definition mpack_writer_ensure :: "c_heap \<Rightarrow> nat \<Rightarrow> growable \<Rightarrow> (growable \<times> bool) run" where
  "mpack_writer_ensure h count w =
     (if gerror w \<noteq> mpack_ok then returns (w, False)
      else if \<not> gflush w then returns (growable_flag_error w mpack_error_too_big, False)
      else run_bind (mpack_writer_flush_unchecked h w) (\<lambda>w.
        if gerror w \<noteq> mpack_ok then returns (w, False)
        else if count \<le> mpack_writer_buffer_left w then returns (w, True)
        else returns (growable_flag_error w mpack_error_io, False)))"

section \<open>Writing\<close>

definition growable_write_encoded :: "c_heap \<Rightarrow> u8 list \<Rightarrow> growable \<Rightarrow> growable run" where
  "growable_write_encoded h bs w =
     (if length bs \<le> mpack_writer_buffer_left w then put_bytes bs w
      else run_bind (mpack_writer_ensure h (length bs) w)
             (\<lambda>(w, fits). if fits then put_bytes bs w else returns w))"

definition mpack_write_native_straddle :: "c_heap \<Rightarrow> u8 list \<Rightarrow> growable \<Rightarrow> growable run" where
  "mpack_write_native_straddle h bs w =
     (if gerror w \<noteq> mpack_ok then returns w
      else if \<not> gflush w then returns (growable_flag_error w mpack_error_too_big)
      else run_bind (mpack_writer_flush_unchecked h w) (\<lambda>w.
        if gerror w \<noteq> mpack_ok then returns w
        else if mpack_writer_buffer_left w < length bs
        then mpack_growable_writer_flush h (Extra bs) w
        else put_bytes bs w))"

definition growable_write_native :: "c_heap \<Rightarrow> u8 list \<Rightarrow> growable \<Rightarrow> growable run" where
  "growable_write_native h bs w =
     (if mpack_writer_buffer_left w < length bs then mpack_write_native_straddle h bs w
      else put_bytes bs w)"

text \<open>A string of 32 to 255 bytes goes in as one piece when it fits; a longer one in two.\<close>

definition growable_write_str :: "c_heap \<Rightarrow> u8 list \<Rightarrow> growable \<Rightarrow> growable run" where
  "growable_write_str h data w =
     (let count = word_of_nat (length data) :: u32 in
      if count \<le> 31 then growable_write_encoded h (mpack_encode_fixstr (ucast count) @ data) w
      else if count \<le> 0xFF then
        (if length data + 2 \<le> mpack_writer_buffer_left w
         then put_bytes (mpack_encode_str8 (ucast count) @ data) w
         else run_bind (growable_write_encoded h (mpack_encode_str8 (ucast count)) w)
                (growable_write_native h data))
      else if count \<le> 0xFFFF
      then run_bind (growable_write_encoded h (mpack_encode_str16 (ucast count)) w)
             (growable_write_native h data)
      else run_bind (growable_write_encoded h (mpack_encode_str32 count) w)
             (growable_write_native h data))"

section \<open>Destroying the writer\<close>

text \<open>A freed block is \<open>None\<close>.  The shrunken block has at least one byte.\<close>

definition mpack_growable_writer_teardown :: "c_heap \<Rightarrow> growable \<Rightarrow> growable" where
  "mpack_growable_writer_teardown h w =
     (if gerror w = mpack_ok then
        (let used = mpack_writer_buffer_used w in
         if used < mpack_writer_buffer_size w div 2 then
           (case mpack_realloc h (gcalls w) (gbytes w) (of_nat (if used \<noteq> 0 then used else 1)) of
              None \<Rightarrow> growable_flag_error (w\<lparr>gblock := None, gcalls := gcalls w + 1\<rparr>) mpack_error_memory
            | Some b \<Rightarrow> w\<lparr>gdata := Some b, gcount := of_nat used, gblock := None,
                          gcalls := gcalls w + 1\<rparr>)
         else w\<lparr>gdata := gblock w, gcount := of_nat used, gblock := None\<rparr>)
      else w\<lparr>gblock := None\<rparr>)"

definition mpack_writer_destroy :: "c_heap \<Rightarrow> growable \<Rightarrow> (growable \<times> mpack_error) run" where
  "mpack_writer_destroy h w =
     run_bind
       (if gerror w = mpack_ok \<and> mpack_writer_buffer_used w \<noteq> 0 \<and> gflush w
        then run_bind (mpack_growable_writer_flush h (OwnBuffer (mpack_writer_buffer_used w)) w)
               (\<lambda>w. returns (w\<lparr>gflush := False\<rparr>))
        else returns w)
       (\<lambda>w. let w = (if gteardown w then (mpack_growable_writer_teardown h w)\<lparr>gteardown := False\<rparr>
                     else w)
            in returns (w, gerror w))"

section \<open>The doubling loop\<close>

lemma unat_double: assumes "unat (n :: u64) < 2 ^ 63" shows "unat (n * 2) = unat n * 2"
  using assms by (simp add: unat_word_ariths)

lemma grow_size_enough:
  assumes "0 < unat n" and "unat need \<le> 2 ^ 63"
  shows "\<exists>m. grow_size need n = Some m \<and> unat need \<le> unat m \<and> unat n \<le> unat m
    \<and> (m = n \<or> unat m < 2 * unat need)"
  using assms(1)
proof (induction "unat need - unat n" arbitrary: n rule: less_induct)
  case less
  show ?case
  proof (cases "n < need")
    case True
    then have small: "unat n < unat need" by (simp add: word_less_nat_alt)
    have d: "unat (n * 2) = unat n * 2" using small assms(2) by (intro unat_double) simp
    have "unat need - unat (n * 2) < unat need - unat n" and "0 < unat (n * 2)"
      using small less(2) d by simp_all
    from less(1) [OF this] obtain m where m: "grow_size need (n * 2) = Some m"
        "unat need \<le> unat m" "unat (n * 2) \<le> unat m" "m = n * 2 \<or> unat m < 2 * unat need"
      by blast
    show ?thesis using m d small True by (subst grow_size.simps) auto
  next
    case False
    then show ?thesis by (subst grow_size.simps) (simp add: word_less_nat_alt)
  qed
qed


text \<open>
  A request over \<open>2 ^ 63\<close> bytes is never met by doubling a power of two: the size wraps around
  to 0 and stays there.
\<close>

definition doubled :: "u64 \<Rightarrow> bool" where
  "doubled n \<longleftrightarrow> n = 0 \<or> (\<exists>j < 64. n = 2 ^ j)"

lemma doubled_twice: assumes "doubled n" shows "doubled (n * 2)"
proof (cases "n = 0")
  case False
  then obtain j where j: "n = 2 ^ j" "j < 64" using assms by (auto simp: doubled_def)
  have e: "n * 2 = 2 ^ Suc j" by (simp add: j(1))
  show ?thesis
  proof (cases "Suc j < 64")
    case False
    then have "Suc j = 64" using j(2) by simp
    then have "n * 2 = 0" unfolding e by simp
    then show ?thesis by (simp add: doubled_def)
  next
    case True
    then show ?thesis unfolding e doubled_def by blast
  qed
qed (simp add: doubled_def)

lemma doubled_bound: assumes "doubled n" shows "unat n \<le> 2 ^ 63"
proof (cases "n = 0")
  case False
  then obtain j where j: "n = 2 ^ j" "j < 64" using assms by (auto simp: doubled_def)
  have "(2 :: nat) ^ j < 2 ^ 64" using j(2) by (intro power_strict_increasing) simp_all
  then have "unat (word_of_nat (2 ^ j) :: u64) = 2 ^ j" by (simp only: unat_of_nat) simp
  moreover have "(word_of_nat (2 ^ j) :: u64) = 2 ^ j" by simp
  ultimately have "unat n = 2 ^ j" unfolding j(1) by (simp only:)
  also have "(2 :: nat) ^ j \<le> 2 ^ 63" using j(2) by (intro power_increasing) simp_all
  finally show ?thesis .
qed simp

lemma grow_size_result:
  assumes "grow_size need n = Some m" and "doubled n"
  shows "need \<le> m \<and> doubled m"
  using assms
proof (rule grow_size.raw_induct [where P = "\<lambda>need n m. doubled n \<longrightarrow> need \<le> m \<and> doubled m", THEN mp, rotated])
  fix grow and need n m :: u64
  assume ih: "\<And>need n m. grow need n = Some m \<Longrightarrow> doubled n \<longrightarrow> need \<le> m \<and> doubled m"
    and step: "(if n < need then grow need (n * 2) else Some n) = Some m"
  show "doubled n \<longrightarrow> need \<le> m \<and> doubled m"
    using ih [of need "n * 2" m] step doubled_twice [of n] by (auto split: if_splits simp: not_less)
qed

lemma grow_size_diverges:
  assumes "2 ^ 63 < unat need"
  shows "grow_size need 8192 = None"
proof (cases "grow_size need 8192")
  case (Some m)
  have "(8192 :: u64) = 2 ^ 13" by simp
  then have "doubled 8192" unfolding doubled_def by (intro disjI2 exI [of _ 13]) simp
  from grow_size_result [OF Some this] have "unat need \<le> unat m" and "doubled m"
    by (simp_all add: word_le_nat_alt)
  then show ?thesis using doubled_bound [of m] assms by simp
qed

section \<open>Every write appends, or flags a memory error\<close>

definition content :: "growable \<Rightarrow> u8 list" where
  "content w = take (gposition w) (gbytes w)"

text \<open>
  A writer in use: its position is inside the block, which has room for any tag.  A writer that
  got no block is in an error state.
\<close>

definition growable_inv :: "growable \<Rightarrow> bool" where
  "growable_inv w \<longleftrightarrow>
     (case gblock w of
        None \<Rightarrow> gposition w = 0 \<and> gerror w = mpack_error_memory \<and> \<not> gflush w \<and> \<not> gteardown w
      | Some b \<Rightarrow> gposition w \<le> length b \<and> 32 \<le> length b \<and> length b \<le> 2 ^ 62
          \<and> gerror w \<in> {mpack_ok, mpack_error_memory} \<and> gflush w \<and> gteardown w)
     \<and> gdata w = None \<and> gcount w = 0"

definition always_grants :: "c_heap \<Rightarrow> bool" where
  "always_grants h \<longleftrightarrow> (\<forall>k n. grants h k n)"

definition appended :: "c_heap \<Rightarrow> u8 list \<Rightarrow> growable \<Rightarrow> growable \<Rightarrow> bool" where
  "appended h bs w w' \<longleftrightarrow>
     growable_inv w' \<and> length (content w') \<le> length (content w) + length bs
     \<and> (gerror w' = mpack_ok \<longrightarrow> gerror w = mpack_ok \<and> content w' = content w @ bs)
     \<and> (always_grants h \<and> gerror w = mpack_ok \<longrightarrow> gerror w' = mpack_ok)"

lemmas buffer_defs = mpack_writer_buffer_used_def mpack_writer_buffer_size_def
  mpack_writer_buffer_left_def gbytes_def

lemma appended_refl [simp]: "growable_inv w \<Longrightarrow> appended h [] w w"
  by (simp add: appended_def)

lemma appended_failed: "growable_inv w \<Longrightarrow> gerror w \<noteq> mpack_ok \<Longrightarrow> appended h bs w w"
  by (simp add: appended_def)

lemma appended_trans:
  assumes "appended h bs w w'" and "appended h cs w' w''"
  shows "appended h (bs @ cs) w w''"
proof (unfold appended_def, intro conjI)
  show "growable_inv w''" using assms(2) unfolding appended_def by blast
  show "length (content w'') \<le> length (content w) + length (bs @ cs)"
    using assms unfolding appended_def length_append by linarith
  show "gerror w'' = mpack_ok \<longrightarrow> gerror w = mpack_ok \<and> content w'' = content w @ bs @ cs"
    using assms unfolding appended_def by (metis append.assoc)
  show "always_grants h \<and> gerror w = mpack_ok \<longrightarrow> gerror w'' = mpack_ok"
    using assms unfolding appended_def by blast
qed

lemma appended_inv: "appended h bs w w' \<Longrightarrow> growable_inv w'"
  by (simp add: appended_def)

lemma content_length: "growable_inv w \<Longrightarrow> length (content w) = gposition w"
  by (auto simp: growable_inv_def content_def gbytes_def split: option.splits)

lemma put_bytes_appends:
  assumes "growable_inv w" and "length bs \<le> mpack_writer_buffer_left w"
  shows "\<exists>w'. put_bytes bs w = returns w' \<and> appended h bs w w'
    \<and> mpack_writer_buffer_size w' = mpack_writer_buffer_size w"
proof (cases "bs = []")
  case True
  then show ?thesis using assms(1) by (simp add: put_bytes_def)
next
  case False
  then obtain b where b: "gblock w = Some b"
    using assms by (cases "gblock w") (auto simp: buffer_defs)
  then have "gposition w \<le> length b" using assms(1) by (simp add: growable_inv_def)
  then have fits: "gposition w + length bs \<le> length b"
    using b assms(2) by (simp add: buffer_defs)
  define w' where "w' = w\<lparr>gblock := Some (take (gposition w) b @ bs @ drop (gposition w + length bs) b),
    gposition := gposition w + length bs\<rparr>"
  have "put_bytes bs w = returns w'"
    using b fits False by (simp add: w'_def put_bytes_def buffer_defs)
  moreover have "mpack_writer_buffer_size w' = mpack_writer_buffer_size w"
    using b fits by (simp add: w'_def buffer_defs)
  moreover have "growable_inv w'" using assms(1) b fits by (simp add: w'_def growable_inv_def)
  moreover have "content w' = content w @ bs"
    using b fits by (simp add: w'_def content_def gbytes_def)
  moreover have "gerror w' = gerror w" by (simp add: w'_def)
  ultimately show ?thesis by (simp add: appended_def)
qed

lemma grow_block_appends:
  assumes inv: "growable_inv w" and ok: "gerror w = mpack_ok"
    and small: "mpack_writer_buffer_size w \<le> 2 ^ 61" "gposition w + length bs \<le> 2 ^ 61"
  shows "\<exists>w'. grow_block h bs w = returns w' \<and> appended h bs w w'
    \<and> (gerror w' = mpack_ok \<longrightarrow> 2 * mpack_writer_buffer_size w \<le> mpack_writer_buffer_size w'
         \<and> (mpack_writer_buffer_size w' = 2 * mpack_writer_buffer_size w
            \<or> mpack_writer_buffer_size w' < 2 * (gposition w + length bs)))"
proof -
  obtain b where b: "gblock w = Some b" and pos: "gposition w \<le> length b" "32 \<le> length b"
    using inv ok by (cases "gblock w") (auto simp: growable_inv_def)
  have len: "length b \<le> 2 ^ 61" using small(1) b by (simp add: buffer_defs)
  define need :: u64 where "need = of_nat (gposition w) + of_nat (length bs)"
  define n :: u64 where "n = of_nat (length b) * 2"
  have unat_n: "unat n = 2 * length b" using len by (simp add: n_def unat_word_ariths unat_of_nat)
  have unat_need: "unat need = gposition w + length bs"
    using small(2) by (simp add: need_def unat_word_ariths unat_of_nat)
  have "0 < unat n" using pos(2) unat_n by linarith
  moreover have "unat need \<le> 2 ^ 63" using small(2) unat_need by simp
  ultimately obtain m where m: "grow_size need n = Some m" "unat need \<le> unat m" "unat n \<le> unat m"
      "m = n \<or> unat m < 2 * unat need"
    using grow_size_enough [of n need] by blast
  show ?thesis
  proof (cases "mpack_realloc h (gcalls w) b m")
    case None
    let ?w = "w\<lparr>gcalls := gcalls w + 1, gerror := mpack_error_memory\<rparr>"
    have "grow_block h bs w = returns ?w"
      using b m(1) None ok
      by (simp add: grow_block_def buffer_defs need_def [symmetric] n_def [symmetric] growable_flag_error_def)
    moreover have "\<not> always_grants h"
      using None by (auto simp: mpack_realloc_def always_grants_def split: if_splits)
    moreover have "content ?w = content w" by (simp add: content_def gbytes_def)
    ultimately show ?thesis using inv b by (simp add: appended_def growable_inv_def)
  next
    case (Some b')
    let ?v = "w\<lparr>gblock := Some b', gcalls := gcalls w + 1\<rparr>"
    have lb: "length b' = unat m" by (rule mpack_realloc_block(1) [OF Some])
    have up: "unat m \<le> 2 ^ 62"
      using m(4) unat_n unat_need len small(2) by auto
    have v: "growable_inv ?v"
      using inv b lb up pos m(3) unat_n ok by (simp add: growable_inv_def)
    have room: "length bs \<le> mpack_writer_buffer_left ?v"
      using lb m(2) unat_need by (simp add: buffer_defs)
    have same: "content ?v = content w"
      using mpack_realloc_block(2) [OF Some, of "gposition w"] b pos m(3) unat_n
      by (simp add: content_def gbytes_def)
    obtain w' where w': "put_bytes bs ?v = returns w'" "appended h bs ?v w'"
        "mpack_writer_buffer_size w' = mpack_writer_buffer_size ?v"
      using put_bytes_appends [OF v room] by blast
    have "grow_block h bs w = put_bytes bs ?v"
      using b m(1) Some
      by (simp add: grow_block_def buffer_defs need_def [symmetric] n_def [symmetric])
    moreover have "appended h bs w w'" using w'(2) same by (simp add: appended_def)
    moreover have "mpack_writer_buffer_size w' = unat m" using w'(3) lb by (simp add: buffer_defs)
    ultimately show ?thesis
      using w'(1) b m(3,4) unat_n unat_need by (auto simp: buffer_defs)
  qed
qed

lemma appended_failing:
  "appended h [] w w' \<Longrightarrow> gerror w' \<noteq> mpack_ok \<Longrightarrow> appended h bs w w'"
  by (auto simp: appended_def)

lemma inv_ok_block:
  assumes "growable_inv w" and "gerror w = mpack_ok"
  shows "gflush w" and "gposition w \<le> mpack_writer_buffer_size w"
    and "32 \<le> mpack_writer_buffer_size w"
  using assms by (auto simp: growable_inv_def buffer_defs split: option.splits)

lemma flush_unchecked_eq:
  "mpack_writer_flush_unchecked h w = (if gposition w = 0 then returns w else grow_block h [] w)"
  by (simp add: mpack_writer_flush_unchecked_def mpack_growable_writer_flush_def
      mpack_writer_buffer_used_def)

text \<open>
  After a flush in a writer without error: the data are still there, and the block has grown
  unless it was empty.
\<close>

lemma flush_grows:
  assumes inv: "growable_inv w" and ok: "gerror w = mpack_ok"
    and full: "mpack_writer_buffer_left w < n" and small: "gposition w + n \<le> 2 ^ 60"
  shows "\<exists>w'. mpack_writer_flush_unchecked h w = returns w' \<and> appended h [] w w'
    \<and> (gerror w' = mpack_ok \<longrightarrow> gposition w' = gposition w
         \<and> mpack_writer_buffer_size w' \<le> 2 ^ 61
         \<and> (gposition w \<noteq> 0 \<longrightarrow> 2 * mpack_writer_buffer_size w \<le> mpack_writer_buffer_size w'))"
proof -
  have sz: "mpack_writer_buffer_size w \<le> 2 ^ 60"
    using full small inv_ok_block(2) [OF inv ok] unfolding mpack_writer_buffer_left_def by linarith
  show ?thesis
  proof (cases "gposition w = 0")
    case True
    then show ?thesis using inv sz by (simp add: flush_unchecked_eq)
  next
    case False
    have p: "gposition w + length ([] :: u8 list) \<le> 2 ^ 61" using small by simp
    have s61: "mpack_writer_buffer_size w \<le> 2 ^ 61" using sz by simp
    obtain w' where w': "grow_block h [] w = returns w'" "appended h [] w w'"
        "gerror w' = mpack_ok \<longrightarrow> 2 * mpack_writer_buffer_size w \<le> mpack_writer_buffer_size w'
          \<and> (mpack_writer_buffer_size w' = 2 * mpack_writer_buffer_size w
             \<or> mpack_writer_buffer_size w' < 2 * (gposition w + length ([] :: u8 list)))"
      using grow_block_appends [OF inv ok s61 p] by blast
    have "gposition w' = gposition w" if "gerror w' = mpack_ok"
      using w'(2) that content_length [OF inv] content_length [OF appended_inv [OF w'(2)]]
      by (simp add: appended_def)
    moreover have "mpack_writer_buffer_size w' \<le> 2 ^ 61" if "gerror w' = mpack_ok"
      using w'(3) that sz small by auto
    ultimately show ?thesis using w' False by (auto simp: flush_unchecked_eq)
  qed
qed

lemma put_after_flush:
  assumes "appended h [] w w'" and "length bs \<le> mpack_writer_buffer_left w'"
  shows "\<exists>v. put_bytes bs w' = returns v \<and> appended h bs w v"
  using put_bytes_appends [OF appended_inv [OF assms(1)] assms(2)] appended_trans [OF assms(1)]
  by (metis append_Nil)

lemma write_encoded_appends:
  assumes inv: "growable_inv w" and len: "length bs \<le> 32" and small: "gposition w + length bs \<le> 2 ^ 60"
  shows "\<exists>w'. growable_write_encoded h bs w = returns w' \<and> appended h bs w w'"
proof (cases "length bs \<le> mpack_writer_buffer_left w")
  case True
  then show ?thesis using put_bytes_appends [OF inv True] by (auto simp: growable_write_encoded_def)
next
  case False
  show ?thesis
  proof (cases "gerror w = mpack_ok")
    case True
    obtain w' where w': "mpack_writer_flush_unchecked h w = returns w'" "appended h [] w w'"
        "gerror w' = mpack_ok \<longrightarrow> gposition w' = gposition w
         \<and> (gposition w \<noteq> 0 \<longrightarrow> 2 * mpack_writer_buffer_size w \<le> mpack_writer_buffer_size w')"
      using flush_grows [OF inv True, of "length bs" h] False small by (meson not_le)
    show ?thesis
    proof (cases "gerror w' = mpack_ok")
      case ok: True
      have room: "length bs \<le> mpack_writer_buffer_left w'"
        using w'(3) ok False len inv_ok_block [OF inv True]
        unfolding mpack_writer_buffer_left_def by auto
      then have "growable_write_encoded h bs w = put_bytes bs w'"
        using False True inv_ok_block(1) [OF inv True] w'(1) ok
        by (simp add: growable_write_encoded_def mpack_writer_ensure_def)
      then show ?thesis using put_after_flush [OF w'(2) room] by simp
    next
      case err: False
      then have "growable_write_encoded h bs w = returns w'"
        using False True inv_ok_block(1) [OF inv True] w'(1)
        by (simp add: growable_write_encoded_def mpack_writer_ensure_def)
      then show ?thesis using appended_failing [OF w'(2) err] by simp
    qed
  next
    case err: False
    then have "growable_write_encoded h bs w = returns w"
      using False by (simp add: growable_write_encoded_def mpack_writer_ensure_def)
    then show ?thesis using appended_failed [OF inv err] by simp
  qed
qed

lemma write_native_appends:
  assumes inv: "growable_inv w" and small: "gposition w + length bs \<le> 2 ^ 60"
  shows "\<exists>w'. growable_write_native h bs w = returns w' \<and> appended h bs w w'"
proof (cases "length bs \<le> mpack_writer_buffer_left w")
  case True
  then show ?thesis using put_bytes_appends [OF inv True] by (auto simp: growable_write_native_def)
next
  case False
  then have straddle: "growable_write_native h bs w = mpack_write_native_straddle h bs w"
    by (simp add: growable_write_native_def)
  show ?thesis
  proof (cases "gerror w = mpack_ok")
    case True
    obtain w' where w': "mpack_writer_flush_unchecked h w = returns w'" "appended h [] w w'"
        "gerror w' = mpack_ok \<longrightarrow> gposition w' = gposition w \<and> mpack_writer_buffer_size w' \<le> 2 ^ 61"
      using flush_grows [OF inv True, of "length bs" h] False small by (meson not_le)
    have step: "mpack_write_native_straddle h bs w =
        (if gerror w' \<noteq> mpack_ok then returns w'
         else if mpack_writer_buffer_left w' < length bs then grow_block h bs w'
         else put_bytes bs w')"
      using True inv_ok_block(1) [OF inv True] w'(1)
      by (simp add: mpack_write_native_straddle_def mpack_growable_writer_flush_def)
    consider "gerror w' \<noteq> mpack_ok" | "gerror w' = mpack_ok" "mpack_writer_buffer_left w' < length bs"
      | "gerror w' = mpack_ok" "length bs \<le> mpack_writer_buffer_left w'" by linarith
    then show ?thesis
    proof cases
      case 1
      then show ?thesis using straddle step appended_failing [OF w'(2)] by auto
    next
      case 2
      have p: "gposition w' + length bs \<le> 2 ^ 61" using w'(3) 2(1) small by simp
      have z: "mpack_writer_buffer_size w' \<le> 2 ^ 61" using w'(3) 2(1) by simp
      obtain v where "grow_block h bs w' = returns v" "appended h bs w' v"
        using grow_block_appends [OF appended_inv [OF w'(2)] 2(1) z p] by blast
      then show ?thesis using straddle step 2 appended_trans [OF w'(2), of bs v] by auto
    next
      case 3
      then show ?thesis using straddle step put_after_flush [OF w'(2) 3(2)] by auto
    qed
  next
    case err: False
    then have "growable_write_native h bs w = returns w"
      using straddle by (simp add: mpack_write_native_straddle_def)
    then show ?thesis using appended_failed [OF inv err] by simp
  qed
qed

section \<open>The write calls of the server\<close>

definition str_head :: "u8 list \<Rightarrow> u8 list" where
  "str_head s =
     (let count = word_of_nat (length s) :: u32 in
      if count \<le> 31 then mpack_encode_fixstr (ucast count)
      else if count \<le> 0xFF then mpack_encode_str8 (ucast count)
      else if count \<le> 0xFFFF then mpack_encode_str16 (ucast count)
      else mpack_encode_str32 count)"

lemma str_bytes_head: "str_bytes s = str_head s @ s"
  by (simp add: str_bytes_def str_head_def mpack_write_str_def mpack_write_native_def
      mpack_has_room_def Let_def)

lemma str_head_length: "length (str_head s) \<le> 5"
  by (simp add: str_head_def Let_def mpack_encode_fixstr_def mpack_encode_str8_def
      mpack_encode_str16_def mpack_encode_str32_def mpack_store_u16_def mpack_store_u32_def)

lemma growable_write_str_head:
  "growable_write_str h s w =
     (let count = word_of_nat (length s) :: u32 in
      if count \<le> 31 then growable_write_encoded h (str_head s @ s) w
      else if count \<le> 0xFF \<and> length s + 2 \<le> mpack_writer_buffer_left w then put_bytes (str_head s @ s) w
      else run_bind (growable_write_encoded h (str_head s) w) (growable_write_native h s))"
  by (simp add: growable_write_str_def str_head_def Let_def)

lemma write_str_appends:
  assumes inv: "growable_inv w" and len: "length s < 2 ^ 32"
    and small: "gposition w + length (str_bytes s) \<le> 2 ^ 60"
  shows "\<exists>w'. growable_write_str h s w = returns w' \<and> appended h (str_bytes s) w w'"
proof -
  define count :: u32 where "count = word_of_nat (length s)"
  have count: "unat count = length s" using len by (simp add: count_def unat_of_nat)
  have short: "length (str_head s) = 1" if "count \<le> 31"
    using that by (simp add: str_head_def count_def [symmetric] mpack_encode_fixstr_def)
  have medium: "length (str_head s) = 2" if "\<not> count \<le> 31" "count \<le> 0xFF"
    using that by (simp add: str_head_def count_def [symmetric] mpack_encode_str8_def)
  consider "count \<le> 31"
    | "\<not> count \<le> 31" "count \<le> 0xFF" "length s + 2 \<le> mpack_writer_buffer_left w"
    | "\<not> count \<le> 31" "\<not> (count \<le> 0xFF \<and> length s + 2 \<le> mpack_writer_buffer_left w)" by blast
  then show ?thesis
  proof cases
    case 1
    have "length (str_head s @ s) \<le> 32" using 1 short count by (simp add: word_le_nat_alt)
    from write_encoded_appends [OF inv this] small 1 show ?thesis
      by (simp add: str_bytes_head growable_write_str_head count_def [symmetric])
  next
    case 2
    have "length (str_head s @ s) \<le> mpack_writer_buffer_left w" using 2(3) medium [OF 2(1,2)] by simp
    from put_bytes_appends [OF inv this] 2 show ?thesis
      by (auto simp: str_bytes_head growable_write_str_head count_def [symmetric])
  next
    case 3
    have "length (str_head s) \<le> 32" and "gposition w + length (str_head s) \<le> 2 ^ 60"
      using str_head_length [of s] small by (simp_all add: str_bytes_head)
    from write_encoded_appends [OF inv this] obtain w' where
      w': "growable_write_encoded h (str_head s) w = returns w'" "appended h (str_head s) w w'" by blast
    have "gposition w' \<le> gposition w + length (str_head s)"
      using w'(2) content_length [OF inv] content_length [OF appended_inv [OF w'(2)]]
      by (simp add: appended_def)
    then have "gposition w' + length s \<le> 2 ^ 60" using small by (simp add: str_bytes_head)
    from write_native_appends [OF appended_inv [OF w'(2)] this] obtain v where
      v: "growable_write_native h s w' = returns v" "appended h s w' v" by blast
    have "growable_write_str h s w = returns v"
      using 3 w'(1) v(1) unfolding growable_write_str_head count_def [symmetric] by (auto simp: Let_def)
    then show ?thesis using appended_trans [OF w'(2) v(2)] by (simp add: str_bytes_head)
  qed
qed

text \<open>The calls, on the writer of \<open>MPackWriter\<close> and on the growable one.\<close>

datatype write_call =
    Write_bool bool | Write_u32 u32 | Write_u64 u64 | Write_i32 i32 | Write_float u32
  | Start_array u32 | Start_map u32 | Write_str "u8 list"

fun writer_call :: "write_call \<Rightarrow> mpack_writer \<Rightarrow> mpack_writer" where
  "writer_call (Write_bool v) w = mpack_write_bool w v"
| "writer_call (Write_u32 v) w = mpack_write_u32 w v"
| "writer_call (Write_u64 v) w = mpack_write_u64 w v"
| "writer_call (Write_i32 v) w = mpack_write_i32 w v"
| "writer_call (Write_float v) w = mpack_write_float w v"
| "writer_call (Start_array n) w = mpack_start_array w n"
| "writer_call (Start_map n) w = mpack_start_map w n"
| "writer_call (Write_str s) w = mpack_write_str w s"

definition call_bytes :: "write_call \<Rightarrow> u8 list" where
  "call_bytes c = wbuf (writer_call c mpack_writer_init_growable)"

text \<open>Every call but \<open>mpack_write_str\<close> is one use of the macro \<open>MPACK_WRITE_ENCODED\<close>.\<close>

fun growable_call :: "c_heap \<Rightarrow> write_call \<Rightarrow> growable \<Rightarrow> growable run" where
  "growable_call h (Write_str s) w = growable_write_str h s w"
| "growable_call h c w = growable_write_encoded h (call_bytes c) w"

fun valid_call :: "write_call \<Rightarrow> bool" where
  "valid_call (Write_str s) \<longleftrightarrow> length s < 2 ^ 32"
| "valid_call c \<longleftrightarrow> True"

lemmas encode_defs = mpack_encode_fixuint_def mpack_encode_u8_def mpack_encode_u16_def
  mpack_encode_u32_def mpack_encode_u64_def mpack_encode_fixint_def mpack_encode_i8_def
  mpack_encode_i16_def mpack_encode_i32_def mpack_encode_float_def mpack_encode_fixarray_def
  mpack_encode_array16_def mpack_encode_array32_def mpack_encode_fixmap_def mpack_encode_map16_def
  mpack_encode_map32_def mpack_store_u16_def mpack_store_u32_def mpack_store_u64_def

lemmas call_defs = mpack_write_bool_def mpack_write_u32_def mpack_write_u64_def mpack_write_i32_def
  mpack_write_float_def mpack_start_array_def mpack_write_array_notrack_def mpack_start_map_def mpack_write_map_notrack_def

lemma writer_call_appends:
  assumes "wcap w = None"
  shows "writer_call c w = w\<lparr>wbuf := wbuf w @ call_bytes c\<rparr>"
proof (cases c)
  case (Write_str s)
  then show ?thesis using assms growable_writes(3) [OF assms, of s]
    by (simp add: call_bytes_def str_bytes_def)
qed (use assms in \<open>simp_all add: call_bytes_def call_defs mpack_write_native_def mpack_has_room_def\<close>)

lemma call_bytes_length: "(\<forall>s. c \<noteq> Write_str s) \<Longrightarrow> length (call_bytes c) \<le> 9"
  by (cases c) (simp_all add: call_bytes_def call_defs mpack_write_native_def mpack_has_room_def
      encode_defs)

lemma growable_call_appends:
  assumes "growable_inv w" and "valid_call c" and "gposition w + length (call_bytes c) \<le> 2 ^ 60"
  shows "\<exists>w'. growable_call h c w = returns w' \<and> appended h (call_bytes c) w w'"
proof (cases "\<exists>s. c = Write_str s")
  case True
  then obtain s where c: "c = Write_str s" by blast
  have "call_bytes c = str_bytes s" by (simp add: c call_bytes_def str_bytes_def)
  then show ?thesis using write_str_appends [of w s h] assms by (simp add: c)
next
  case False
  have "length (call_bytes c) \<le> 32" using call_bytes_length [of c] False by auto
  from write_encoded_appends [OF assms(1) this assms(3)] show ?thesis
    using False by (cases c) simp_all
qed

section \<open>The contract of a sink of write calls\<close>

text \<open>
  What a caller of the write functions relies on: a call returns, and appends its bytes unless it
  fails, after which the sink stays failed.  A \<open>reliable\<close> sink does not fail.
\<close>

fun run_all :: "('c \<Rightarrow> 's \<Rightarrow> 's run) \<Rightarrow> 'c list \<Rightarrow> 's \<Rightarrow> 's run" where
  "run_all call [] s = returns s"
| "run_all call (c # cs) s = run_bind (call c s) (run_all call cs)"

locale byte_sink =
  fixes call :: "'c \<Rightarrow> 's \<Rightarrow> 's run" and emitted :: "'c \<Rightarrow> u8 list" and valid :: "'c \<Rightarrow> bool"
    and good :: "'s \<Rightarrow> bool" and fine :: "'s \<Rightarrow> bool" and sunk :: "'s \<Rightarrow> u8 list"
    and limit :: nat and reliable :: bool
  assumes call_appends: "good s \<Longrightarrow> valid c \<Longrightarrow> length (sunk s) + length (emitted c) \<le> limit \<Longrightarrow>
    \<exists>s'. call c s = returns s' \<and> good s' \<and> length (sunk s') \<le> length (sunk s) + length (emitted c)
      \<and> (fine s' \<longrightarrow> fine s \<and> sunk s' = sunk s @ emitted c) \<and> (reliable \<and> fine s \<longrightarrow> fine s')"
begin

lemma run_all_appends:
  assumes "good s" and "\<forall>c \<in> set cs. valid c" and "length (sunk s) + length (concat (map emitted cs)) \<le> limit"
  shows "\<exists>s'. run_all call cs s = returns s' \<and> good s'
    \<and> (fine s' \<longrightarrow> sunk s' = sunk s @ concat (map emitted cs)) \<and> (reliable \<and> fine s \<longrightarrow> fine s')
    \<and> (fine s' \<longrightarrow> fine s)"
  using assms
proof (induction cs arbitrary: s)
  case (Cons c cs)
  have "valid c" and "length (sunk s) + length (emitted c) \<le> limit" using Cons.prems by auto
  from call_appends [OF Cons.prems(1) this] obtain t where
    t: "call c s = returns t" "good t" "length (sunk t) \<le> length (sunk s) + length (emitted c)"
      "fine t \<longrightarrow> fine s \<and> sunk t = sunk s @ emitted c" "reliable \<and> fine s \<longrightarrow> fine t" by blast
  have "length (sunk t) + length (concat (map emitted cs)) \<le> limit" using t(3) Cons.prems(3) by simp
  from Cons.IH [OF t(2) _ this] Cons.prems(2) t show ?case by auto
qed simp

end

interpretation block: byte_sink "growable_call h" call_bytes valid_call growable_inv
    "\<lambda>w. gerror w = mpack_ok" content "2 ^ 60" "always_grants h"
proof (unfold_locales, goal_cases)
  case (1 w c)
  then show ?case using growable_call_appends [of w c h] content_length [of w]
    by (auto simp: appended_def)
qed

interpretation bytes: byte_sink "\<lambda>c w. returns (writer_call c w)" call_bytes "\<lambda>c. True"
    "\<lambda>w. wcap w = None" "\<lambda>w. True" wbuf limit True for limit
  by unfold_locales (simp add: writer_call_appends)

lemma run_all_returns: "run_all (\<lambda>c w. returns (f c w)) cs w = returns (fold f cs w)"
  by (induction cs arbitrary: w) simp_all

lemma message_bytes:
  "wbuf (fold writer_call cs mpack_writer_init_growable) = concat (map call_bytes cs)"
  using bytes.run_all_appends [of mpack_writer_init_growable cs "length (concat (map call_bytes cs))"]
  by (simp add: run_all_returns)

section \<open>What a destroyed writer hands over\<close>

lemma growable_init_inv: "growable_inv (mpack_growable_init h)" "content (mpack_growable_init h) = []"
  using mpack_realloc_block(1) [of h 0 "[]" 4096]
  by (auto simp: mpack_growable_init_def growable_inv_def content_def split: option.splits)

lemma growable_init_ok: "always_grants h \<Longrightarrow> gerror (mpack_growable_init h) = mpack_ok"
  by (simp add: mpack_growable_init_def always_grants_def mpack_realloc_def)

lemma teardown_hands_over:
  assumes inv: "growable_inv w" and small: "gposition w \<le> 2 ^ 62"
    and v: "v = mpack_growable_writer_teardown h w" and set: "gteardown w"
  shows "gblock v = None"
    and "gerror v = mpack_ok \<Longrightarrow> gerror w = mpack_ok \<and> unat (gcount v) = gposition w
      \<and> (\<exists>b. gdata v = Some b \<and> take (gposition w) b = content w)"
    and "gerror v \<noteq> mpack_ok \<Longrightarrow> gerror v = mpack_error_memory \<and> gdata v = None \<and> gcount v = 0"
    and "always_grants h \<Longrightarrow> gerror w = mpack_ok \<Longrightarrow> gerror v = mpack_ok"
proof -
  obtain b where b: "gblock w = Some b" "gposition w \<le> length b"
      "gerror w \<in> {mpack_ok, mpack_error_memory}" and none: "gdata w = None" "gcount w = 0"
    using inv set by (cases "gblock w") (auto simp: growable_inv_def)
  have count: "unat (word_of_nat (gposition w) :: u64) = gposition w"
    using small by (simp add: unat_of_nat)
  define n where "n = (if gposition w \<noteq> 0 then gposition w else 1)"
  have unat_n: "unat (word_of_nat n :: u64) = n" using small by (simp add: n_def unat_of_nat)
  have "gposition w \<le> n" by (simp add: n_def)
  then have shrunk: "take (gposition w) b' = content w"
    if "mpack_realloc h (gcalls w) b (word_of_nat n) = Some b'" for b'
    using mpack_realloc_block(2) [OF that, of "gposition w"] b unat_n
    by (simp add: content_def gbytes_def)
  have v': "v = mpack_growable_writer_teardown h w" by (rule v)
  note defs = v' mpack_growable_writer_teardown_def buffer_defs Let_def
    growable_flag_error_def
  show "gblock v = None" by (simp add: defs split: option.split)
  show "gerror v = mpack_ok \<Longrightarrow> gerror w = mpack_ok \<and> unat (gcount v) = gposition w
      \<and> (\<exists>b. gdata v = Some b \<and> take (gposition w) b = content w)"
    using b count shrunk by (auto simp: defs n_def content_def split: if_splits option.splits)
  show "gerror v \<noteq> mpack_ok \<Longrightarrow> gerror v = mpack_error_memory \<and> gdata v = None \<and> gcount v = 0"
    using b none by (auto simp: defs split: if_splits option.splits)
  show "always_grants h \<Longrightarrow> gerror w = mpack_ok \<Longrightarrow> gerror v = mpack_ok"
    using b by (auto simp: defs always_grants_def mpack_realloc_def split: if_splits option.splits)
qed

lemma destroy_returns:
  assumes inv: "growable_inv w" and small: "gposition w \<le> 2 ^ 62"
  shows "\<exists>v. mpack_writer_destroy h w = returns (v, gerror v) \<and> gblock v = None
    \<and> (gerror v = mpack_ok \<longrightarrow> gerror w = mpack_ok \<and> unat (gcount v) = gposition w
        \<and> (\<exists>b. gdata v = Some b \<and> take (gposition w) b = content w))
    \<and> (gerror v \<noteq> mpack_ok \<longrightarrow> gerror v = mpack_error_memory \<and> gdata v = None \<and> gcount v = 0)
    \<and> (always_grants h \<and> gerror w = mpack_ok \<longrightarrow> gerror v = mpack_ok)"
proof -
  define w' where
    "w' = (if gerror w = mpack_ok \<and> gposition w \<noteq> 0 \<and> gflush w then w\<lparr>gflush := False\<rparr> else w)"
  have d: "mpack_writer_destroy h w =
      (let v = (if gteardown w' then (mpack_growable_writer_teardown h w')\<lparr>gteardown := False\<rparr> else w')
       in returns (v, gerror v))"
    by (simp add: mpack_writer_destroy_def w'_def mpack_growable_writer_flush_def
        mpack_writer_buffer_used_def)
  have same: "mpack_growable_writer_teardown h w' =
      (mpack_growable_writer_teardown h w)\<lparr>gflush := gflush w'\<rparr>"
    by (simp add: w'_def mpack_growable_writer_teardown_def buffer_defs growable_flag_error_def
        Let_def split: option.split)
  show ?thesis
  proof (cases "gteardown w")
    case True
    define v where "v = mpack_growable_writer_teardown h w"
    note t = teardown_hands_over [OF inv small v_def True]
    have "mpack_writer_destroy h w =
        returns (v\<lparr>gflush := gflush w', gteardown := False\<rparr>, gerror v)"
      using True unfolding d same v_def [symmetric] by (simp add: w'_def Let_def)
    then show ?thesis using t by (intro exI [of _ "v\<lparr>gflush := gflush w', gteardown := False\<rparr>"]) auto
  next
    case False
    then have none: "gblock w = None" "gerror w = mpack_error_memory" "gdata w = None" "gcount w = 0"
      using inv by (auto simp: growable_inv_def split: option.splits)
    then have "mpack_writer_destroy h w = returns (w, gerror w)"
      using False unfolding d by (simp add: w'_def Let_def)
    then show ?thesis using none by auto
  qed
qed

definition write_message :: "c_heap \<Rightarrow> write_call list \<Rightarrow> (growable \<times> mpack_error) run" where
  "write_message h cs =
     run_bind (run_all (growable_call h) cs (mpack_growable_init h)) (mpack_writer_destroy h)"

text \<open>C5.
  Refinement of the abstract writer by the growable one, allocation failures included: for every
  sequence of write calls and every behaviour of the allocator, creating the writer, making the
  calls and destroying it returns, without a copy outside the block, and leaves no block behind.
  If it reports success, the caller has a block whose first \<open>target_size\<close> bytes are exactly what
  the abstract writer of \<open>MPackWriter\<close> holds after the same calls; otherwise it reports
  \<open>mpack_error_memory\<close> and the caller has nothing, never a part of a message.  With an allocator
  that always grants, it reports success.
\<close>

theorem growable_writer_all_or_nothing:
  assumes "\<forall>c \<in> set cs. valid_call c"
    and "length (wbuf (fold writer_call cs mpack_writer_init_growable)) \<le> 2 ^ 60"
  shows "\<exists>w r. write_message h cs = returns (w, r) \<and> gblock w = None
    \<and> (r = mpack_ok
         \<and> unat (gcount w) = length (wbuf (fold writer_call cs mpack_writer_init_growable))
         \<and> (\<exists>b. gdata w = Some b
                \<and> take (unat (gcount w)) b = wbuf (fold writer_call cs mpack_writer_init_growable))
       \<or> r = mpack_error_memory \<and> gdata w = None \<and> gcount w = 0)
    \<and> (always_grants h \<longrightarrow> r = mpack_ok)"
proof -
  have all: "wbuf (fold writer_call cs mpack_writer_init_growable) = concat (map call_bytes cs)"
    by (rule message_bytes)
  have "length (content (mpack_growable_init h)) + length (concat (map call_bytes cs)) \<le> 2 ^ 60"
    using assms(2) all growable_init_inv(2) [of h] by simp
  from block.run_all_appends [OF growable_init_inv(1) assms(1) this] obtain w where
    w: "run_all (growable_call h) cs (mpack_growable_init h) = returns w" "growable_inv w"
      "gerror w = mpack_ok \<longrightarrow> content w = concat (map call_bytes cs)"
      "always_grants h \<longrightarrow> gerror w = mpack_ok"
    using growable_init_inv(2) [of h] growable_init_ok [of h] by auto
  have "gposition w \<le> 2 ^ 62" using w(2) by (auto simp: growable_inv_def split: option.splits)
  from destroy_returns [OF w(2) this, of h] obtain v where v:
    "mpack_writer_destroy h w = returns (v, gerror v)" "gblock v = None"
    "gerror v = mpack_ok \<longrightarrow> gerror w = mpack_ok \<and> unat (gcount v) = gposition w
      \<and> (\<exists>b. gdata v = Some b \<and> take (gposition w) b = content w)"
    "gerror v \<noteq> mpack_ok \<longrightarrow> gerror v = mpack_error_memory \<and> gdata v = None \<and> gcount v = 0"
    "always_grants h \<and> gerror w = mpack_ok \<longrightarrow> gerror v = mpack_ok" by blast
  have "write_message h cs = returns (v, gerror v)"
    using w(1) v(1) by (simp add: write_message_def)
  moreover have "gposition w = length (concat (map call_bytes cs))" if "gerror w = mpack_ok"
    using content_length [OF w(2)] w(3) that by simp
  ultimately show ?thesis
    using v w(3,4) all by (cases "gerror v = mpack_ok") auto
qed

definition generous :: c_heap where
  "generous = \<lparr>grants = \<lambda>k n. True, fresh = \<lambda>k i. 0\<rparr>"

lemma growable_writer_all_or_nothing_witness:
  "\<exists>w b. write_message generous [Start_array 2, Write_u32 7, Write_str [104, 105]] = returns (w, mpack_ok)
     \<and> gdata w = Some b \<and> take (unat (gcount w)) b = [0x92, 7, 0xa2, 104, 105]"
proof -
  define cs where "cs = [Start_array 2, Write_u32 7, Write_str [104, 105]]"
  have e: "wbuf (fold writer_call cs mpack_writer_init_growable) = [0x92, 7, 0xa2, 104, 105]"
    by (simp add: cs_def call_defs encode_defs mpack_write_native_def mpack_has_room_def
        mpack_write_str_def mpack_encode_fixstr_def)
  have "\<forall>c \<in> set cs. valid_call c" by (simp add: cs_def)
  from growable_writer_all_or_nothing [OF this, of generous] e show ?thesis
    by (auto simp: always_grants_def generous_def cs_def [symmetric])
qed

end
