(* ===== verification/MPackReader.thy ===== *)
theory MPackReader
  imports MPackWriter
begin

text \<open>
  The reading half of the MessagePack library under \<open>mpack/\<close>, as far as the server uses it: a
  reader over bytes in memory (\<open>mpack_reader_init_data\<close>, no fill function), the tag parser and
  the expect functions.  The release build has neither read tracking nor extension types, so
  \<open>mpack_done_array\<close>, \<open>mpack_done_map\<close> and \<open>mpack_done_str\<close> do nothing.

  A reader holds the bytes not yet read and the first error; flagging an error empties it.  The
  lemmas show that each expect function returns what the matching write function wrote and
  leaves the bytes that follow.
\<close>

record mpack_reader =
  rdata :: "u8 list"
  rerror :: mpack_error

definition mpack_reader_init_data :: "u8 list \<Rightarrow> mpack_reader" where
  "mpack_reader_init_data data = \<lparr>rdata = data, rerror = mpack_ok\<rparr>"

definition mpack_reader_flag_error :: "mpack_reader \<Rightarrow> mpack_error \<Rightarrow> mpack_reader" where
  "mpack_reader_flag_error r e =
     (if rerror r = mpack_ok then r\<lparr>rerror := e, rdata := []\<rparr> else r)"

definition mpack_load_u16 :: "u8 list \<Rightarrow> u16" where
  "mpack_load_u16 p = push_bit 8 (ucast (p ! 0)) OR ucast (p ! 1)"

definition mpack_load_u32 :: "u8 list \<Rightarrow> u32" where
  "mpack_load_u32 p =
     push_bit 24 (ucast (p ! 0)) OR push_bit 16 (ucast (p ! 1)) OR push_bit 8 (ucast (p ! 2)) OR
     ucast (p ! 3)"

definition mpack_load_u64 :: "u8 list \<Rightarrow> u64" where
  "mpack_load_u64 p =
     push_bit 56 (ucast (p ! 0)) OR push_bit 48 (ucast (p ! 1)) OR push_bit 40 (ucast (p ! 2)) OR
     push_bit 32 (ucast (p ! 3)) OR push_bit 24 (ucast (p ! 4)) OR push_bit 16 (ucast (p ! 5)) OR
     push_bit 8 (ucast (p ! 6)) OR ucast (p ! 7)"

text \<open>
  \<open>TagInt\<close> carries a 64-bit two's complement number, the float tags their bits.  No message has
  the tag \<open>TagMissing\<close>.
\<close>

datatype mpack_tag =
    TagMissing | TagNil | TagBool bool | TagInt u64 | TagUint u64 | TagFloat u32 | TagDouble u64
  | TagStr u32 | TagBin u32 | TagArray u32 | TagMap u32

text \<open>\<open>mpack_reader_ensure\<close>: with no fill function, missing data are an invalid message.\<close>

definition mpack_reader_ensure :: "mpack_reader \<Rightarrow> nat \<Rightarrow> mpack_reader \<times> bool" where
  "mpack_reader_ensure r count =
     (if count \<le> length (rdata r) then (r, True)
      else (mpack_reader_flag_error r mpack_error_invalid, False))"

text \<open>A tag of \<open>count\<close> bytes, or the error \<open>mpack_reader_ensure\<close> flags; a count of 0 is no tag.\<close>

definition parsed :: "mpack_reader \<Rightarrow> nat \<Rightarrow> mpack_tag \<Rightarrow> mpack_reader \<times> mpack_tag \<times> nat" where
  "parsed r count tag =
     (case mpack_reader_ensure r count of
        (r', ok) \<Rightarrow> if ok then (r', tag, count) else (r', TagNil, 0))"

definition mpack_parse_tag :: "mpack_reader \<Rightarrow> mpack_reader \<times> mpack_tag \<times> nat" where
  "mpack_parse_tag r =
     (case mpack_reader_ensure r 1 of (r1, ok) \<Rightarrow>
      if \<not> ok then (r1, TagNil, 0)
      else
        let type = rdata r ! 0; p = drop 1 (rdata r) in
        if type \<le> 0x7f then (r, TagUint (ucast type), 1)
        else if 0xe0 \<le> type then (r, TagInt (scast type), 1)
        else if type \<le> 0x8f then (r, TagMap (ucast (type AND 0x0f)), 1)
        else if type \<le> 0x9f then (r, TagArray (ucast (type AND 0x0f)), 1)
        else if type \<le> 0xbf then (r, TagStr (ucast (type AND 0x1f)), 1)
        else if type = 0xc0 then (r, TagNil, 1)
        else if type = 0xc2 \<or> type = 0xc3 then (r, TagBool (type AND 1 = 1), 1)
        else if type = 0xc4 then parsed r 2 (TagBin (ucast (p ! 0)))
        else if type = 0xc5 then parsed r 3 (TagBin (ucast (mpack_load_u16 p)))
        else if type = 0xc6 then parsed r 5 (TagBin (mpack_load_u32 p))
        else if type = 0xca then parsed r 5 (TagFloat (mpack_load_u32 p))
        else if type = 0xcb then parsed r 9 (TagDouble (mpack_load_u64 p))
        else if type = 0xcc then parsed r 2 (TagUint (ucast (p ! 0)))
        else if type = 0xcd then parsed r 3 (TagUint (ucast (mpack_load_u16 p)))
        else if type = 0xce then parsed r 5 (TagUint (ucast (mpack_load_u32 p)))
        else if type = 0xcf then parsed r 9 (TagUint (mpack_load_u64 p))
        else if type = 0xd0 then parsed r 2 (TagInt (scast (p ! 0)))
        else if type = 0xd1 then parsed r 3 (TagInt (scast (mpack_load_u16 p)))
        else if type = 0xd2 then parsed r 5 (TagInt (scast (mpack_load_u32 p)))
        else if type = 0xd3 then parsed r 9 (TagInt (mpack_load_u64 p))
        else if type = 0xd9 then parsed r 2 (TagStr (ucast (p ! 0)))
        else if type = 0xda then parsed r 3 (TagStr (ucast (mpack_load_u16 p)))
        else if type = 0xdb then parsed r 5 (TagStr (mpack_load_u32 p))
        else if type = 0xdc then parsed r 3 (TagArray (ucast (mpack_load_u16 p)))
        else if type = 0xdd then parsed r 5 (TagArray (mpack_load_u32 p))
        else if type = 0xde then parsed r 3 (TagMap (ucast (mpack_load_u16 p)))
        else if type = 0xdf then parsed r 5 (TagMap (mpack_load_u32 p))
        else if type = 0xc1 then (mpack_reader_flag_error r mpack_error_invalid, TagNil, 0)
        else (mpack_reader_flag_error r mpack_error_unsupported, TagNil, 0))"

definition mpack_read_tag :: "mpack_reader \<Rightarrow> mpack_reader \<times> mpack_tag" where
  "mpack_read_tag r =
     (if rerror r \<noteq> mpack_ok then (r, TagNil)
      else case mpack_parse_tag r of (r', tag, count) \<Rightarrow>
        if count = 0 then (r', TagNil) else (r'\<lparr>rdata := drop count (rdata r')\<rparr>, tag))"

section \<open>Expect functions\<close>

definition mpack_expect_u32 :: "mpack_reader \<Rightarrow> mpack_reader \<times> u32" where
  "mpack_expect_u32 r =
     (case mpack_read_tag r of (r', var) \<Rightarrow>
        let fail = (mpack_reader_flag_error r' mpack_error_type, 0) in
        case var of
          TagUint u \<Rightarrow> if u \<le> 0xFFFFFFFF then (r', ucast u) else fail
        | TagInt i \<Rightarrow> if 0 \<le> sint i \<and> sint i \<le> 0xFFFFFFFF then (r', ucast i) else fail
        | _ \<Rightarrow> fail)"

definition mpack_expect_i32 :: "mpack_reader \<Rightarrow> mpack_reader \<times> i32" where
  "mpack_expect_i32 r =
     (case mpack_read_tag r of (r', var) \<Rightarrow>
        let fail = (mpack_reader_flag_error r' mpack_error_type, 0) in
        case var of
          TagUint u \<Rightarrow> if u \<le> 0x7FFFFFFF then (r', ucast u) else fail
        | TagInt i \<Rightarrow> if - (2 ^ 31) \<le> sint i \<and> sint i \<le> 2 ^ 31 - 1 then (r', ucast i) else fail
        | _ \<Rightarrow> fail)"

definition mpack_expect_array :: "mpack_reader \<Rightarrow> mpack_reader \<times> u32" where
  "mpack_expect_array r =
     (case mpack_read_tag r of (r', var) \<Rightarrow>
        case var of TagArray n \<Rightarrow> (r', n) | _ \<Rightarrow> (mpack_reader_flag_error r' mpack_error_type, 0))"

definition mpack_expect_map :: "mpack_reader \<Rightarrow> mpack_reader \<times> u32" where
  "mpack_expect_map r =
     (case mpack_read_tag r of (r', var) \<Rightarrow>
        case var of TagMap n \<Rightarrow> (r', n) | _ \<Rightarrow> (mpack_reader_flag_error r' mpack_error_type, 0))"

text \<open>The value of a float or double from its bits.\<close>

definition fp_of_bits :: "nat \<Rightarrow> nat \<Rightarrow> nat \<Rightarrow> fp" where
  "fp_of_bits p ebits n =
     (let m = n mod 2 ^ (p - 1); e = (n div 2 ^ (p - 1)) mod 2 ^ ebits;
          neg = odd (n div 2 ^ (p - 1 + ebits)); bias = 2 ^ (ebits - 1) - 1 :: int;
          s = (if neg then - 1 else 1 :: rat)
      in if e = 2 ^ ebits - 1 then (if m \<noteq> 0 then NaN else if neg then NegInf else PosInf)
         else if e = 0 then Fin (s * of_nat m * 2 powi (1 - bias - (int p - 1)))
         else Fin (s * of_nat (m + 2 ^ (p - 1)) * 2 powi (int e - bias - (int p - 1))))"

definition float_of_bits :: "u32 \<Rightarrow> fp" where
  "float_of_bits b = fp_of_bits 24 8 (unat b)"

definition double_of_bits :: "u64 \<Rightarrow> fp" where
  "double_of_bits b = fp_of_bits 53 11 (unat b)"

definition mpack_expect_float :: "mpack_reader \<Rightarrow> mpack_reader \<times> fp" where
  "mpack_expect_float r =
     (case mpack_read_tag r of (r', var) \<Rightarrow>
        case var of
          TagUint u \<Rightarrow> (r', fp_of_int round32 (uint u))
        | TagInt i \<Rightarrow> (r', fp_of_int round32 (sint i))
        | TagFloat f \<Rightarrow> (r', float_of_bits f)
        | TagDouble d \<Rightarrow> (r', fp_convert round32 (double_of_bits d))
        | _ \<Rightarrow> (mpack_reader_flag_error r' mpack_error_type, Fin 0))"

definition mpack_expect_native :: "nat \<Rightarrow> (u8 list \<Rightarrow> u32) \<Rightarrow> mpack_reader \<Rightarrow> mpack_reader \<times> u32" where
  "mpack_expect_native sz load r =
     (if rerror r \<noteq> mpack_ok then (r, 0)
      else case mpack_reader_ensure r sz of (r', ok) \<Rightarrow>
        if \<not> ok then (r', 0) else (r'\<lparr>rdata := drop sz (rdata r')\<rparr>, load (rdata r')))"

definition mpack_expect_str :: "mpack_reader \<Rightarrow> mpack_reader \<times> u32" where
  "mpack_expect_str r =
     (case mpack_expect_native 1 (\<lambda>p. ucast (p ! 0)) r of (r1, type) \<Rightarrow>
        if drop_bit 5 type = 5 then (r1, type AND 0x1f)
        else if type = 0xd9 then mpack_expect_native 1 (\<lambda>p. ucast (p ! 0)) r1
        else if type = 0xda then mpack_expect_native 2 (\<lambda>p. ucast (mpack_load_u16 p)) r1
        else if type = 0xdb then mpack_expect_native 4 mpack_load_u32 r1
        else (mpack_reader_flag_error r1 mpack_error_type, 0))"

text \<open>
  \<open>mpack_read_bytes\<close> writes \<open>count\<close> bytes into the target in every case: the data, or zeros
  when the reader is in an error state or the data are too short (\<open>mpack_read_native_straddle\<close>).
\<close>

definition mpack_read_bytes :: "mpack_reader \<Rightarrow> nat \<Rightarrow> mpack_reader \<times> u8 list" where
  "mpack_read_bytes r count =
     (if count \<le> length (rdata r) then (r\<lparr>rdata := drop count (rdata r)\<rparr>, take count (rdata r))
      else if rerror r \<noteq> mpack_ok then (r, replicate count 0)
      else (mpack_reader_flag_error r mpack_error_invalid, replicate count 0))"

section \<open>What was written is read back\<close>

lemma ucast_and_255: "(ucast ((x :: 'a::len word) AND 0xFF) :: u8) = ucast x"
proof -
  have "(0xFF :: 'a word) = mask 8" by (simp add: mask_eq_exp_minus_1)
  moreover have "(ucast (x AND mask 8) :: u8) = ucast x"
    by (rule bit_word_eqI) (auto simp: bit_simps dest: bit_imp_le_length)
  ultimately show ?thesis by (simp only:)
qed

lemma load_store_u16 [wire_simps]: "mpack_load_u16 (mpack_store_u16 v @ rest) = v"
  unfolding mpack_load_u16_def mpack_store_u16_def ucast_and_255
  by (rule bit_word_eqI) (auto simp: bit_simps not_less)

lemma load_store_u32 [wire_simps]: "mpack_load_u32 (mpack_store_u32 v @ rest) = v"
proof -
  have "bit (mpack_load_u32 (mpack_store_u32 v @ rest)) n = bit v n" if "n < 32" for n
  proof -
    consider "n < 8" | "8 \<le> n" "n < 16" | "16 \<le> n" "n < 24" | "24 \<le> n"
      by linarith
    then show ?thesis
      using that unfolding mpack_load_u32_def mpack_store_u32_def ucast_and_255
      by cases (auto simp: bit_simps not_less)
  qed
  then show ?thesis by (intro bit_word_eqI) simp
qed

lemma load_store_u32' [wire_simps]: "mpack_load_u32 (mpack_store_u32 v) = v"
  using load_store_u32 [of v "[]"] by simp

lemma length_store [wire_simps]:
  "length (mpack_store_u16 a) = 2" "length (mpack_store_u32 b) = 4" "length (mpack_store_u64 c) = 8"
  by (simp_all add: mpack_store_u16_def mpack_store_u32_def mpack_store_u64_def)

lemma unat_ucast_narrow [simp]:
  "unat (v :: u32) < 256 \<Longrightarrow> unat (ucast v :: u8) = unat v"
  "unat (v :: u32) < 65536 \<Longrightarrow> unat (ucast v :: u16) = unat v"
  by (simp_all add: unsigned_ucast_eq take_bit_nat_eq_self)

lemma unat_ucast_widen [simp]:
  "unat (ucast (a :: u8) :: u16) = unat a"
  "unat (ucast (a :: u8) :: u32) = unat a"
  "unat (ucast (a :: u8) :: u64) = unat a"
  "unat (ucast (b :: u16) :: u32) = unat b"
  "unat (ucast (b :: u16) :: u64) = unat b"
  "unat (ucast (c :: u32) :: u64) = unat c"
  using unsigned_less [of b, where 'a = nat] unat_u32_bound [of c]
  by (simp_all add: unsigned_ucast_eq take_bit_nat_eq_self order_less_trans [OF unat_u8_bound])

lemma ucast_u8_u64: "(v :: u32) \<le> 0xFF \<Longrightarrow> (ucast (ucast v :: u8) :: u64) = ucast v"
  by (simp add: word_le_nat_alt word_unat_eq_iff)

lemma ucast_u16_u64: "(v :: u32) \<le> 0xFFFF \<Longrightarrow> (ucast (ucast v :: u16) :: u64) = ucast v"
  by (simp add: word_le_nat_alt word_unat_eq_iff)

lemma ucast_u64_u32 [simp]: "(ucast (ucast (v :: u32) :: u64) :: u32) = v"
  by (rule bit_word_eqI) (simp add: bit_simps)

lemma ucast_u64_bound [simp]: "(ucast (v :: u32) :: u64) \<le> 0xFFFFFFFF"
  using unat_u32_bound [of v] by (simp add: word_le_nat_alt)

lemma u32_bytes_eq:
  "u32_bytes v =
     (if v \<le> 127 then [ucast v] else if v \<le> 0xFF then [0xcc, ucast v]
      else if v \<le> 0xFFFF then 0xcd # mpack_store_u16 (ucast v) else 0xce # mpack_store_u32 v)"
  by (simp add: u32_bytes_def mpack_write_u32_def mpack_write_native_growable
      mpack_encode_fixuint_def mpack_encode_u8_def mpack_encode_u16_def mpack_encode_u32_def)

lemma parse_u32_bytes:
  assumes "rdata r = u32_bytes v @ rest"
  shows "mpack_parse_tag r = (r, TagUint (ucast v), length (u32_bytes v))"
proof -
  consider "v \<le> 127" | "\<not> v \<le> 127" "v \<le> 0xFF" | "\<not> v \<le> 0xFF" "v \<le> 0xFFFF" | "\<not> v \<le> 0xFFFF"
    by blast
  then show ?thesis
  proof cases
    case 1
    then have "(ucast v :: u8) \<le> 0x7f" and "v \<le> 0xFF"
      by (simp_all add: word_le_nat_alt)
    with 1 assms show ?thesis
      by (simp add: mpack_parse_tag_def mpack_reader_ensure_def u32_bytes_eq ucast_u8_u64)
  next
    case 2
    with assms show ?thesis
      by (simp add: mpack_parse_tag_def mpack_reader_ensure_def parsed_def u32_bytes_eq ucast_u8_u64)
  next
    case 3
    then have "\<not> v \<le> 127" by (auto simp: word_le_nat_alt)
    with 3 assms show ?thesis
      by (simp add: mpack_parse_tag_def mpack_reader_ensure_def parsed_def u32_bytes_eq ucast_u16_u64 wire_simps)
  next
    case 4
    then have "\<not> v \<le> 127" "\<not> v \<le> 0xFF" by (auto simp: word_le_nat_alt)
    with 4 assms show ?thesis
      by (simp add: mpack_parse_tag_def mpack_reader_ensure_def parsed_def u32_bytes_eq wire_simps)
  qed
qed

lemma read_u32_bytes:
  assumes "rerror r = mpack_ok" and "rdata r = u32_bytes v @ rest"
  shows "mpack_read_tag r = (r\<lparr>rdata := rest\<rparr>, TagUint (ucast v))"
proof -
  have "length (u32_bytes v) \<noteq> 0" by (simp add: u32_bytes_eq)
  then show ?thesis using assms by (simp add: mpack_read_tag_def parse_u32_bytes [OF assms(2)])
qed

lemma expect_u32_bytes [wire_simps]:
  assumes "rerror r = mpack_ok" and "rdata r = u32_bytes v @ rest"
  shows "mpack_expect_u32 r = (r\<lparr>rdata := rest\<rparr>, v)"
  using assms by (simp add: mpack_expect_u32_def read_u32_bytes Let_def)

text \<open>Reading an unsigned field as a signed one works below \<open>2 ^ 31\<close> and fails above.\<close>

lemma expect_i32_u32_bytes [wire_simps]:
  assumes "rerror r = mpack_ok" and "rdata r = u32_bytes v @ rest"
  shows "mpack_expect_i32 r =
    (if v \<le> 0x7FFFFFFF then (r\<lparr>rdata := rest\<rparr>, v)
     else (r\<lparr>rdata := [], rerror := mpack_error_type\<rparr>, 0))"
proof -
  have "(ucast v :: u64) \<le> 0x7FFFFFFF \<longleftrightarrow> v \<le> 0x7FFFFFFF"
    using unat_u32_bound [of v] by (simp add: word_le_nat_alt)
  then show ?thesis
    using assms by (simp add: mpack_expect_i32_def read_u32_bytes mpack_reader_flag_error_def Let_def)
qed

lemma sint_scast_u8 [simp]: "sint (scast (a :: u8) :: u64) = sint a"
  by (simp add: sint_up_scast is_up)
lemma sint_scast_u16 [simp]: "sint (scast (a :: u16) :: u64) = sint a"
  by (simp add: sint_up_scast is_up)
lemma sint_scast_u32 [simp]: "sint (scast (a :: u32) :: u64) = sint a"
  by (simp add: sint_up_scast is_up)

lemma word_of_sint_narrow:
  "LENGTH('b) \<le> LENGTH('a) \<Longrightarrow> (word_of_int (sint (v :: 'a::len word)) :: 'b::len word) = ucast v"
  by (rule bit_word_eqI) (auto simp: bit_simps bit_sint_iff)

lemma ucast_sint_narrow:
  "(ucast (v :: i32) :: u8) = word_of_int (sint v)"
  "(ucast (v :: i32) :: u16) = word_of_int (sint v)"
  "(ucast (x :: u64) :: i32) = word_of_int (sint x)"
  by (rule word_of_sint_narrow [symmetric], simp)+

lemma sint_of_int_small:
  "- (2 ^ 7) \<le> z \<Longrightarrow> z < 2 ^ 7 \<Longrightarrow> sint (word_of_int z :: u8) = z"
  "- (2 ^ 15) \<le> z \<Longrightarrow> z < 2 ^ 15 \<Longrightarrow> sint (word_of_int z :: u16) = z"
  by (simp_all add: sint_sbintrunc' signed_take_bit_int_eq_self)

lemma sint_narrow_i32:
  "- (2 ^ 7) \<le> sint (v :: i32) \<Longrightarrow> sint v < 2 ^ 7 \<Longrightarrow> sint (ucast v :: u8) = sint v"
  "- (2 ^ 15) \<le> sint (v :: i32) \<Longrightarrow> sint v < 2 ^ 15 \<Longrightarrow> sint (ucast v :: u16) = sint v"
  by (simp_all only: ucast_sint_narrow sint_of_int_small)

lemma ucast_of_sint64: "sint (x :: u64) = sint (v :: i32) \<Longrightarrow> (ucast x :: i32) = v"
  by (simp only: ucast_sint_narrow) simp

lemma array_bytes_eq:
  "array_bytes n =
     (if n \<le> 15 then [0x90 OR ucast n] else if n \<le> 0xFFFF then 0xdc # mpack_store_u16 (ucast n)
      else 0xdd # mpack_store_u32 n)"
  by (simp add: array_bytes_def mpack_start_array_def mpack_write_array_notrack_def mpack_write_native_growable
      mpack_encode_fixarray_def mpack_encode_array16_def mpack_encode_array32_def)

lemma str_bytes_eq:
  "str_bytes s = (let n = word_of_nat (length s) :: u32 in
     (if n \<le> 31 then [0xa0 OR ucast n] else if n \<le> 0xFF then [0xd9, ucast n]
      else if n \<le> 0xFFFF then 0xda # mpack_store_u16 (ucast n)
      else 0xdb # mpack_store_u32 n) @ s)"
  by (simp add: str_bytes_def mpack_write_str_def mpack_write_native_growable mpack_has_room_def Let_def
      mpack_encode_fixstr_def mpack_encode_str8_def mpack_encode_str16_def mpack_encode_str32_def)

lemma i32_bytes_eq:
  "i32_bytes v = (if - 32 \<le> sint v then
        (if sint v \<le> 127 then [ucast v] else if sint v \<le> 0xFF then [0xcc, ucast v]
         else if sint v \<le> 0xFFFF then 0xcd # mpack_store_u16 (ucast v) else 0xce # mpack_store_u32 v)
      else if - (2 ^ 7) \<le> sint v then [0xd0, ucast v]
      else if - (2 ^ 15) \<le> sint v then 0xd1 # mpack_store_u16 (ucast v)
      else 0xd2 # mpack_store_u32 v)"
  by (simp add: i32_bytes_def mpack_write_i32_def mpack_write_native_growable
      mpack_encode_fixint_def mpack_encode_fixuint_def mpack_encode_u8_def mpack_encode_u16_def
      mpack_encode_u32_def mpack_encode_i8_def mpack_encode_i16_def mpack_encode_i32_def)

lemma unat_of_sint:
  "0 \<le> sint (v :: i32) \<Longrightarrow> sint v \<le> int n \<Longrightarrow> unat v \<le> n"
  using sint_nonneg_unat [of v] by linarith

text \<open>Non-negative numbers are written alike by the signed and the unsigned function.\<close>

lemma i32_bytes_nonneg: "0 \<le> sint v \<Longrightarrow> i32_bytes v = u32_bytes v"
  using sint_nonneg_unat [of v] by (simp add: i32_bytes_eq u32_bytes_eq word_le_def)

lemma fixint_cond:
  assumes "- 32 \<le> sint (v :: i32)" "sint v < 0"
  shows "0xe0 \<le> (ucast v :: u8)"
proof -
  have "uint (ucast v :: u8) = sint v mod 256" by (simp only: ucast_sint_narrow uint_word_of_int) simp
  also have "\<dots> = (sint v + 256) mod 256" by simp
  also have "\<dots> = sint v + 256" using assms by (intro mod_pos_pos_trivial) simp_all
  finally show ?thesis using assms by (simp add: word_le_def)
qed

lemma parse_i32_bytes_neg:
  assumes "rdata r = i32_bytes v @ rest" and "sint v < 0"
  shows "\<exists>x. mpack_parse_tag r = (r, TagInt x, length (i32_bytes v)) \<and> sint x = sint v"
proof -
  consider "- 32 \<le> sint v" | "sint v < - 32" "- (2 ^ 7) \<le> sint v"
    | "sint v < - (2 ^ 7)" "- (2 ^ 15) \<le> sint v" | "sint v < - (2 ^ 15)" by linarith
  then show ?thesis
  proof cases
    case 1
    with assms fixint_cond [OF 1 assms(2)] have "\<not> (ucast v :: u8) \<le> 0x7f"
      by (simp add: word_le_nat_alt)
    with 1 assms fixint_cond [OF 1 assms(2)] show ?thesis
      by (simp add: mpack_parse_tag_def mpack_reader_ensure_def i32_bytes_eq sint_narrow_i32)
  next
    case 2
    with assms show ?thesis
      by (simp add: mpack_parse_tag_def mpack_reader_ensure_def parsed_def i32_bytes_eq sint_narrow_i32)
  next
    case 3
    with assms show ?thesis
      by (simp add: mpack_parse_tag_def mpack_reader_ensure_def parsed_def i32_bytes_eq sint_narrow_i32 wire_simps)
  next
    case 4
    with assms show ?thesis
      by (simp add: mpack_parse_tag_def mpack_reader_ensure_def parsed_def i32_bytes_eq wire_simps)
  qed
qed

lemma i32_bytes_nonempty: "i32_bytes v \<noteq> []" "u32_bytes v \<noteq> []"
  by (simp_all add: i32_bytes_eq u32_bytes_eq)

lemma expect_i32_bytes [wire_simps]:
  assumes "rerror r = mpack_ok" and "rdata r = i32_bytes v @ rest"
  shows "mpack_expect_i32 r = (r\<lparr>rdata := rest\<rparr>, v)"
proof (cases "sint v < 0")
  case True
  from parse_i32_bytes_neg [OF assms(2) True] obtain x
    where "mpack_parse_tag r = (r, TagInt x, length (i32_bytes v))" and x: "sint x = sint v" by blast
  then have "mpack_read_tag r = (r\<lparr>rdata := rest\<rparr>, TagInt x)"
    using assms by (simp add: mpack_read_tag_def i32_bytes_nonempty)
  with x True sint_i32_range [of v] show ?thesis
    by (simp add: mpack_expect_i32_def ucast_of_sint64)
next
  case False
  with sint_i32_range [of v] have "v \<le> 0x7FFFFFFF"
    using sint_nonneg_unat [of v] by (simp add: word_le_def)
  with False assms show ?thesis by (simp add: i32_bytes_nonneg expect_i32_u32_bytes)
qed

definition tag_nibble_ok :: "u32 \<Rightarrow> bool" where
  "tag_nibble_ok n \<longleftrightarrow>
     (n \<le> 15 \<longrightarrow> (let t = 0x90 OR ucast n :: u8 in
        ucast (t AND 0x0f) = n \<and> \<not> t \<le> 0x8f \<and> \<not> 0xe0 \<le> t \<and> t \<le> 0x9f)) \<and>
     (n \<le> 31 \<longrightarrow> (let t = 0xa0 OR ucast n :: u8 in
        ucast (ucast t AND 0x1f :: u32) = n \<and> drop_bit 5 (ucast t :: u32) = 5))"

lemma tag_nibble: assumes "n \<le> 31" shows "tag_nibble_ok n"
proof -
  have all: "list_all (\<lambda>k. tag_nibble_ok (word_of_nat k)) [0..<32]" by code_simp
  have "unat n \<in> set [0..<32]" using assms by (simp add: word_le_nat_alt)
  with all have "tag_nibble_ok (word_of_nat (unat n))" by (simp only: list_all_iff)
  then show ?thesis by simp
qed

lemma fixarray_tag:
  assumes "(n :: u32) \<le> 15"
  shows "ucast ((0x90 OR ucast n :: u8) AND 0x0f) = n \<and> \<not> (0x90 OR ucast n :: u8) \<le> 0x8f \<and>
    \<not> 0xe0 \<le> (0x90 OR ucast n :: u8) \<and> (0x90 OR ucast n :: u8) \<le> 0x9f"
proof -
  have "n \<le> 31" using assms by (simp add: word_le_nat_alt)
  from tag_nibble [OF this] assms show ?thesis by (simp add: tag_nibble_ok_def Let_def)
qed

lemma expect_array_bytes [wire_simps]:
  assumes "rerror r = mpack_ok" and "rdata r = array_bytes n @ rest"
  shows "mpack_expect_array r = (r\<lparr>rdata := rest\<rparr>, n)"
proof -
  consider "n \<le> 15" | "\<not> n \<le> 15" "n \<le> 0xFFFF" | "\<not> n \<le> 15" "\<not> n \<le> 0xFFFF" by blast
  then have "mpack_parse_tag r = (r, TagArray n, length (array_bytes n))"
  proof cases
    case 1
    with fixarray_tag [OF 1] have "\<not> (0x90 OR ucast n :: u8) \<le> 0x7f" by (auto simp: word_le_nat_alt)
    with 1 fixarray_tag [OF 1] assms show ?thesis
      by (simp add: mpack_parse_tag_def mpack_reader_ensure_def array_bytes_eq)
  next
    case 2
    with assms show ?thesis
      by (simp add: mpack_parse_tag_def mpack_reader_ensure_def parsed_def array_bytes_eq wire_simps word_le_nat_alt word_unat_eq_iff)
  next
    case 3
    with assms show ?thesis
      by (simp add: mpack_parse_tag_def mpack_reader_ensure_def parsed_def array_bytes_eq wire_simps)
  qed
  moreover have "length (array_bytes n) \<noteq> 0" by (simp add: array_bytes_eq)
  ultimately show ?thesis using assms by (simp add: mpack_expect_array_def mpack_read_tag_def)
qed

lemma expect_str_bytes [wire_simps]:
  assumes "rerror r = mpack_ok" and "rdata r = str_bytes s @ rest" and len: "length s < 2 ^ 32"
  shows "mpack_expect_str r = (r\<lparr>rdata := s @ rest\<rparr>, word_of_nat (length s))"
proof -
  define n where "n = (word_of_nat (length s) :: u32)"
  have data: "rdata r = (if n \<le> 31 then [0xa0 OR ucast n] else if n \<le> 0xFF then [0xd9, ucast n]
      else if n \<le> 0xFFFF then 0xda # mpack_store_u16 (ucast n)
      else 0xdb # mpack_store_u32 n) @ s @ rest"
    using assms(2) by (simp add: str_bytes_eq n_def Let_def)
  consider "n \<le> 31" | "\<not> n \<le> 31" "n \<le> 0xFF" | "\<not> n \<le> 31" "\<not> n \<le> 0xFF" "n \<le> 0xFFFF"
    | "\<not> n \<le> 31" "\<not> n \<le> 0xFF" "\<not> n \<le> 0xFFFF" by blast
  then have "mpack_expect_str r = (r\<lparr>rdata := s @ rest\<rparr>, n)"
  proof cases
    case 1
    with tag_nibble [OF 1] data assms(1) show ?thesis
      by (simp add: mpack_expect_str_def mpack_expect_native_def mpack_reader_ensure_def tag_nibble_ok_def Let_def)
  next
    case 2
    with data assms(1) show ?thesis
      by (simp add: mpack_expect_str_def mpack_expect_native_def mpack_reader_ensure_def word_le_nat_alt word_unat_eq_iff)
  next
    case 3
    with data assms(1) show ?thesis
      by (simp add: mpack_expect_str_def mpack_expect_native_def mpack_reader_ensure_def wire_simps word_le_nat_alt word_unat_eq_iff)
  next
    case 4
    with data assms(1) show ?thesis
      by (simp add: mpack_expect_str_def mpack_expect_native_def mpack_reader_ensure_def wire_simps)
  qed
  then show ?thesis by (simp add: n_def)
qed

lemma read_bytes_append [wire_simps]:
  "rdata r = s @ rest \<Longrightarrow> n = length s \<Longrightarrow> mpack_read_bytes r n = (r\<lparr>rdata := rest\<rparr>, s)"
  by (simp add: mpack_read_bytes_def)

section \<open>C strings in UTF-8\<close>

definition cont_byte :: "u8 \<Rightarrow> bool" where
  "cont_byte c \<longleftrightarrow> c AND 0xC0 = 0x80"

definition utf8_bits :: "u8 \<Rightarrow> u8 \<Rightarrow> nat \<Rightarrow> u32" where
  "utf8_bits c drop_mask n = push_bit n (ucast (c AND NOT drop_mask))"

fun mpack_utf8_check_impl :: "bool \<Rightarrow> u8 list \<Rightarrow> bool" where
  "mpack_utf8_check_impl allow_null [] = True"
| "mpack_utf8_check_impl allow_null (lead # s) =
     (if \<not> allow_null \<and> lead = 0 then False
      else if lead \<le> 0x7F then mpack_utf8_check_impl allow_null s
      else if lead AND 0xE0 = 0xC0 then
        (case s of
           c # s1 \<Rightarrow>
             cont_byte c \<and> (utf8_bits lead 0xE0 6 OR utf8_bits c 0xC0 0) \<ge> 0x80 \<and> mpack_utf8_check_impl allow_null s1
         | _ \<Rightarrow> False)
      else if lead AND 0xF0 = 0xE0 then
        (case s of
           c # d # s2 \<Rightarrow>
             (let z = utf8_bits lead 0xF0 12 OR utf8_bits c 0xC0 6 OR utf8_bits d 0xC0 0 in
              cont_byte c \<and> cont_byte d \<and> z \<ge> 0x800 \<and> \<not> (z \<ge> 0xD800 \<and> z \<le> 0xDFFF) \<and>
              mpack_utf8_check_impl allow_null s2)
         | _ \<Rightarrow> False)
      else if lead AND 0xF8 = 0xF0 then
        (case s of
           c # d # e # s3 \<Rightarrow>
             (let z = utf8_bits lead 0xF8 18 OR utf8_bits c 0xC0 12 OR utf8_bits d 0xC0 6 OR utf8_bits e 0xC0 0 in
              cont_byte c \<and> cont_byte d \<and> cont_byte e \<and> z \<ge> 0x10000 \<and> z \<le> 0x10FFFF \<and>
              mpack_utf8_check_impl allow_null s3)
         | _ \<Rightarrow> False)
      else False)"

definition mpack_utf8_check :: "u8 list \<Rightarrow> bool" where
  "mpack_utf8_check s = mpack_utf8_check_impl True s"

definition mpack_utf8_check_no_null :: "u8 list \<Rightarrow> bool" where
  "mpack_utf8_check_no_null s = mpack_utf8_check_impl False s"

text \<open>The C string left in a buffer of \<open>bufsize\<close> bytes; empty after any error.\<close>

definition mpack_read_utf8_cstr :: "mpack_reader \<Rightarrow> nat \<Rightarrow> nat \<Rightarrow> mpack_reader \<times> u8 list" where
  "mpack_read_utf8_cstr r bufsize byte_count =
     (if rerror r \<noteq> mpack_ok then (r, [])
      else if bufsize - 1 < byte_count then (mpack_reader_flag_error r mpack_error_too_big, [])
      else case mpack_read_bytes r byte_count of (r1, bytes) \<Rightarrow>
        if rerror r1 = mpack_ok \<and> \<not> mpack_utf8_check_no_null bytes
        then (mpack_reader_flag_error r1 mpack_error_type, [])
        else (r1, cstr bytes))"

definition mpack_expect_utf8_cstr :: "mpack_reader \<Rightarrow> nat \<Rightarrow> mpack_reader \<times> u8 list" where
  "mpack_expect_utf8_cstr r bufsize =
     (case mpack_expect_str r of (r1, len) \<Rightarrow> mpack_read_utf8_cstr r1 bufsize (unat len))"

lemma utf8_impl_no_null: "mpack_utf8_check_impl allow_null s \<Longrightarrow> \<not> allow_null \<Longrightarrow> 0 \<notin> set s"
proof (induction allow_null s rule: mpack_utf8_check_impl.induct)
  case (2 allow_null lead s)
  have cont: "c \<noteq> 0" if "cont_byte c" for c using that by (auto simp: cont_byte_def)
  from 2 cont show ?case
    by (auto simp: Let_def split: if_splits list.splits)
qed simp

lemma utf8_no_null: "mpack_utf8_check_no_null s \<Longrightarrow> 0 \<notin> set s"
  unfolding mpack_utf8_check_no_null_def by (simp add: utf8_impl_no_null)

lemma expect_utf8_cstr_bytes [wire_simps]:
  assumes "rerror r = mpack_ok" and "rdata r = str_bytes s @ rest"
    and "length s < bufsize" and "bufsize \<le> 2 ^ 31" and "mpack_utf8_check_no_null s"
  shows "mpack_expect_utf8_cstr r bufsize = (r\<lparr>rdata := rest\<rparr>, s)"
proof -
  have len: "length s < 2 ^ 32" using assms(3,4) by simp
  then have n: "unat (word_of_nat (length s) :: u32) = length s"
    by (simp add: unat_of_nat take_bit_nat_eq_self)
  have "cstr s = s" using utf8_no_null [OF assms(5)] by (auto simp: cstr_def takeWhile_eq_all_conv)
  moreover have "\<not> bufsize - 1 < length s" using assms(3) by simp
  ultimately show ?thesis
    using assms n
    by (simp add: mpack_expect_utf8_cstr_def expect_str_bytes [OF assms(1,2) len] mpack_read_utf8_cstr_def
        mpack_read_bytes_def)
qed

lemma read_tag_array_bytes [wire_simps]:
  assumes "rerror r = mpack_ok" and "rdata r = array_bytes n @ rest"
  shows "mpack_read_tag r = (r\<lparr>rdata := rest\<rparr>, TagArray n)"
proof -
  obtain r' t where t: "mpack_read_tag r = (r', t)" by fastforce
  from expect_array_bytes [OF assms] have
    "(case t of TagArray m \<Rightarrow> (r', m) | _ \<Rightarrow> (mpack_reader_flag_error r' mpack_error_type, 0)) = (r\<lparr>rdata := rest\<rparr>, n)"
    by (simp add: mpack_expect_array_def t)
  moreover have "rerror (mpack_reader_flag_error r' mpack_error_type) \<noteq> mpack_ok"
    by (simp add: mpack_reader_flag_error_def)
  ultimately show ?thesis
    using assms(1) t by (cases t) (auto dest: arg_cong [where f = "\<lambda>p. rerror (fst p)"])
qed

text \<open>Maps of up to 15 pairs.\<close>

lemma expect_small_map:
  assumes "rerror r = mpack_ok" and "rdata r = 0x83 # rest"
  shows "mpack_expect_map r = (r\<lparr>rdata := rest\<rparr>, 3)"
  using assms
  by (simp add: mpack_expect_map_def mpack_read_tag_def mpack_parse_tag_def mpack_reader_ensure_def)

end
