(* ===== verification/MPackTags.thy ===== *)
theory MPackTags
  imports MPackReader "HOL-Library.List_Lexorder" "HOL-Library.Product_Lexorder"
begin

text \<open>
  The tags of the MessagePack library under \<open>mpack/\<close>: their comparison, the rest of the write
  functions, which put any tag into a message, and that a tag that was written is read back.
  The server itself writes few types; the other functions are part of the library it is linked
  with.  The release build has no extension types and no tracking, so the \<open>finish\<close> functions do
  nothing.
\<close>

section \<open>Types and tags\<close>

datatype mpack_type =
    mpack_type_missing | mpack_type_nil | mpack_type_bool | mpack_type_int | mpack_type_uint
  | mpack_type_float | mpack_type_double | mpack_type_str | mpack_type_bin | mpack_type_array
  | mpack_type_map

text \<open>The enumeration's number of a type; types are compared by it.\<close>

primrec type_number :: "mpack_type \<Rightarrow> nat" where
  "type_number mpack_type_missing = 0"
| "type_number mpack_type_nil = 1"
| "type_number mpack_type_bool = 2"
| "type_number mpack_type_int = 3"
| "type_number mpack_type_uint = 4"
| "type_number mpack_type_float = 5"
| "type_number mpack_type_double = 6"
| "type_number mpack_type_str = 7"
| "type_number mpack_type_bin = 8"
| "type_number mpack_type_array = 9"
| "type_number mpack_type_map = 10"

lemma type_number_inject: "type_number a = type_number b \<Longrightarrow> a = b"
  by (cases a; cases b) simp_all

instantiation mpack_type :: linorder
begin

definition less_eq_mpack_type :: "mpack_type \<Rightarrow> mpack_type \<Rightarrow> bool" where
  "less_eq_mpack_type a b \<longleftrightarrow> type_number a \<le> type_number b"

definition less_mpack_type :: "mpack_type \<Rightarrow> mpack_type \<Rightarrow> bool" where
  "less_mpack_type a b \<longleftrightarrow> type_number a < type_number b"

instance
  by standard (auto simp: less_eq_mpack_type_def less_mpack_type_def type_number_inject)

end

primrec mpack_tag_type :: "mpack_tag \<Rightarrow> mpack_type" where
  "mpack_tag_type TagMissing = mpack_type_missing"
| "mpack_tag_type TagNil = mpack_type_nil"
| "mpack_tag_type (TagBool b) = mpack_type_bool"
| "mpack_tag_type (TagInt i) = mpack_type_int"
| "mpack_tag_type (TagUint u) = mpack_type_uint"
| "mpack_tag_type (TagFloat f) = mpack_type_float"
| "mpack_tag_type (TagDouble d) = mpack_type_double"
| "mpack_tag_type (TagStr l) = mpack_type_str"
| "mpack_tag_type (TagBin l) = mpack_type_bin"
| "mpack_tag_type (TagArray n) = mpack_type_array"
| "mpack_tag_type (TagMap n) = mpack_type_map"

section \<open>Comparison\<close>

text \<open>A non-negative number of the signed type counts as one of the unsigned type.\<close>

definition unsigned_tag :: "mpack_tag \<Rightarrow> mpack_tag" where
  "unsigned_tag t = (case t of TagInt i \<Rightarrow> if 0 \<le> sint i then TagUint i else t | _ \<Rightarrow> t)"

text \<open>
  \<open>memcmp\<close> on objects of one size: only the sign of its result is specified.  The bytes of a
  number are stored from the lowest on the machines the server runs on.
\<close>

fun mem_compare :: "u8 list \<Rightarrow> u8 list \<Rightarrow> int" where
  "mem_compare (a # as) (b # bs) = (if a = b then mem_compare as bs else if a < b then - 1 else 1)"
| "mem_compare _ _ = 0"

definition float_memory :: "u32 \<Rightarrow> u8 list" where
  "float_memory f = rev (mpack_store_u32 f)"

definition double_memory :: "u64 \<Rightarrow> u8 list" where
  "double_memory d = rev (mpack_store_u64 d)"

definition mpack_tag_cmp :: "mpack_tag \<Rightarrow> mpack_tag \<Rightarrow> int" where
  "mpack_tag_cmp l r =
     (let left = unsigned_tag l; right = unsigned_tag r in
      if mpack_tag_type left \<noteq> mpack_tag_type right
      then (if mpack_tag_type left < mpack_tag_type right then - 1 else 1)
      else case (left, right) of
        (TagBool a, TagBool b) \<Rightarrow> of_bool a - of_bool b
      | (TagInt a, TagInt b) \<Rightarrow> if sint a = sint b then 0 else if sint a < sint b then - 1 else 1
      | (TagUint a, TagUint b) \<Rightarrow> if a = b then 0 else if a < b then - 1 else 1
      | (TagArray a, TagArray b) \<Rightarrow> if a = b then 0 else if a < b then - 1 else 1
      | (TagMap a, TagMap b) \<Rightarrow> if a = b then 0 else if a < b then - 1 else 1
      | (TagStr a, TagStr b) \<Rightarrow> if a = b then 0 else if a < b then - 1 else 1
      | (TagBin a, TagBin b) \<Rightarrow> if a = b then 0 else if a < b then - 1 else 1
      | (TagFloat a, TagFloat b) \<Rightarrow> mem_compare (float_memory a) (float_memory b)
      | (TagDouble a, TagDouble b) \<Rightarrow> mem_compare (double_memory a) (double_memory b)
      | _ \<Rightarrow> 0)"

definition mpack_tag_equal :: "mpack_tag \<Rightarrow> mpack_tag \<Rightarrow> bool" where
  "mpack_tag_equal l r \<longleftrightarrow> mpack_tag_cmp l r = 0"

text \<open>The comparison is that of keys in a linear order.\<close>

definition cmp_of :: "'a::linorder \<Rightarrow> 'a \<Rightarrow> int" where
  "cmp_of a b = (if a = b then 0 else if a < b then - 1 else 1)"

definition tag_key :: "mpack_tag \<Rightarrow> mpack_type \<times> int list" where
  "tag_key t = (mpack_tag_type (unsigned_tag t),
     (case unsigned_tag t of
        TagBool b \<Rightarrow> [of_bool b] | TagInt i \<Rightarrow> [sint i] | TagUint u \<Rightarrow> [uint u]
      | TagArray n \<Rightarrow> [uint n] | TagMap n \<Rightarrow> [uint n] | TagStr n \<Rightarrow> [uint n] | TagBin n \<Rightarrow> [uint n]
      | TagFloat f \<Rightarrow> map uint (float_memory f) | TagDouble d \<Rightarrow> map uint (double_memory d)
      | _ \<Rightarrow> []))"

lemma map_uint_inject: "map uint xs = map uint (ys :: 'a::len word list) \<longleftrightarrow> xs = ys"
  by (rule inj_map_eq_map) (auto intro: injI)

lemma mem_compare_cmp_of:
  "length xs = length ys \<Longrightarrow> mem_compare xs ys = cmp_of (map uint xs) (map uint ys)"
  by (induction xs ys rule: mem_compare.induct)
    (auto simp: cmp_of_def word_less_def map_uint_inject word_uint_eq_iff)

lemma store_u64_halves:
  "mpack_store_u64 v = mpack_store_u32 (ucast (drop_bit 32 v)) @ mpack_store_u32 (ucast v)"
  unfolding mpack_store_u64_def mpack_store_u32_def ucast_and_255 append.simps list.inject
  by (intro conjI bit_word_eqI) (auto simp: bit_simps ac_simps)

lemma ucast_push_byte:
  "n \<le> 24 \<Longrightarrow> (ucast (push_bit n (ucast (x :: u8)) :: u32) :: u64) = push_bit n (ucast x)"
  by (rule bit_word_eqI) (auto simp: bit_simps dest: bit_imp_le_length)

lemma load_u64_halves:
  assumes "4 \<le> length p"
  shows "mpack_load_u64 p = push_bit 32 (ucast (mpack_load_u32 p)) OR ucast (mpack_load_u32 (drop 4 p))"
proof -
  have byte: "(ucast (ucast (x :: u8) :: u32) :: u64) = ucast x" for x
    by (rule bit_word_eqI) (auto simp: bit_simps dest: bit_imp_le_length)
  show ?thesis
    using assms unfolding mpack_load_u64_def mpack_load_u32_def
    by (simp add: unsigned_or_eq ucast_push_byte byte push_bit_or or.assoc)
qed

lemma load_store_u64 [wire_simps]: "mpack_load_u64 (mpack_store_u64 v @ rest) = v"
proof -
  have "push_bit 32 (ucast (ucast (drop_bit 32 v) :: u32)) OR ucast (ucast v :: u32) = v"
    by (rule bit_word_eqI) (auto simp: bit_simps)
  then show ?thesis by (simp add: load_u64_halves store_u64_halves wire_simps)
qed

lemma float_memory_inject [simp]: "float_memory a = float_memory b \<longleftrightarrow> a = b"
  by (metis float_memory_def load_store_u32' rev_rev_ident)

lemma double_memory_inject [simp]: "double_memory a = double_memory b \<longleftrightarrow> a = b"
proof
  assume "double_memory a = double_memory b"
  then have "mpack_store_u64 a = mpack_store_u64 b" by (simp add: double_memory_def)
  then have "mpack_load_u64 (mpack_store_u64 a @ []) = mpack_load_u64 (mpack_store_u64 b @ [])"
    by (simp only:)
  then show "a = b" by (simp only: load_store_u64)
qed simp

lemma length_memory [simp]: "length (float_memory f) = 4" "length (double_memory d) = 8"
  by (simp_all add: float_memory_def double_memory_def wire_simps)

lemma mpack_tag_cmp_key: "mpack_tag_cmp t u = cmp_of (tag_key t) (tag_key u)"
  by (cases "unsigned_tag t"; cases "unsigned_tag u")
    (simp_all add: mpack_tag_cmp_def Let_def tag_key_def cmp_of_def mem_compare_cmp_of word_less_def
      less_mpack_type_def less_eq_mpack_type_def of_bool_def word_uint_eq_iff map_uint_inject)

lemma unsigned_tag_idem: "unsigned_tag (unsigned_tag t) = unsigned_tag t"
  by (simp add: unsigned_tag_def split: mpack_tag.splits)

lemma tag_key_eq_iff: "tag_key t = tag_key u \<longleftrightarrow> unsigned_tag t = unsigned_tag u"
  by (cases "unsigned_tag t"; cases "unsigned_tag u")
    (auto simp: tag_key_def map_uint_inject of_bool_def intro: signed_word_eqI unsigned_word_eqI)

lemma cmp_of_order:
  "cmp_of a b = 0 \<longleftrightarrow> a = b" "cmp_of b a = - cmp_of a b" "cmp_of a b \<le> 0 \<longleftrightarrow> a \<le> b"
  by (auto simp: cmp_of_def)

text \<open>Comparing tags is a linear order in which two tags are equal exactly when they have
  the same type and value, the sign of an integer's type aside.\<close>

theorem tag_cmp_linear_order:
  "(mpack_tag_cmp t u = 0 \<longleftrightarrow> unsigned_tag t = unsigned_tag u) \<and>
   mpack_tag_cmp u t = - mpack_tag_cmp t u \<and>
   (mpack_tag_cmp t u \<le> 0 \<and> mpack_tag_cmp u v \<le> 0 \<longrightarrow> mpack_tag_cmp t v \<le> 0)"
  unfolding mpack_tag_cmp_key cmp_of_order(1,3) tag_key_eq_iff
  using cmp_of_order(2) order_trans [of "tag_key t" "tag_key u" "tag_key v"] by blast

section \<open>The other encoders and write functions\<close>

definition mpack_encode_i64 :: "u64 \<Rightarrow> u8 list" where
  "mpack_encode_i64 value = 0xd3 # mpack_store_u64 value"

text \<open>A double is stored as its 64 bits.\<close>

definition mpack_encode_double :: "u64 \<Rightarrow> u8 list" where
  "mpack_encode_double bits = 0xcb # mpack_store_u64 bits"

definition mpack_encode_bin8 :: "u8 \<Rightarrow> u8 list" where
  "mpack_encode_bin8 count = [0xc4, count]"

definition mpack_encode_bin16 :: "u16 \<Rightarrow> u8 list" where
  "mpack_encode_bin16 count = 0xc5 # mpack_store_u16 count"

definition mpack_encode_bin32 :: "u32 \<Rightarrow> u8 list" where
  "mpack_encode_bin32 count = 0xc6 # mpack_store_u32 count"

definition mpack_write_byte_element :: "mpack_writer \<Rightarrow> u8 \<Rightarrow> mpack_writer" where
  "mpack_write_byte_element w value = mpack_write_native w [value]"

definition mpack_write_nil :: "mpack_writer \<Rightarrow> mpack_writer" where
  "mpack_write_nil w = mpack_write_byte_element w 0xc0"

definition mpack_write_true :: "mpack_writer \<Rightarrow> mpack_writer" where
  "mpack_write_true w = mpack_write_byte_element w 0xc3"

definition mpack_write_false :: "mpack_writer \<Rightarrow> mpack_writer" where
  "mpack_write_false w = mpack_write_byte_element w 0xc2"

definition mpack_write_object_bytes :: "mpack_writer \<Rightarrow> u8 list \<Rightarrow> mpack_writer" where
  "mpack_write_object_bytes w data = mpack_write_native w data"

definition mpack_write_u8 :: "mpack_writer \<Rightarrow> u8 \<Rightarrow> mpack_writer" where
  "mpack_write_u8 w value =
     (if value \<le> 127 then mpack_write_native w (mpack_encode_fixuint value)
      else mpack_write_native w (mpack_encode_u8 value))"

definition mpack_write_u16 :: "mpack_writer \<Rightarrow> u16 \<Rightarrow> mpack_writer" where
  "mpack_write_u16 w value =
     (if value \<le> 127 then mpack_write_native w (mpack_encode_fixuint (ucast value))
      else if value \<le> 0xFF then mpack_write_native w (mpack_encode_u8 (ucast value))
      else mpack_write_native w (mpack_encode_u16 value))"

definition mpack_write_i8 :: "mpack_writer \<Rightarrow> u8 \<Rightarrow> mpack_writer" where
  "mpack_write_i8 w value =
     (if - 32 \<le> sint value then mpack_write_native w (mpack_encode_fixint value)
      else mpack_write_native w (mpack_encode_i8 value))"

definition mpack_write_i16 :: "mpack_writer \<Rightarrow> u16 \<Rightarrow> mpack_writer" where
  "mpack_write_i16 w value =
     (if - 32 \<le> sint value then
        (if sint value \<le> 127 then mpack_write_native w (mpack_encode_fixint (ucast value))
         else if sint value \<le> 0xFF then mpack_write_native w (mpack_encode_u8 (ucast value))
         else mpack_write_native w (mpack_encode_u16 value))
      else if - (2 ^ 7) \<le> sint value then mpack_write_native w (mpack_encode_i8 (ucast value))
      else mpack_write_native w (mpack_encode_i16 value))"

definition mpack_write_i64 :: "mpack_writer \<Rightarrow> u64 \<Rightarrow> mpack_writer" where
  "mpack_write_i64 w value =
     (if - 32 \<le> sint value then
        (if sint value \<le> 127 then mpack_write_native w (mpack_encode_fixint (ucast value))
         else if sint value \<le> 0xFF then mpack_write_native w (mpack_encode_u8 (ucast value))
         else if sint value \<le> 0xFFFF then mpack_write_native w (mpack_encode_u16 (ucast value))
         else if sint value \<le> 0xFFFFFFFF then mpack_write_native w (mpack_encode_u32 (ucast value))
         else mpack_write_native w (mpack_encode_u64 value))
      else if - (2 ^ 7) \<le> sint value then mpack_write_native w (mpack_encode_i8 (ucast value))
      else if - (2 ^ 15) \<le> sint value then mpack_write_native w (mpack_encode_i16 (ucast value))
      else if - (2 ^ 31) \<le> sint value then mpack_write_native w (mpack_encode_i32 (ucast value))
      else mpack_write_native w (mpack_encode_i64 value))"

definition mpack_write_int :: "mpack_writer \<Rightarrow> u64 \<Rightarrow> mpack_writer" where
  "mpack_write_int w value = mpack_write_i64 w value"

definition mpack_write_uint :: "mpack_writer \<Rightarrow> u64 \<Rightarrow> mpack_writer" where
  "mpack_write_uint w value = mpack_write_u64 w value"

definition mpack_write_double :: "mpack_writer \<Rightarrow> u64 \<Rightarrow> mpack_writer" where
  "mpack_write_double w bits = mpack_write_native w (mpack_encode_double bits)"

definition mpack_start_str_notrack :: "mpack_writer \<Rightarrow> u32 \<Rightarrow> mpack_writer" where
  "mpack_start_str_notrack w count =
     (if count \<le> 31 then mpack_write_native w (mpack_encode_fixstr (ucast count))
      else if count \<le> 0xFF then mpack_write_native w (mpack_encode_str8 (ucast count))
      else if count \<le> 0xFFFF then mpack_write_native w (mpack_encode_str16 (ucast count))
      else mpack_write_native w (mpack_encode_str32 count))"

definition mpack_start_bin_notrack :: "mpack_writer \<Rightarrow> u32 \<Rightarrow> mpack_writer" where
  "mpack_start_bin_notrack w count =
     (if count \<le> 0xFF then mpack_write_native w (mpack_encode_bin8 (ucast count))
      else if count \<le> 0xFFFF then mpack_write_native w (mpack_encode_bin16 (ucast count))
      else mpack_write_native w (mpack_encode_bin32 count))"

definition mpack_start_str :: "mpack_writer \<Rightarrow> u32 \<Rightarrow> mpack_writer" where
  "mpack_start_str w count = mpack_start_str_notrack w count"

definition mpack_start_bin :: "mpack_writer \<Rightarrow> u32 \<Rightarrow> mpack_writer" where
  "mpack_start_bin w count = mpack_start_bin_notrack w count"

definition mpack_write_bytes :: "mpack_writer \<Rightarrow> u8 list \<Rightarrow> mpack_writer" where
  "mpack_write_bytes w data = mpack_write_native w data"

text \<open>\<open>data\<close> has \<open>count\<close> bytes, a 32-bit number.\<close>

definition mpack_write_bin :: "mpack_writer \<Rightarrow> u8 list \<Rightarrow> mpack_writer" where
  "mpack_write_bin w data =
     mpack_write_bytes (mpack_start_bin w (word_of_nat (length data))) data"

definition mpack_write_cstr_or_nil :: "mpack_writer \<Rightarrow> u8 list option \<Rightarrow> mpack_writer" where
  "mpack_write_cstr_or_nil w s =
     (case s of Some bs \<Rightarrow> mpack_write_cstr w bs | None \<Rightarrow> mpack_write_nil w)"

definition mpack_write_utf8 :: "mpack_writer \<Rightarrow> u8 list \<Rightarrow> mpack_writer" where
  "mpack_write_utf8 w s =
     (if \<not> mpack_utf8_check s then mpack_writer_flag_error w mpack_error_invalid
      else mpack_write_str w s)"

definition mpack_write_utf8_cstr :: "mpack_writer \<Rightarrow> u8 list \<Rightarrow> mpack_writer" where
  "mpack_write_utf8_cstr w bs =
     (let data = cstr bs in
      if length data > 0xFFFFFFFF then mpack_writer_flag_error w mpack_error_invalid
      else mpack_write_utf8 w data)"

definition mpack_write_utf8_cstr_or_nil :: "mpack_writer \<Rightarrow> u8 list option \<Rightarrow> mpack_writer" where
  "mpack_write_utf8_cstr_or_nil w s =
     (case s of Some bs \<Rightarrow> mpack_write_utf8_cstr w bs | None \<Rightarrow> mpack_write_nil w)"

definition mpack_write_tag :: "mpack_writer \<Rightarrow> mpack_tag \<Rightarrow> mpack_writer" where
  "mpack_write_tag w value =
     (case value of
        TagMissing \<Rightarrow> mpack_writer_flag_error w mpack_error_bug
      | TagNil \<Rightarrow> mpack_write_nil w
      | TagBool b \<Rightarrow> mpack_write_bool w b
      | TagInt i \<Rightarrow> mpack_write_int w i
      | TagUint u \<Rightarrow> mpack_write_uint w u
      | TagFloat f \<Rightarrow> mpack_write_float w f
      | TagDouble d \<Rightarrow> mpack_write_double w d
      | TagStr l \<Rightarrow> mpack_start_str w l
      | TagBin l \<Rightarrow> mpack_start_bin w l
      | TagArray n \<Rightarrow> mpack_start_array w n
      | TagMap n \<Rightarrow> mpack_start_map w n)"

section \<open>Integers\<close>

text \<open>The shortest encoding of an integer, which all eight write functions produce.\<close>

definition int_bytes :: "int \<Rightarrow> u8 list" where
  "int_bytes z =
     (if - 32 \<le> z then
        (if z \<le> 127 then [word_of_int z]
         else if z \<le> 0xFF then [0xcc, word_of_int z]
         else if z \<le> 0xFFFF then 0xcd # mpack_store_u16 (word_of_int z)
         else if z \<le> 0xFFFFFFFF then 0xce # mpack_store_u32 (word_of_int z)
         else 0xcf # mpack_store_u64 (word_of_int z))
      else if - (2 ^ 7) \<le> z then [0xd0, word_of_int z]
      else if - (2 ^ 15) \<le> z then 0xd1 # mpack_store_u16 (word_of_int z)
      else if - (2 ^ 31) \<le> z then 0xd2 # mpack_store_u32 (word_of_int z)
      else 0xd3 # mpack_store_u64 (word_of_int z))"

lemmas int_writer_defs =
  mpack_write_u8_def mpack_write_u16_def mpack_write_u32_def mpack_write_u64_def
  mpack_write_i8_def mpack_write_i16_def mpack_write_i32_def mpack_write_i64_def
  mpack_encode_fixuint_def mpack_encode_fixint_def mpack_encode_u8_def mpack_encode_u16_def
  mpack_encode_u32_def mpack_encode_u64_def mpack_encode_i8_def mpack_encode_i16_def
  mpack_encode_i32_def mpack_encode_i64_def

lemma int_bytes_nonneg:
  "0 \<le> z \<Longrightarrow> int_bytes z =
     (if z \<le> 127 then [word_of_int z]
      else if z \<le> 0xFF then [0xcc, word_of_int z]
      else if z \<le> 0xFFFF then 0xcd # mpack_store_u16 (word_of_int z)
      else if z \<le> 0xFFFFFFFF then 0xce # mpack_store_u32 (word_of_int z)
      else 0xcf # mpack_store_u64 (word_of_int z))"
  by (simp add: int_bytes_def)

lemma scast_narrow:
  "(scast (b :: u16) :: u8) = ucast b"
  "(scast (c :: u32) :: u8) = ucast c" "(scast c :: u16) = ucast c"
  "(scast (d :: u64) :: u8) = ucast d" "(scast d :: u16) = ucast d" "(scast d :: u32) = ucast d"
  by (simp_all flip: word_of_sint_narrow)

lemma uint_bound:
  "uint (a :: u8) \<le> 0xFF" "uint (b :: u16) \<le> 0xFFFF" "uint (c :: u32) \<le> 0xFFFFFFFF"
  using uint_bounded [of a] uint_bounded [of b] uint_bounded [of c] by simp_all

lemma sint_bound:
  "- (2 ^ 7) \<le> sint (a :: u8)" "sint a \<le> 127" "- (2 ^ 15) \<le> sint (b :: u16)" "sint b \<le> 0x7FFF"
  "- (2 ^ 31) \<le> sint (c :: u32)" "sint c \<le> 0x7FFFFFFF"
  "- (2 ^ 63) \<le> sint (d :: u64)" "sint d \<le> 2 ^ 63 - 1"
  using sint_range_size [of a] sint_range_size [of b] sint_range_size [of c] sint_range_size [of d]
  by (simp_all add: word_size)

lemma unsigned_writers:
  "mpack_write_u8 w a = mpack_write_native w (int_bytes (uint a))"
  "mpack_write_u16 w b = mpack_write_native w (int_bytes (uint b))"
  "mpack_write_u32 w c = mpack_write_native w (int_bytes (uint c))"
  "mpack_write_u64 w d = mpack_write_native w (int_bytes (uint d))"
  using uint_bound(1) [of a] uint_bound(2) [of b] uint_bound(3) [of c]
  by (simp_all add: int_bytes_nonneg int_writer_defs word_le_def)

lemma signed_writers:
  "mpack_write_i8 w a = mpack_write_native w (int_bytes (sint a))"
  "mpack_write_i16 w b = mpack_write_native w (int_bytes (sint b))"
  "mpack_write_i32 w c = mpack_write_native w (int_bytes (sint c))"
  "mpack_write_i64 w d = mpack_write_native w (int_bytes (sint d))"
  using sint_bound(1,2) [of a] sint_bound(3,4) [of b] sint_bound(5,6) [of c]
  by (simp_all add: int_bytes_def int_writer_defs scast_narrow)

text \<open>The tag of an integer that was written.\<close>

definition int_tag :: "int \<Rightarrow> mpack_tag" where
  "int_tag z = (if 0 \<le> z then TagUint (word_of_int z) else TagInt (word_of_int z))"

lemma uint_of_small:
  "0 \<le> z \<Longrightarrow> z \<le> 0xFF \<Longrightarrow> uint (word_of_int z :: u8) = z"
  "0 \<le> z \<Longrightarrow> z \<le> 0xFFFF \<Longrightarrow> uint (word_of_int z :: u16) = z"
  "0 \<le> z \<Longrightarrow> z \<le> 0xFFFFFFFF \<Longrightarrow> uint (word_of_int z :: u32) = z"
  by (simp_all add: uint_word_of_int)

lemma ucast_of_small:
  "0 \<le> z \<Longrightarrow> z \<le> 0xFF \<Longrightarrow> (ucast (word_of_int z :: u8) :: u64) = word_of_int z"
  "0 \<le> z \<Longrightarrow> z \<le> 0xFFFF \<Longrightarrow> (ucast (word_of_int z :: u16) :: u64) = word_of_int z"
  "0 \<le> z \<Longrightarrow> z \<le> 0xFFFFFFFF \<Longrightarrow> (ucast (word_of_int z :: u32) :: u64) = word_of_int z"
  by (simp_all only: ucast_eq uint_of_small)

lemma scast_of_small:
  "- (2 ^ 7) \<le> z \<Longrightarrow> z < 2 ^ 7 \<Longrightarrow> (scast (word_of_int z :: u8) :: u64) = word_of_int z"
  "- (2 ^ 15) \<le> z \<Longrightarrow> z < 2 ^ 15 \<Longrightarrow> (scast (word_of_int z :: u16) :: u64) = word_of_int z"
  "- (2 ^ 31) \<le> z \<Longrightarrow> z < 2 ^ 31 \<Longrightarrow> (scast (word_of_int z :: u32) :: u64) = word_of_int z"
  by (simp_all only: scast_eq sint_of_int_small sint_word_of_int_i32)

lemma fixint_byte:
  assumes "- 32 \<le> z" "z < 0"
  shows "uint (word_of_int z :: u8) = z + 256"
proof -
  have "z mod 256 = (z + 256) mod 256" by simp
  also have "\<dots> = z + 256" using assms by (intro mod_pos_pos_trivial) simp_all
  finally show ?thesis by (simp add: uint_word_of_int)
qed

lemma parse_int_bytes:
  assumes "rdata r = int_bytes z @ rest"
  shows "mpack_parse_tag r = (r, int_tag z, length (int_bytes z))"
proof -
  consider "0 \<le> z" "z \<le> 127" | "- 32 \<le> z" "z < 0" | "127 < z" "z \<le> 0xFF" | "0xFF < z" "z \<le> 0xFFFF"
    | "0xFFFF < z" "z \<le> 0xFFFFFFFF" | "0xFFFFFFFF < z"
    | "- (2 ^ 7) \<le> z" "z < - 32" | "- (2 ^ 15) \<le> z" "z < - (2 ^ 7)"
    | "- (2 ^ 31) \<le> z" "z < - (2 ^ 15)" | "z < - (2 ^ 31)"
    by linarith
  then show ?thesis
    using assms
    by cases (simp_all add: mpack_parse_tag_def mpack_reader_ensure_def parsed_def int_bytes_def
        int_tag_def word_le_def uint_of_small fixint_byte ucast_of_small scast_of_small wire_simps)
qed

section \<open>Every tag that is written is read back\<close>

text \<open>The bytes \<open>mpack_write_tag\<close> puts into a growable writer.\<close>

definition tag_bytes :: "mpack_tag \<Rightarrow> u8 list" where
  "tag_bytes t = wbuf (mpack_write_tag mpack_writer_init_growable t)"

lemma tag_bytes_simps:
  "tag_bytes TagMissing = []"
  "tag_bytes TagNil = [0xc0]"
  "tag_bytes (TagBool b) = [0xc2 OR (if b then 1 else 0)]"
  "tag_bytes (TagInt i) = int_bytes (sint i)"
  "tag_bytes (TagUint u) = int_bytes (uint u)"
  "tag_bytes (TagFloat f) = 0xca # mpack_store_u32 f"
  "tag_bytes (TagDouble d) = 0xcb # mpack_store_u64 d"
  "tag_bytes (TagStr l) =
     (if l \<le> 31 then [0xa0 OR ucast l] else if l \<le> 0xFF then [0xd9, ucast l]
      else if l \<le> 0xFFFF then 0xda # mpack_store_u16 (ucast l) else 0xdb # mpack_store_u32 l)"
  "tag_bytes (TagBin l) =
     (if l \<le> 0xFF then [0xc4, ucast l]
      else if l \<le> 0xFFFF then 0xc5 # mpack_store_u16 (ucast l) else 0xc6 # mpack_store_u32 l)"
  "tag_bytes (TagArray n) =
     (if n \<le> 15 then [0x90 OR ucast n] else if n \<le> 0xFFFF then 0xdc # mpack_store_u16 (ucast n)
      else 0xdd # mpack_store_u32 n)"
  "tag_bytes (TagMap n) =
     (if n \<le> 15 then [0x80 OR ucast n] else if n \<le> 0xFFFF then 0xde # mpack_store_u16 (ucast n)
      else 0xdf # mpack_store_u32 n)"
  by (simp_all add: tag_bytes_def mpack_write_tag_def mpack_writer_flag_error_def mpack_write_nil_def
      mpack_write_byte_element_def mpack_write_bool_def mpack_write_int_def mpack_write_uint_def
      mpack_write_float_def mpack_encode_float_def mpack_write_double_def mpack_encode_double_def
      signed_writers(4) unsigned_writers(4) mpack_start_str_def mpack_start_bin_def mpack_start_str_notrack_def mpack_start_bin_notrack_def
      mpack_start_array_def mpack_write_array_notrack_def mpack_start_map_def mpack_write_map_notrack_def mpack_encode_fixstr_def mpack_encode_str8_def
      mpack_encode_str16_def mpack_encode_str32_def mpack_encode_bin8_def mpack_encode_bin16_def
      mpack_encode_bin32_def mpack_encode_fixarray_def mpack_encode_array16_def
      mpack_encode_array32_def mpack_encode_fixmap_def mpack_encode_map16_def mpack_encode_map32_def
      mpack_write_native_growable)

lemma write_tag_growable:
  "wcap w = None \<Longrightarrow> t \<noteq> TagMissing \<Longrightarrow> mpack_write_tag w t = w\<lparr>wbuf := wbuf w @ tag_bytes t\<rparr>"
  by (cases t) (simp_all add: tag_bytes_def mpack_write_tag_def mpack_write_nil_def
      mpack_write_byte_element_def mpack_write_bool_def mpack_write_int_def mpack_write_uint_def
      mpack_write_float_def mpack_write_double_def signed_writers(4) unsigned_writers(4)
      mpack_start_str_def mpack_start_bin_def mpack_start_str_notrack_def mpack_start_bin_notrack_def mpack_start_array_def mpack_write_array_notrack_def mpack_start_map_def mpack_write_map_notrack_def
      mpack_write_native_growable)

text \<open>The one-byte tags of short strings and maps.\<close>

definition fix_tag_ok :: "u32 \<Rightarrow> bool" where
  "fix_tag_ok n \<longleftrightarrow>
     (let t = 0xa0 OR ucast n :: u8 in
        ucast (t AND 0x1f) = n \<and> \<not> t \<le> 0x9f \<and> \<not> t \<le> 0x8f \<and> \<not> t \<le> 0x7f \<and> \<not> 0xe0 \<le> t \<and> t \<le> 0xbf) \<and>
     (n \<le> 15 \<longrightarrow> (let t = 0x80 OR ucast n :: u8 in
        ucast (t AND 0x0f) = n \<and> \<not> t \<le> 0x7f \<and> \<not> 0xe0 \<le> t \<and> t \<le> 0x8f)) \<and>
     (n \<le> 15 \<longrightarrow> (let t = 0x90 OR ucast n :: u8 in
        ucast (t AND 0x0f) = n \<and> \<not> t \<le> 0x8f \<and> \<not> t \<le> 0x7f \<and> \<not> 0xe0 \<le> t \<and> t \<le> 0x9f))"

lemma fix_tag: assumes "n \<le> 31" shows "fix_tag_ok n"
proof -
  have all: "list_all (\<lambda>k. fix_tag_ok (word_of_nat k)) [0..<32]" by code_simp
  have "unat n \<in> set [0..<32]" using assms by (simp add: word_le_nat_alt)
  with all have "fix_tag_ok (word_of_nat (unat n))" by (simp only: list_all_iff)
  then show ?thesis by simp
qed

lemma ucast_narrow_widen:
  "l \<le> 0xFF \<Longrightarrow> (ucast (ucast (l :: u32) :: u8) :: u32) = l"
  "l \<le> 0xFFFF \<Longrightarrow> (ucast (ucast (l :: u32) :: u16) :: u32) = l"
  by (simp_all add: word_le_nat_alt word_unat_eq_iff)

lemma parse_tag_bytes:
  assumes "rdata r = tag_bytes t @ rest" and "t \<noteq> TagMissing"
  shows "mpack_parse_tag r = (r, unsigned_tag t, length (tag_bytes t))"
proof -
  have le: "n \<le> 31" if "n \<le> 15" for n :: u32
    using that by (simp add: word_le_nat_alt)
  note defs = mpack_parse_tag_def mpack_reader_ensure_def parsed_def tag_bytes_simps unsigned_tag_def
    ucast_narrow_widen wire_simps
  show ?thesis
  proof (cases t)
    case (TagInt i)
    with assms(1) parse_int_bytes [of r "sint i"] show ?thesis
      by (simp add: tag_bytes_simps int_tag_def unsigned_tag_def)
  next
    case (TagUint u)
    with assms(1) parse_int_bytes [of r "uint u"] show ?thesis
      by (simp add: tag_bytes_simps int_tag_def unsigned_tag_def)
  next
    case (TagStr l)
    with assms(1) fix_tag [of l] show ?thesis
      by (auto simp: defs fix_tag_ok_def Let_def)
  next
    case (TagArray l)
    with assms(1) fix_tag [of l] show ?thesis
      by (auto simp: defs fix_tag_ok_def Let_def le)
  next
    case (TagMap l)
    with assms(1) fix_tag [of l] show ?thesis
      by (auto simp: defs fix_tag_ok_def Let_def le)
  qed (use assms in \<open>auto simp: defs\<close>)
qed

lemma tag_bytes_nonempty: "t \<noteq> TagMissing \<Longrightarrow> tag_bytes t \<noteq> []"
  by (cases t) (simp_all add: tag_bytes_simps int_bytes_def)

lemma read_tag_bytes:
  assumes "rerror r = mpack_ok" and "rdata r = tag_bytes t @ rest" and "t \<noteq> TagMissing"
  shows "mpack_read_tag r = (r\<lparr>rdata := rest\<rparr>, unsigned_tag t)"
  using assms by (simp add: mpack_read_tag_def parse_tag_bytes tag_bytes_nonempty)

end
