(* ===== verification/MPackExpect.thy ===== *)
theory MPackExpect
  imports MPackTags
begin

text \<open>
  The expect functions of the MessagePack library under \<open>mpack/\<close> for numbers of every width with
  their ranges and matches, for nil, booleans and compound types and for whole tags, on a reader
  over bytes in memory.  Allocations have a flag that says whether they succeed.

  The lemmas relate them to the write functions of \<open>MPackWriter\<close> and \<open>MPackTags\<close>: a number
  written at any width is read at every width it fits, and a sequence of tags is read back.
\<close>

section \<open>Numbers\<close>

definition mpack_expect_u8 :: "mpack_reader \<Rightarrow> mpack_reader \<times> u8" where
  "mpack_expect_u8 r =
     (case mpack_read_tag r of (r', var) \<Rightarrow>
        let fail = (mpack_reader_flag_error r' mpack_error_type, 0) in
        case var of
          TagUint u \<Rightarrow> if u \<le> 0xFF then (r', ucast u) else fail
        | TagInt i \<Rightarrow> if 0 \<le> sint i \<and> sint i \<le> 0xFF then (r', ucast i) else fail
        | _ \<Rightarrow> fail)"

definition mpack_expect_u16 :: "mpack_reader \<Rightarrow> mpack_reader \<times> u16" where
  "mpack_expect_u16 r =
     (case mpack_read_tag r of (r', var) \<Rightarrow>
        let fail = (mpack_reader_flag_error r' mpack_error_type, 0) in
        case var of
          TagUint u \<Rightarrow> if u \<le> 0xFFFF then (r', ucast u) else fail
        | TagInt i \<Rightarrow> if 0 \<le> sint i \<and> sint i \<le> 0xFFFF then (r', ucast i) else fail
        | _ \<Rightarrow> fail)"

definition mpack_expect_u64 :: "mpack_reader \<Rightarrow> mpack_reader \<times> u64" where
  "mpack_expect_u64 r =
     (case mpack_read_tag r of (r', var) \<Rightarrow>
        let fail = (mpack_reader_flag_error r' mpack_error_type, 0) in
        case var of
          TagUint u \<Rightarrow> (r', u)
        | TagInt i \<Rightarrow> if 0 \<le> sint i then (r', i) else fail
        | _ \<Rightarrow> fail)"

definition mpack_expect_i8 :: "mpack_reader \<Rightarrow> mpack_reader \<times> u8" where
  "mpack_expect_i8 r =
     (case mpack_read_tag r of (r', var) \<Rightarrow>
        let fail = (mpack_reader_flag_error r' mpack_error_type, 0) in
        case var of
          TagUint u \<Rightarrow> if u \<le> 0x7F then (r', ucast u) else fail
        | TagInt i \<Rightarrow> if - (2 ^ 7) \<le> sint i \<and> sint i \<le> 2 ^ 7 - 1 then (r', ucast i) else fail
        | _ \<Rightarrow> fail)"

definition mpack_expect_i16 :: "mpack_reader \<Rightarrow> mpack_reader \<times> u16" where
  "mpack_expect_i16 r =
     (case mpack_read_tag r of (r', var) \<Rightarrow>
        let fail = (mpack_reader_flag_error r' mpack_error_type, 0) in
        case var of
          TagUint u \<Rightarrow> if u \<le> 0x7FFF then (r', ucast u) else fail
        | TagInt i \<Rightarrow> if - (2 ^ 15) \<le> sint i \<and> sint i \<le> 2 ^ 15 - 1 then (r', ucast i) else fail
        | _ \<Rightarrow> fail)"

definition mpack_expect_i64 :: "mpack_reader \<Rightarrow> mpack_reader \<times> u64" where
  "mpack_expect_i64 r =
     (case mpack_read_tag r of (r', var) \<Rightarrow>
        let fail = (mpack_reader_flag_error r' mpack_error_type, 0) in
        case var of
          TagUint u \<Rightarrow> if u \<le> 0x7FFFFFFFFFFFFFFF then (r', u) else fail
        | TagInt i \<Rightarrow> (r', i)
        | _ \<Rightarrow> fail)"

definition mpack_expect_double :: "mpack_reader \<Rightarrow> mpack_reader \<times> fp" where
  "mpack_expect_double r =
     (case mpack_read_tag r of (r', var) \<Rightarrow>
        case var of
          TagUint u \<Rightarrow> (r', fp_of_int round64 (uint u))
        | TagInt i \<Rightarrow> (r', fp_of_int round64 (sint i))
        | TagFloat f \<Rightarrow> (r', float_of_bits f)
        | TagDouble d \<Rightarrow> (r', double_of_bits d)
        | _ \<Rightarrow> (mpack_reader_flag_error r' mpack_error_type, Fin 0))"

definition mpack_expect_float_strict :: "mpack_reader \<Rightarrow> mpack_reader \<times> fp" where
  "mpack_expect_float_strict r =
     (case mpack_read_tag r of (r', var) \<Rightarrow>
        case var of
          TagFloat f \<Rightarrow> (r', float_of_bits f)
        | _ \<Rightarrow> (mpack_reader_flag_error r' mpack_error_type, Fin 0))"

definition mpack_expect_double_strict :: "mpack_reader \<Rightarrow> mpack_reader \<times> fp" where
  "mpack_expect_double_strict r =
     (case mpack_read_tag r of (r', var) \<Rightarrow>
        case var of
          TagFloat f \<Rightarrow> (r', float_of_bits f)
        | TagDouble d \<Rightarrow> (r', double_of_bits d)
        | _ \<Rightarrow> (mpack_reader_flag_error r' mpack_error_type, Fin 0))"

text \<open>
  \<open>MPACK_EXPECT_RANGE_IMPL\<close>, over the function that reads the value and the type's \<open>&lt;\<close>.
\<close>

definition expect_range_impl ::
    "(mpack_reader \<Rightarrow> mpack_reader \<times> 'a) \<Rightarrow> ('a \<Rightarrow> 'a \<Rightarrow> bool) \<Rightarrow> 'a \<Rightarrow> 'a \<Rightarrow> mpack_reader \<Rightarrow>
      mpack_reader \<times> 'a" where
  "expect_range_impl expect lt min_value max_value r =
     (case expect r of (r1, val) \<Rightarrow>
        if rerror r1 \<noteq> mpack_ok then (r1, min_value)
        else if lt val min_value \<or> lt max_value val
        then (mpack_reader_flag_error r1 mpack_error_type, min_value)
        else (r1, val))"

definition sless :: "'a::len word \<Rightarrow> 'a word \<Rightarrow> bool" where
  "sless a b \<longleftrightarrow> sint a < sint b"

definition mpack_expect_u8_range :: "mpack_reader \<Rightarrow> u8 \<Rightarrow> u8 \<Rightarrow> mpack_reader \<times> u8" where
  "mpack_expect_u8_range r mn mx = expect_range_impl mpack_expect_u8 (<) mn mx r"

definition mpack_expect_u16_range :: "mpack_reader \<Rightarrow> u16 \<Rightarrow> u16 \<Rightarrow> mpack_reader \<times> u16" where
  "mpack_expect_u16_range r mn mx = expect_range_impl mpack_expect_u16 (<) mn mx r"

definition mpack_expect_u32_range :: "mpack_reader \<Rightarrow> u32 \<Rightarrow> u32 \<Rightarrow> mpack_reader \<times> u32" where
  "mpack_expect_u32_range r mn mx = expect_range_impl mpack_expect_u32 (<) mn mx r"

definition mpack_expect_u64_range :: "mpack_reader \<Rightarrow> u64 \<Rightarrow> u64 \<Rightarrow> mpack_reader \<times> u64" where
  "mpack_expect_u64_range r mn mx = expect_range_impl mpack_expect_u64 (<) mn mx r"

definition mpack_expect_i8_range :: "mpack_reader \<Rightarrow> u8 \<Rightarrow> u8 \<Rightarrow> mpack_reader \<times> u8" where
  "mpack_expect_i8_range r mn mx = expect_range_impl mpack_expect_i8 sless mn mx r"

definition mpack_expect_i16_range :: "mpack_reader \<Rightarrow> u16 \<Rightarrow> u16 \<Rightarrow> mpack_reader \<times> u16" where
  "mpack_expect_i16_range r mn mx = expect_range_impl mpack_expect_i16 sless mn mx r"

definition mpack_expect_i32_range :: "mpack_reader \<Rightarrow> i32 \<Rightarrow> i32 \<Rightarrow> mpack_reader \<times> i32" where
  "mpack_expect_i32_range r mn mx = expect_range_impl mpack_expect_i32 sless mn mx r"

definition mpack_expect_i64_range :: "mpack_reader \<Rightarrow> u64 \<Rightarrow> u64 \<Rightarrow> mpack_reader \<times> u64" where
  "mpack_expect_i64_range r mn mx = expect_range_impl mpack_expect_i64 sless mn mx r"

definition mpack_expect_u8_max :: "mpack_reader \<Rightarrow> u8 \<Rightarrow> mpack_reader \<times> u8" where
  "mpack_expect_u8_max r mx = mpack_expect_u8_range r 0 mx"

definition mpack_expect_u16_max :: "mpack_reader \<Rightarrow> u16 \<Rightarrow> mpack_reader \<times> u16" where
  "mpack_expect_u16_max r mx = mpack_expect_u16_range r 0 mx"

definition mpack_expect_u32_max :: "mpack_reader \<Rightarrow> u32 \<Rightarrow> mpack_reader \<times> u32" where
  "mpack_expect_u32_max r mx = mpack_expect_u32_range r 0 mx"

definition mpack_expect_u64_max :: "mpack_reader \<Rightarrow> u64 \<Rightarrow> mpack_reader \<times> u64" where
  "mpack_expect_u64_max r mx = mpack_expect_u64_range r 0 mx"

definition mpack_expect_i8_max :: "mpack_reader \<Rightarrow> u8 \<Rightarrow> mpack_reader \<times> u8" where
  "mpack_expect_i8_max r mx = mpack_expect_i8_range r 0 mx"

definition mpack_expect_i16_max :: "mpack_reader \<Rightarrow> u16 \<Rightarrow> mpack_reader \<times> u16" where
  "mpack_expect_i16_max r mx = mpack_expect_i16_range r 0 mx"

definition mpack_expect_i32_max :: "mpack_reader \<Rightarrow> i32 \<Rightarrow> mpack_reader \<times> i32" where
  "mpack_expect_i32_max r mx = mpack_expect_i32_range r 0 mx"

definition mpack_expect_i64_max :: "mpack_reader \<Rightarrow> u64 \<Rightarrow> mpack_reader \<times> u64" where
  "mpack_expect_i64_max r mx = mpack_expect_i64_range r 0 mx"

text \<open>\<open>int\<close> and \<open>unsigned int\<close> have four bytes.\<close>

definition mpack_expect_uint :: "mpack_reader \<Rightarrow> mpack_reader \<times> u32" where
  "mpack_expect_uint r = mpack_expect_u32 r"

definition mpack_expect_uint_range :: "mpack_reader \<Rightarrow> u32 \<Rightarrow> u32 \<Rightarrow> mpack_reader \<times> u32" where
  "mpack_expect_uint_range r mn mx = mpack_expect_u32_range r mn mx"

definition mpack_expect_uint_max :: "mpack_reader \<Rightarrow> u32 \<Rightarrow> mpack_reader \<times> u32" where
  "mpack_expect_uint_max r mx = mpack_expect_uint_range r 0 mx"

definition mpack_expect_int :: "mpack_reader \<Rightarrow> mpack_reader \<times> i32" where
  "mpack_expect_int r = mpack_expect_i32 r"

definition mpack_expect_int_range :: "mpack_reader \<Rightarrow> i32 \<Rightarrow> i32 \<Rightarrow> mpack_reader \<times> i32" where
  "mpack_expect_int_range r mn mx = mpack_expect_i32_range r mn mx"

definition mpack_expect_int_max :: "mpack_reader \<Rightarrow> i32 \<Rightarrow> mpack_reader \<times> i32" where
  "mpack_expect_int_max r mx = mpack_expect_int_range r 0 mx"

definition mpack_expect_float_range :: "mpack_reader \<Rightarrow> fp \<Rightarrow> fp \<Rightarrow> mpack_reader \<times> fp" where
  "mpack_expect_float_range r mn mx = expect_range_impl mpack_expect_float fp_less mn mx r"

definition mpack_expect_double_range :: "mpack_reader \<Rightarrow> fp \<Rightarrow> fp \<Rightarrow> mpack_reader \<times> fp" where
  "mpack_expect_double_range r mn mx = expect_range_impl mpack_expect_double fp_less mn mx r"

definition mpack_expect_map_range :: "mpack_reader \<Rightarrow> u32 \<Rightarrow> u32 \<Rightarrow> mpack_reader \<times> u32" where
  "mpack_expect_map_range r mn mx = expect_range_impl mpack_expect_map (<) mn mx r"

definition mpack_expect_array_range :: "mpack_reader \<Rightarrow> u32 \<Rightarrow> u32 \<Rightarrow> mpack_reader \<times> u32" where
  "mpack_expect_array_range r mn mx = expect_range_impl mpack_expect_array (<) mn mx r"

definition mpack_expect_map_max :: "mpack_reader \<Rightarrow> u32 \<Rightarrow> mpack_reader \<times> u32" where
  "mpack_expect_map_max r max_count = mpack_expect_map_range r 0 max_count"

definition mpack_expect_array_max :: "mpack_reader \<Rightarrow> u32 \<Rightarrow> mpack_reader \<times> u32" where
  "mpack_expect_array_max r max_count = mpack_expect_array_range r 0 max_count"

definition mpack_expect_uint_match :: "mpack_reader \<Rightarrow> u64 \<Rightarrow> mpack_reader" where
  "mpack_expect_uint_match r value =
     (case mpack_expect_u64 r of (r1, v) \<Rightarrow>
        if v \<noteq> value then mpack_reader_flag_error r1 mpack_error_type else r1)"

definition mpack_expect_int_match :: "mpack_reader \<Rightarrow> u64 \<Rightarrow> mpack_reader" where
  "mpack_expect_int_match r value =
     (case mpack_expect_i64 r of (r1, v) \<Rightarrow>
        if v \<noteq> value then mpack_reader_flag_error r1 mpack_error_type else r1)"

section \<open>Nil, booleans and compound types\<close>

definition mpack_expect_type_byte :: "mpack_reader \<Rightarrow> mpack_reader \<times> u32" where
  "mpack_expect_type_byte r = mpack_expect_native 1 (\<lambda>p. ucast (p ! 0)) r"

definition mpack_expect_nil :: "mpack_reader \<Rightarrow> mpack_reader" where
  "mpack_expect_nil r =
     (case mpack_expect_type_byte r of (r1, type) \<Rightarrow>
        if type \<noteq> 0xc0 then mpack_reader_flag_error r1 mpack_error_type else r1)"

definition mpack_expect_bool :: "mpack_reader \<Rightarrow> mpack_reader \<times> bool" where
  "mpack_expect_bool r =
     (case mpack_expect_type_byte r of (r1, type) \<Rightarrow>
        (if type AND NOT 1 \<noteq> 0xc2 then mpack_reader_flag_error r1 mpack_error_type else r1,
         type AND 1 \<noteq> 0))"

definition mpack_expect_true :: "mpack_reader \<Rightarrow> mpack_reader" where
  "mpack_expect_true r =
     (case mpack_expect_bool r of (r1, b) \<Rightarrow>
        if b \<noteq> True then mpack_reader_flag_error r1 mpack_error_type else r1)"

definition mpack_expect_false :: "mpack_reader \<Rightarrow> mpack_reader" where
  "mpack_expect_false r =
     (case mpack_expect_bool r of (r1, b) \<Rightarrow>
        if b \<noteq> False then mpack_reader_flag_error r1 mpack_error_type else r1)"

definition mpack_expect_map_match :: "mpack_reader \<Rightarrow> u32 \<Rightarrow> mpack_reader" where
  "mpack_expect_map_match r count =
     (case mpack_expect_map r of (r1, n) \<Rightarrow>
        if n \<noteq> count then mpack_reader_flag_error r1 mpack_error_type else r1)"

definition mpack_expect_array_match :: "mpack_reader \<Rightarrow> u32 \<Rightarrow> mpack_reader" where
  "mpack_expect_array_match r count =
     (case mpack_expect_array r of (r1, n) \<Rightarrow>
        if n \<noteq> count then mpack_reader_flag_error r1 mpack_error_type else r1)"

text \<open>The result and the count these functions store.\<close>

definition mpack_expect_map_or_nil :: "mpack_reader \<Rightarrow> mpack_reader \<times> bool \<times> u32" where
  "mpack_expect_map_or_nil r =
     (case mpack_read_tag r of (r1, var) \<Rightarrow>
        case var of
          TagNil \<Rightarrow> (r1, False, 0)
        | TagMap n \<Rightarrow> (r1, True, n)
        | _ \<Rightarrow> (mpack_reader_flag_error r1 mpack_error_type, False, 0))"

definition mpack_expect_map_max_or_nil :: "mpack_reader \<Rightarrow> u32 \<Rightarrow> mpack_reader \<times> bool \<times> u32" where
  "mpack_expect_map_max_or_nil r max_count =
     (case mpack_expect_map_or_nil r of (r1, has_map, count) \<Rightarrow>
        if has_map \<and> max_count < count then (mpack_reader_flag_error r1 mpack_error_type, False, 0)
        else (r1, has_map, count))"

definition mpack_expect_array_or_nil :: "mpack_reader \<Rightarrow> mpack_reader \<times> bool \<times> u32" where
  "mpack_expect_array_or_nil r =
     (case mpack_read_tag r of (r1, var) \<Rightarrow>
        case var of
          TagNil \<Rightarrow> (r1, False, 0)
        | TagArray n \<Rightarrow> (r1, True, n)
        | _ \<Rightarrow> (mpack_reader_flag_error r1 mpack_error_type, False, 0))"

definition mpack_expect_array_max_or_nil :: "mpack_reader \<Rightarrow> u32 \<Rightarrow> mpack_reader \<times> bool \<times> u32" where
  "mpack_expect_array_max_or_nil r max_count =
     (case mpack_expect_array_or_nil r of (r1, has_array, count) \<Rightarrow>
        if has_array \<and> max_count < count then (mpack_reader_flag_error r1 mpack_error_type, False, 0)
        else (r1, has_array, count))"

text \<open>The size of the block that is allocated, and the count stored.\<close>

definition mpack_expect_array_alloc_impl ::
    "bool \<Rightarrow> mpack_reader \<Rightarrow> u64 \<Rightarrow> u32 \<Rightarrow> bool \<Rightarrow> mpack_reader \<times> u64 option \<times> u32" where
  "mpack_expect_array_alloc_impl mem r element_size max_count allow_nil =
     (case (if allow_nil
            then case mpack_expect_array_max_or_nil r max_count of (r1, _, count) \<Rightarrow> (r1, count)
            else mpack_expect_array_max r max_count) of (r1, count) \<Rightarrow>
        if rerror r1 \<noteq> mpack_ok then (r1, None, 0)
        else if count = 0 then (r1, None, 0)
        else if \<not> mem then (mpack_reader_flag_error r1 mpack_error_memory, None, 0)
        else (r1, Some (element_size * ucast count), count))"

section \<open>Integers of any width\<close>

text \<open>The eight integer types, their bounds, and the functions of the library for each.\<close>

datatype int_type = U8 | U16 | U32 | U64 | I8 | I16 | I32 | I64

fun int_min :: "int_type \<Rightarrow> int" where
  "int_min I8 = - (2 ^ 7)"
| "int_min I16 = - (2 ^ 15)"
| "int_min I32 = - (2 ^ 31)"
| "int_min I64 = - (2 ^ 63)"
| "int_min _ = 0"

fun int_max :: "int_type \<Rightarrow> int" where
  "int_max U8 = 2 ^ 8 - 1"
| "int_max U16 = 2 ^ 16 - 1"
| "int_max U32 = 2 ^ 32 - 1"
| "int_max U64 = 2 ^ 64 - 1"
| "int_max I8 = 2 ^ 7 - 1"
| "int_max I16 = 2 ^ 15 - 1"
| "int_max I32 = 2 ^ 31 - 1"
| "int_max I64 = 2 ^ 63 - 1"

fun write_int :: "int_type \<Rightarrow> int \<Rightarrow> mpack_writer \<Rightarrow> mpack_writer" where
  "write_int U8 z w = mpack_write_u8 w (word_of_int z)"
| "write_int U16 z w = mpack_write_u16 w (word_of_int z)"
| "write_int U32 z w = mpack_write_u32 w (word_of_int z)"
| "write_int U64 z w = mpack_write_u64 w (word_of_int z)"
| "write_int I8 z w = mpack_write_i8 w (word_of_int z)"
| "write_int I16 z w = mpack_write_i16 w (word_of_int z)"
| "write_int I32 z w = mpack_write_i32 w (word_of_int z)"
| "write_int I64 z w = mpack_write_i64 w (word_of_int z)"

fun expect_int :: "int_type \<Rightarrow> mpack_reader \<Rightarrow> mpack_reader \<times> int" where
  "expect_int U8 r = map_prod id uint (mpack_expect_u8 r)"
| "expect_int U16 r = map_prod id uint (mpack_expect_u16 r)"
| "expect_int U32 r = map_prod id uint (mpack_expect_u32 r)"
| "expect_int U64 r = map_prod id uint (mpack_expect_u64 r)"
| "expect_int I8 r = map_prod id sint (mpack_expect_i8 r)"
| "expect_int I16 r = map_prod id sint (mpack_expect_i16 r)"
| "expect_int I32 r = map_prod id sint (mpack_expect_i32 r)"
| "expect_int I64 r = map_prod id sint (mpack_expect_i64 r)"

lemma uint_of_int_small:
  "0 \<le> z \<Longrightarrow> z < 2 ^ 8 \<Longrightarrow> uint (word_of_int z :: u8) = z"
  "0 \<le> z \<Longrightarrow> z < 2 ^ 16 \<Longrightarrow> uint (word_of_int z :: u16) = z"
  "0 \<le> z \<Longrightarrow> z < 2 ^ 32 \<Longrightarrow> uint (word_of_int z :: u32) = z"
  "0 \<le> z \<Longrightarrow> z < 2 ^ 64 \<Longrightarrow> uint (word_of_int z :: u64) = z"
  by (simp_all add: uint_word_of_int)

lemma sint_of_int_any:
  "- (2 ^ 7) \<le> z \<Longrightarrow> z < 2 ^ 7 \<Longrightarrow> sint (word_of_int z :: u8) = z"
  "- (2 ^ 15) \<le> z \<Longrightarrow> z < 2 ^ 15 \<Longrightarrow> sint (word_of_int z :: u16) = z"
  "- (2 ^ 31) \<le> z \<Longrightarrow> z < 2 ^ 31 \<Longrightarrow> sint (word_of_int z :: u32) = z"
  "- (2 ^ 63) \<le> z \<Longrightarrow> z < 2 ^ 63 \<Longrightarrow> sint (word_of_int z :: u64) = z"
  by (simp_all add: sint_sbintrunc' signed_take_bit_int_eq_self)

lemma write_int_bytes:
  "int_min a \<le> z \<Longrightarrow> z \<le> int_max a \<Longrightarrow> wbuf (write_int a z mpack_writer_init_growable) = int_bytes z"
  by (cases a) (simp_all add: unsigned_writers signed_writers mpack_write_native_growable
      uint_of_int_small sint_of_int_any)

lemma int_bounds: "- (2 ^ 63) \<le> int_min a" "int_max a < 2 ^ 64"
  by (cases a; simp)+

lemma read_int_bytes:
  "rerror r = mpack_ok \<Longrightarrow> rdata r = int_bytes z @ rest \<Longrightarrow> mpack_read_tag r = (r\<lparr>rdata := rest\<rparr>, int_tag z)"
  by (simp add: mpack_read_tag_def parse_int_bytes int_bytes_def)

lemma ucast_of_int:
  "(ucast (word_of_int z :: u64) :: u8) = word_of_int z" "(ucast (word_of_int z :: u64) :: u16) = word_of_int z"
  "(ucast (word_of_int z :: u64) :: u32) = word_of_int z"
  by (rule bit_word_eqI; simp add: bit_simps)+

lemmas expect_int_defs =
  mpack_expect_u8_def mpack_expect_u16_def mpack_expect_u32_def mpack_expect_u64_def
  mpack_expect_i8_def mpack_expect_i16_def mpack_expect_i32_def mpack_expect_i64_def

lemma expect_int_nonneg:
  assumes "rerror r = mpack_ok" and "rdata r = int_bytes z @ rest" and "0 \<le> z" and "z < 2 ^ 64"
  shows "expect_int b r = (if z \<le> int_max b then (r\<lparr>rdata := rest\<rparr>, z)
    else (r\<lparr>rdata := [], rerror := mpack_error_type\<rparr>, 0))"
proof -
  have u: "uint (word_of_int z :: u64) = z" using assms(3,4) by (simp add: uint_of_int_small)
  show ?thesis
    using assms(1,3,4) read_int_bytes [OF assms(1,2)]
    by (cases b) (simp_all add: expect_int_defs int_tag_def Let_def word_le_def u ucast_of_int
        uint_of_int_small sint_of_int_any mpack_reader_flag_error_def)
qed

lemma expect_int_neg:
  assumes "rerror r = mpack_ok" and "rdata r = int_bytes z @ rest" and "z < 0" and "- (2 ^ 63) \<le> z"
  shows "expect_int b r = (if int_min b \<le> z then (r\<lparr>rdata := rest\<rparr>, z)
    else (r\<lparr>rdata := [], rerror := mpack_error_type\<rparr>, 0))"
proof -
  have i: "sint (word_of_int z :: u64) = z" using assms(3,4) by (simp add: sint_of_int_any)
  show ?thesis
    using assms(1,3,4) read_int_bytes [OF assms(1,2)]
    by (cases b) (simp_all add: expect_int_defs int_tag_def Let_def i ucast_of_int
        sint_of_int_any mpack_reader_flag_error_def)
qed

text \<open>C6.
  An integer that was written by the function for any of the eight types is read by the function
  for any of them, whatever the two widths and signs are: the reader returns it and leaves the
  bytes that follow when the type it expects contains it, and otherwise flags a type error.
\<close>

theorem integers_any_width:
  assumes "int_min a \<le> z" and "z \<le> int_max a" and "rerror r = mpack_ok"
    and "rdata r = wbuf (write_int a z mpack_writer_init_growable) @ rest"
  shows "expect_int b r =
    (if int_min b \<le> z \<and> z \<le> int_max b then (r\<lparr>rdata := rest\<rparr>, z)
     else (r\<lparr>rdata := [], rerror := mpack_error_type\<rparr>, 0))"
proof -
  have data: "rdata r = int_bytes z @ rest" using assms by (simp add: write_int_bytes)
  have z: "- (2 ^ 63) \<le> z" "z < 2 ^ 64" using assms(1,2) int_bounds [of a] by linarith+
  have min: "int_min b \<le> 0" and max: "0 \<le> int_max b" by (cases b; simp)+
  show ?thesis
  proof (cases "0 \<le> z")
    case True
    with min expect_int_nonneg [OF assms(3) data True z(2)] show ?thesis by simp
  next
    case False
    then have "z \<le> int_max b" "z < 0" using max by linarith+
    with expect_int_neg [OF assms(3) data _ z(1)] show ?thesis by simp
  qed
qed

theorem integers_any_width_witness:
  "expect_int I64 (mpack_reader_init_data (wbuf (write_int U16 300 mpack_writer_init_growable) @ [7])) =
     (mpack_reader_init_data [7], 300) \<and>
   expect_int U8 (mpack_reader_init_data (wbuf (write_int I16 (- 300) mpack_writer_init_growable) @ [7])) =
     (\<lparr>rdata = [], rerror = mpack_error_type\<rparr>, 0)"
proof
  show "expect_int I64 (mpack_reader_init_data (wbuf (write_int U16 300 mpack_writer_init_growable) @ [7])) =
      (mpack_reader_init_data [7], 300)"
    by (subst integers_any_width [where a = U16 and z = 300 and rest = "[7]"])
      (simp_all add: mpack_reader_init_data_def)
  show "expect_int U8 (mpack_reader_init_data (wbuf (write_int I16 (- 300) mpack_writer_init_growable) @ [7])) =
      (\<lparr>rdata = [], rerror = mpack_error_type\<rparr>, 0)"
    by (subst integers_any_width [where a = I16 and z = "- 300" and rest = "[7]"])
      (simp_all add: mpack_reader_init_data_def)
qed

section \<open>Sequences of tags\<close>

definition mpack_expect_tag :: "mpack_reader \<Rightarrow> mpack_tag \<Rightarrow> mpack_reader" where
  "mpack_expect_tag r expected =
     (case mpack_read_tag r of (r1, actual) \<Rightarrow>
        if \<not> mpack_tag_equal actual expected then mpack_reader_flag_error r1 mpack_error_type else r1)"

text \<open>Reading a number of tags.\<close>

fun read_tags :: "nat \<Rightarrow> mpack_reader \<Rightarrow> mpack_reader \<times> mpack_tag list" where
  "read_tags 0 r = (r, [])"
| "read_tags (Suc n) r =
     (case mpack_read_tag r of (r1, t) \<Rightarrow> case read_tags n r1 of (r2, ts) \<Rightarrow> (r2, t # ts))"

lemma write_tags_growable:
  "wcap w = None \<Longrightarrow> TagMissing \<notin> set ts \<Longrightarrow>
     foldl mpack_write_tag w ts = w\<lparr>wbuf := wbuf w @ concat (map tag_bytes ts)\<rparr>"
  by (induction ts arbitrary: w) (auto simp: write_tag_growable)

lemma tag_equal_unsigned: "mpack_tag_equal (unsigned_tag t) t"
  by (simp add: mpack_tag_equal_def mpack_tag_cmp_key cmp_of_order(1) tag_key_eq_iff unsigned_tag_idem)

lemma read_tags_bytes:
  "rerror r = mpack_ok \<Longrightarrow> TagMissing \<notin> set ts \<Longrightarrow> rdata r = concat (map tag_bytes ts) @ rest \<Longrightarrow>
     read_tags (length ts) r = (r\<lparr>rdata := rest\<rparr>, map unsigned_tag ts) \<and>
     foldl mpack_expect_tag r ts = r\<lparr>rdata := rest\<rparr>"
proof (induction ts arbitrary: r)
  case (Cons t ts)
  let ?r = "r\<lparr>rdata := concat (map tag_bytes ts) @ rest\<rparr>"
  from Cons.prems have t: "mpack_read_tag r = (?r, unsigned_tag t)"
    by (intro read_tag_bytes) auto
  then have "mpack_expect_tag r t = ?r" by (simp add: mpack_expect_tag_def tag_equal_unsigned)
  with Cons.IH [of ?r] Cons.prems t show ?case by simp
qed simp

text \<open>C7.
  Whatever tags are written one after the other, reading as many tags yields them in their order,
  up to the sign of the type of a non-negative integer, expecting each of them succeeds, and
  either leaves the bytes that follow.
\<close>

theorem tags_roundtrip:
  assumes "TagMissing \<notin> set ts" and "rerror r = mpack_ok"
    and "rdata r = wbuf (foldl mpack_write_tag mpack_writer_init_growable ts) @ rest"
  shows "read_tags (length ts) r = (r\<lparr>rdata := rest\<rparr>, map unsigned_tag ts) \<and>
    foldl mpack_expect_tag r ts = r\<lparr>rdata := rest\<rparr>"
  by (rule read_tags_bytes [OF assms(2,1)]) (simp add: assms write_tags_growable)

theorem tags_roundtrip_witness:
  "read_tags 3 (mpack_reader_init_data
      (wbuf (foldl mpack_write_tag mpack_writer_init_growable [TagArray 2, TagInt 5, TagDouble 9]) @ [1])) =
    (mpack_reader_init_data [1], [TagArray 2, TagUint 5, TagDouble 9])"
  using tags_roundtrip [of "[TagArray 2, TagInt 5, TagDouble 9]" "mpack_reader_init_data
      (wbuf (foldl mpack_write_tag mpack_writer_init_growable [TagArray 2, TagInt 5, TagDouble 9]) @ [1])" "[1]"]
  by (simp add: mpack_reader_init_data_def unsigned_tag_def numeral_3_eq_3 del: foldl_Cons)

section \<open>NaN and ranges\<close>

text \<open>A NaN is in every range, since it is neither below the minimum nor above the maximum.\<close>

lemma float_range_accepts_nan:
  assumes "rerror r = mpack_ok" and "rdata r = tag_bytes (TagFloat f) @ rest" and "float_of_bits f = NaN"
  shows "mpack_expect_float_range r mn mx = (r\<lparr>rdata := rest\<rparr>, NaN)"
proof -
  have "mpack_read_tag r = (r\<lparr>rdata := rest\<rparr>, TagFloat f)"
    using read_tag_bytes [OF assms(1,2)] by (simp add: unsigned_tag_def)
  moreover have "\<not> fp_less NaN mn" "\<not> fp_less mx NaN" by (cases mx; simp)+
  ultimately show ?thesis
    using assms(1,3) by (simp add: mpack_expect_float_range_def expect_range_impl_def mpack_expect_float_def)
qed

end
