(* ===== verification/MPackStrings.thy ===== *)
theory MPackStrings
  imports MPackTags
begin

text \<open>
  Reading strings and binary data with the MessagePack library under \<open>mpack/\<close>, into a buffer of
  the caller, in place or into a block that is allocated, with the checks for UTF-8 and for NUL,
  and matching a string.
\<close>

section \<open>Reading\<close>

definition mpack_peek_tag :: "mpack_reader \<Rightarrow> mpack_reader \<times> mpack_tag" where
  "mpack_peek_tag r =
     (if rerror r \<noteq> mpack_ok then (r, TagNil)
      else case mpack_parse_tag r of (r', tag, count) \<Rightarrow> if count = 0 then (r', TagNil) else (r', tag))"

definition mpack_skip_bytes :: "mpack_reader \<Rightarrow> nat \<Rightarrow> mpack_reader" where
  "mpack_skip_bytes r count =
     (if rerror r \<noteq> mpack_ok then r
      else if count \<le> length (rdata r) then r\<lparr>rdata := drop count (rdata r)\<rparr>
      else mpack_reader_flag_error r mpack_error_invalid)"

definition mpack_read_utf8 :: "mpack_reader \<Rightarrow> nat \<Rightarrow> mpack_reader \<times> u8 list" where
  "mpack_read_utf8 r byte_count =
     (case mpack_read_bytes r byte_count of (r1, p) \<Rightarrow>
        if rerror r1 = mpack_ok \<and> \<not> mpack_utf8_check p
        then (mpack_reader_flag_error r1 mpack_error_type, p) else (r1, p))"

definition mpack_str_check_no_null :: "u8 list \<Rightarrow> bool" where
  "mpack_str_check_no_null str = list_all (\<lambda>b. b \<noteq> 0) str"

text \<open>The C string left in a buffer of \<open>buffer_size\<close> bytes.\<close>

definition mpack_read_cstr_unchecked :: "mpack_reader \<Rightarrow> nat \<Rightarrow> nat \<Rightarrow> mpack_reader \<times> u8 list" where
  "mpack_read_cstr_unchecked r buffer_size byte_count =
     (if rerror r \<noteq> mpack_ok then (r, [])
      else if buffer_size - 1 < byte_count then (mpack_reader_flag_error r mpack_error_too_big, [])
      else mpack_read_bytes r byte_count)"

definition mpack_read_cstr :: "mpack_reader \<Rightarrow> nat \<Rightarrow> nat \<Rightarrow> mpack_reader \<times> u8 list" where
  "mpack_read_cstr r buffer_size byte_count =
     (case mpack_read_cstr_unchecked r buffer_size byte_count of (r1, buf) \<Rightarrow>
        if rerror r1 = mpack_ok \<and> \<not> mpack_str_check_no_null buf
        then (mpack_reader_flag_error r1 mpack_error_type, []) else (r1, cstr buf))"

text \<open>\<open>None\<close> is the null pointer; \<open>mem\<close> says whether the allocation succeeds.\<close>

definition mpack_read_bytes_alloc_impl ::
    "bool \<Rightarrow> mpack_reader \<Rightarrow> nat \<Rightarrow> bool \<Rightarrow> mpack_reader \<times> u8 list option" where
  "mpack_read_bytes_alloc_impl mem r count null_terminated =
     (if rerror r \<noteq> mpack_ok then (r, None)
      else if count = 0 \<and> \<not> null_terminated then (r, None)
      else if \<not> mem then (mpack_reader_flag_error r mpack_error_memory, None)
      else case mpack_read_bytes r count of (r1, bytes) \<Rightarrow>
        if rerror r1 \<noteq> mpack_ok then (r1, None)
        else (r1, Some (if null_terminated then bytes @ [0] else bytes)))"

definition mpack_read_bytes_inplace :: "mpack_reader \<Rightarrow> nat \<Rightarrow> mpack_reader \<times> u8 list option" where
  "mpack_read_bytes_inplace r count =
     (if rerror r \<noteq> mpack_ok then (r, None)
      else if count \<le> length (rdata r)
      then (r\<lparr>rdata := drop count (rdata r)\<rparr>, Some (take count (rdata r)))
      else case mpack_reader_ensure r count of (r1, ok) \<Rightarrow>
        if \<not> ok then (r1, None)
        else (r1\<lparr>rdata := drop count (rdata r1)\<rparr>, Some (take count (rdata r1))))"

definition mpack_read_utf8_inplace :: "mpack_reader \<Rightarrow> nat \<Rightarrow> mpack_reader \<times> u8 list option" where
  "mpack_read_utf8_inplace r count =
     (case mpack_read_bytes_inplace r count of (r1, str) \<Rightarrow>
        if rerror r1 = mpack_ok \<and> \<not> mpack_utf8_check (the str)
        then (mpack_reader_flag_error r1 mpack_error_type, None) else (r1, str))"

section \<open>Strings and binary data\<close>

definition mpack_expect_str_max :: "mpack_reader \<Rightarrow> u32 \<Rightarrow> mpack_reader \<times> u32" where
  "mpack_expect_str_max r maxsize =
     (case mpack_expect_str r of (r1, len) \<Rightarrow>
        if maxsize < len then (mpack_reader_flag_error r1 mpack_error_too_big, 0) else (r1, len))"

definition mpack_expect_str_length :: "mpack_reader \<Rightarrow> u32 \<Rightarrow> mpack_reader" where
  "mpack_expect_str_length r count =
     (case mpack_expect_str r of (r1, len) \<Rightarrow>
        if len \<noteq> count then mpack_reader_flag_error r1 mpack_error_type else r1)"

text \<open>The length returned, and what has been written to the buffer.\<close>

definition mpack_expect_str_buf :: "mpack_reader \<Rightarrow> nat \<Rightarrow> mpack_reader \<times> nat \<times> u8 list" where
  "mpack_expect_str_buf r bufsize =
     (case mpack_expect_str r of (r1, len) \<Rightarrow>
        if rerror r1 \<noteq> mpack_ok then (r1, 0, [])
        else if bufsize < unat len then (mpack_reader_flag_error r1 mpack_error_too_big, 0, [])
        else case mpack_read_bytes r1 (unat len) of (r2, buf) \<Rightarrow>
          if rerror r2 \<noteq> mpack_ok then (r2, 0, buf) else (r2, unat len, buf))"

definition mpack_expect_utf8 :: "mpack_reader \<Rightarrow> nat \<Rightarrow> mpack_reader \<times> nat \<times> u8 list" where
  "mpack_expect_utf8 r sz =
     (case mpack_expect_str_buf r sz of (r1, len, buf) \<Rightarrow>
        if \<not> mpack_utf8_check (take len buf) then (mpack_reader_flag_error r1 mpack_error_type, 0, buf)
        else (r1, len, buf))"

definition mpack_expect_bin :: "mpack_reader \<Rightarrow> mpack_reader \<times> u32" where
  "mpack_expect_bin r =
     (case mpack_read_tag r of (r1, var) \<Rightarrow>
        case var of TagBin l \<Rightarrow> (r1, l) | _ \<Rightarrow> (mpack_reader_flag_error r1 mpack_error_type, 0))"

definition mpack_expect_bin_max :: "mpack_reader \<Rightarrow> u32 \<Rightarrow> mpack_reader \<times> u32" where
  "mpack_expect_bin_max r maxsize =
     (case mpack_expect_bin r of (r1, len) \<Rightarrow>
        if maxsize < len then (mpack_reader_flag_error r1 mpack_error_type, 0) else (r1, len))"

definition mpack_expect_bin_size :: "mpack_reader \<Rightarrow> u32 \<Rightarrow> mpack_reader" where
  "mpack_expect_bin_size r count =
     (case mpack_expect_bin r of (r1, len) \<Rightarrow>
        if len \<noteq> count then mpack_reader_flag_error r1 mpack_error_type else r1)"

definition mpack_expect_bin_buf :: "mpack_reader \<Rightarrow> nat \<Rightarrow> mpack_reader \<times> nat \<times> u8 list" where
  "mpack_expect_bin_buf r bufsize =
     (case mpack_expect_bin r of (r1, binsize) \<Rightarrow>
        if rerror r1 \<noteq> mpack_ok then (r1, 0, [])
        else if bufsize < unat binsize then (mpack_reader_flag_error r1 mpack_error_too_big, 0, [])
        else case mpack_read_bytes r1 (unat binsize) of (r2, buf) \<Rightarrow>
          if rerror r2 \<noteq> mpack_ok then (r2, 0, buf) else (r2, unat binsize, buf))"

definition mpack_expect_bin_size_buf :: "mpack_reader \<Rightarrow> u32 \<Rightarrow> mpack_reader \<times> u8 list" where
  "mpack_expect_bin_size_buf r sz = mpack_read_bytes (mpack_expect_bin_size r sz) (unat sz)"

definition mpack_expect_cstr :: "mpack_reader \<Rightarrow> nat \<Rightarrow> mpack_reader \<times> u8 list" where
  "mpack_expect_cstr r bufsize =
     (case mpack_expect_str r of (r1, len) \<Rightarrow> mpack_read_cstr r1 bufsize (unat len))"

text \<open>The string with its terminator, and its length.\<close>

definition mpack_expect_cstr_alloc_unchecked ::
    "bool \<Rightarrow> mpack_reader \<Rightarrow> nat \<Rightarrow> mpack_reader \<times> u8 list option \<times> nat" where
  "mpack_expect_cstr_alloc_unchecked mem r maxsize =
     (if maxsize < 1 then (mpack_reader_flag_error r mpack_error_bug, None, 0)
      else
        let capped = min maxsize 0xFFFFFFFF in
        case mpack_expect_str_max r (word_of_nat capped - 1) of (r1, len) \<Rightarrow>
          case mpack_read_bytes_alloc_impl mem r1 (unat len) True of (r2, str) \<Rightarrow>
            (r2, str, if str \<noteq> None then unat len else 0))"

definition mpack_expect_cstr_alloc :: "bool \<Rightarrow> mpack_reader \<Rightarrow> nat \<Rightarrow> mpack_reader \<times> u8 list option" where
  "mpack_expect_cstr_alloc mem r maxsize =
     (case mpack_expect_cstr_alloc_unchecked mem r maxsize of (r1, str, len) \<Rightarrow>
        if str \<noteq> None \<and> \<not> mpack_str_check_no_null (take len (the str))
        then (mpack_reader_flag_error r1 mpack_error_type, None) else (r1, str))"

definition mpack_expect_utf8_cstr_alloc :: "bool \<Rightarrow> mpack_reader \<Rightarrow> nat \<Rightarrow> mpack_reader \<times> u8 list option" where
  "mpack_expect_utf8_cstr_alloc mem r maxsize =
     (case mpack_expect_cstr_alloc_unchecked mem r maxsize of (r1, str, len) \<Rightarrow>
        if str \<noteq> None \<and> \<not> mpack_utf8_check_no_null (take len (the str))
        then (mpack_reader_flag_error r1 mpack_error_type, None) else (r1, str))"

definition mpack_expect_bin_alloc :: "bool \<Rightarrow> mpack_reader \<Rightarrow> nat \<Rightarrow> mpack_reader \<times> u8 list option \<times> nat" where
  "mpack_expect_bin_alloc mem r maxsize =
     (case mpack_expect_bin_max r (word_of_nat (min maxsize 0xFFFFFFFF)) of (r1, len) \<Rightarrow>
        if rerror r1 \<noteq> mpack_ok then (r1, None, 0)
        else case mpack_read_bytes_alloc_impl mem r1 (unat len) False of (r2, data) \<Rightarrow>
          (r2, data, if data \<noteq> None then unat len else 0))"

text \<open>
  The byte read is a \<open>uint8_t\<close> and the character compared with it a \<open>char\<close>, which is signed: both
  are promoted to \<open>int\<close> before they are compared.
\<close>

fun str_match_loop :: "u8 list \<Rightarrow> mpack_reader \<Rightarrow> mpack_reader" where
  "str_match_loop [] r = r"
| "str_match_loop (c # str) r =
     (case mpack_expect_native 1 (\<lambda>p. ucast (p ! 0)) r of (r1, b) \<Rightarrow>
        if uint b \<noteq> sint c then mpack_reader_flag_error r1 mpack_error_type else str_match_loop str r1)"

definition mpack_expect_str_match :: "mpack_reader \<Rightarrow> u8 list \<Rightarrow> mpack_reader" where
  "mpack_expect_str_match r str =
     (let r0 = (if length str > 0xFFFFFFFF then mpack_reader_flag_error r mpack_error_type else r);
          r1 = mpack_expect_str_length r0 (word_of_nat (length str)) in
      if rerror r1 \<noteq> mpack_ok then r1 else str_match_loop str r1)"

definition mpack_expect_cstr_match :: "mpack_reader \<Rightarrow> u8 list \<Rightarrow> mpack_reader" where
  "mpack_expect_cstr_match r bs = mpack_expect_str_match r (cstr bs)"

section \<open>Matching a string\<close>

lemma char_promotions: "uint (c :: u8) = sint c \<longleftrightarrow> c < 0x80"
proof -
  have all: "list_all (\<lambda>k. uint (word_of_nat k :: u8) = sint (word_of_nat k :: u8) \<longleftrightarrow>
      (word_of_nat k :: u8) < 0x80) [0..<256]" by code_simp
  have "unat c \<in> set [0..<256]" by simp
  with all have "uint (word_of_nat (unat c) :: u8) = sint (word_of_nat (unat c) :: u8) \<longleftrightarrow>
      (word_of_nat (unat c) :: u8) < 0x80" by (simp only: list_all_iff)
  then show ?thesis by simp
qed

lemma str_match_loop_result:
  "rerror r = mpack_ok \<Longrightarrow> rdata r = s @ rest \<Longrightarrow>
     str_match_loop s r =
       (if \<forall>c \<in> set s. c < 0x80 then r\<lparr>rdata := rest\<rparr>
        else r\<lparr>rdata := [], rerror := mpack_error_type\<rparr>)"
proof (induction s arbitrary: r)
  case (Cons c s)
  have "uint (ucast c :: u32) = uint c" by (simp add: uint_up_ucast is_up)
  with Cons show ?case
    by (simp add: mpack_expect_native_def mpack_reader_ensure_def char_promotions mpack_reader_flag_error_def)
qed simp

text \<open>
  Matching a string against itself succeeds exactly when it is ASCII.  A string with a byte above
  127, such as any non-ASCII text in UTF-8, is rejected with a type error although it is the string
  expected, because the byte read is compared as an unsigned number with a signed one.
\<close>

theorem str_match_ascii_only:
  assumes "length s < 2 ^ 32" and "rerror r = mpack_ok"
    and "rdata r = wbuf (mpack_write_str mpack_writer_init_growable s) @ rest"
  shows "mpack_expect_str_match r s =
    (if \<forall>c \<in> set s. c < 0x80 then r\<lparr>rdata := rest\<rparr>
     else r\<lparr>rdata := [], rerror := mpack_error_type\<rparr>)"
proof -
  have "mpack_expect_str r = (r\<lparr>rdata := s @ rest\<rparr>, word_of_nat (length s))"
    by (rule expect_str_bytes) (use assms in \<open>simp_all add: str_bytes_def\<close>)
  with assms(1,2) str_match_loop_result [of "r\<lparr>rdata := s @ rest\<rparr>" s rest] show ?thesis
    by (simp add: mpack_expect_str_match_def mpack_expect_str_length_def Let_def)
qed

theorem str_match_ascii_only_witness:
  "mpack_expect_str_match (mpack_reader_init_data (wbuf (mpack_write_str mpack_writer_init_growable [0xC3, 0xA9]))) [0xC3, 0xA9] =
     \<lparr>rdata = [], rerror = mpack_error_type\<rparr>"
  by (subst str_match_ascii_only [where rest = "[]"]) (simp_all add: mpack_reader_init_data_def)

section \<open>Strings as binary data\<close>

text \<open>Binary data are not read from a string.\<close>

lemma bin_buf_rejects_strings:
  assumes "rerror r = mpack_ok" and "rdata r = tag_bytes (TagStr l) @ rest"
  shows "mpack_expect_bin_buf r n = (r\<lparr>rdata := [], rerror := mpack_error_type\<rparr>, 0, [])"
  using assms(1) read_tag_bytes [OF assms]
  by (simp add: mpack_expect_bin_buf_def mpack_expect_bin_def unsigned_tag_def mpack_reader_flag_error_def)

end
