(* ===== verification/MPackDiscard.thy ===== *)
theory MPackDiscard
  imports MPackExpect MPackStrings
begin

text \<open>
  \<open>mpack_discard\<close> of the MessagePack library under \<open>mpack/\<close>, which skips a value of any shape, and
  the functions that read enumerations and map keys over it.

  The lemmas show that it returns on every input, what it skips, and that it notices every message
  that ends too early.
\<close>

section \<open>Discarding a value\<close>

text \<open>
  \<open>mpack_discard\<close> with its two loops, over the elements of an array and the pairs of a map.  Each
  call reads a tag of at least one byte, or flags an error and thereby empties the reader.
\<close>

function mpack_discard :: "mpack_reader \<Rightarrow> mpack_reader"
  and discard_elements :: "nat \<Rightarrow> mpack_reader \<Rightarrow> mpack_reader"
  and discard_pairs :: "nat \<Rightarrow> mpack_reader \<Rightarrow> mpack_reader" where
  "mpack_discard r =
     (case mpack_read_tag r of (r1, var) \<Rightarrow>
        if rerror r1 \<noteq> mpack_ok then r1
        else case var of
          TagStr l \<Rightarrow> mpack_skip_bytes r1 (unat l)
        | TagBin l \<Rightarrow> mpack_skip_bytes r1 (unat l)
        | TagArray n \<Rightarrow> discard_elements (unat n) r1
        | TagMap n \<Rightarrow> discard_pairs (unat n) r1
        | _ \<Rightarrow> r1)"
| "discard_elements 0 r = r"
| "discard_elements (Suc n) r =
     (let r1 = mpack_discard r in if rerror r1 \<noteq> mpack_ok then r1 else discard_elements n r1)"
| "discard_pairs 0 r = r"
| "discard_pairs (Suc n) r =
     (let r1 = mpack_discard (mpack_discard r) in
      if rerror r1 \<noteq> mpack_ok then r1 else discard_pairs n r1)"
  by pat_completeness auto

lemma flag_error_shrinks: "length (rdata (mpack_reader_flag_error r e)) \<le> length (rdata r)"
  by (simp add: mpack_reader_flag_error_def)

lemma ensure_shrinks:
  "mpack_reader_ensure r n = (r', ok) \<Longrightarrow> length (rdata r') \<le> length (rdata r)"
  by (auto simp: mpack_reader_ensure_def flag_error_shrinks split: if_splits)

lemma ensure_ok: "mpack_reader_ensure r n = (r', True) \<Longrightarrow> r' = r \<and> n \<le> length (rdata r)"
  by (auto simp: mpack_reader_ensure_def split: if_splits)

lemma parsed_tag:
  "parsed r n t = (r', t', c) \<Longrightarrow> c \<noteq> 0 \<Longrightarrow> r' = r \<and> c \<le> length (rdata r)"
  by (auto simp: parsed_def mpack_reader_ensure_def split: if_splits)

lemma parsed_shrinks:
  "parsed r n t = (r', t', c) \<Longrightarrow> length (rdata r') \<le> length (rdata r)"
  by (auto simp: parsed_def mpack_reader_ensure_def flag_error_shrinks split: if_splits)

lemma parse_tag_shape:
  "mpack_parse_tag r = (r', t, c) \<Longrightarrow>
     (c \<noteq> 0 \<longrightarrow> r' = r \<and> c \<le> length (rdata r)) \<and> length (rdata r') \<le> length (rdata r)"
  by (auto simp: mpack_parse_tag_def Let_def mpack_reader_ensure_def flag_error_shrinks
      dest: parsed_tag parsed_shrinks split: if_splits)

lemma read_tag_shrinks:
  "mpack_read_tag r = (r', t) \<Longrightarrow> length (rdata r') \<le> length (rdata r)"
  by (auto simp: mpack_read_tag_def dest: parse_tag_shape split: if_splits prod.splits)

lemma flag_error_error: "e \<noteq> mpack_ok \<Longrightarrow> rerror (mpack_reader_flag_error r e) \<noteq> mpack_ok"
  by (simp add: mpack_reader_flag_error_def)

lemma parsed_none: "parsed r n t = (r', t', 0) \<Longrightarrow> n \<noteq> 0 \<Longrightarrow> rerror r' \<noteq> mpack_ok"
  by (auto simp: parsed_def mpack_reader_ensure_def flag_error_error split: if_splits)

lemma parse_tag_none: "mpack_parse_tag r = (r', t, 0) \<Longrightarrow> rerror r' \<noteq> mpack_ok"
  by (auto simp: mpack_parse_tag_def Let_def mpack_reader_ensure_def flag_error_error
      dest: parsed_none split: if_splits)

lemma read_tag_progress:
  assumes "mpack_read_tag r = (r', t)" and "rerror r' = mpack_ok"
  shows "length (rdata r') < length (rdata r)"
proof -
  obtain r1 t1 c where p: "mpack_parse_tag r = (r1, t1, c)" by (cases "mpack_parse_tag r") auto
  have c: "c \<noteq> 0" using assms p parse_tag_none by (auto simp: mpack_read_tag_def split: if_splits)
  with parse_tag_shape [OF p] have "r1 = r" "c \<le> length (rdata r)" by auto
  with assms p c show ?thesis by (auto simp: mpack_read_tag_def split: if_splits)
qed

lemma skip_bytes_shrinks: "length (rdata (mpack_skip_bytes r n)) \<le> length (rdata r)"
  by (simp add: mpack_skip_bytes_def flag_error_shrinks)

lemma discard_shrinks_dom:
  "mpack_discard_discard_elements_discard_pairs_dom (Inl r) \<Longrightarrow>
     length (rdata (mpack_discard r)) \<le> length (rdata r)"
  "mpack_discard_discard_elements_discard_pairs_dom (Inr (Inl (n, r))) \<Longrightarrow>
     length (rdata (discard_elements n r)) \<le> length (rdata r)"
  "mpack_discard_discard_elements_discard_pairs_dom (Inr (Inr (m, r))) \<Longrightarrow>
     length (rdata (discard_pairs m r)) \<le> length (rdata r)"
proof (induction r and n r and m r rule: mpack_discard_discard_elements_discard_pairs.pinduct)
  case (1 r)
  obtain r1 t where t: "mpack_read_tag r = (r1, t)" by fastforce
  with 1 read_tag_shrinks [OF t] show ?case
    by (auto simp: mpack_discard.psimps split: mpack_tag.split intro: order_trans [OF skip_bytes_shrinks] order_trans)
next
  case (3 n r)
  then show ?case by (auto simp: discard_elements.psimps Let_def intro: order_trans)
next
  case (5 n r)
  then show ?case by (auto simp: discard_pairs.psimps Let_def intro: order_trans)
qed (simp_all add: discard_elements.psimps discard_pairs.psimps)

termination mpack_discard
proof (relation "measures [
    \<lambda>x. case x of Inl r \<Rightarrow> length (rdata r) | Inr (Inl (_, r)) \<Rightarrow> length (rdata r)
        | Inr (Inr (_, r)) \<Rightarrow> length (rdata r),
    \<lambda>x. case x of Inl _ \<Rightarrow> 0 | Inr (Inl (n, _)) \<Rightarrow> Suc n | Inr (Inr (n, _)) \<Rightarrow> Suc n]",
    goal_cases)
  case (2 r x y n)
  then show ?case using read_tag_progress [of r x y] by auto
next
  case (3 r x y n)
  then show ?case using read_tag_progress [of r x y] by auto
next
  case (5 n r x)
  then show ?case using discard_shrinks_dom(1) [of r] by auto
next
  case (7 n r)
  then show ?case using discard_shrinks_dom(1) [of r] by auto
next
  case (8 n r x)
  then show ?case
    using discard_shrinks_dom(1) [of r] discard_shrinks_dom(1) [of "mpack_discard r"] by auto
qed auto

declare mpack_discard.simps [simp del]

section \<open>Values\<close>

text \<open>
  A value of MessagePack and how it is written with the library: a scalar by its tag, a compound
  value by its start and its parts.
\<close>

datatype mpack_value =
    Scalar mpack_tag | StrValue "u8 list" | BinValue "u8 list" | ArrayValue "mpack_value list"
  | MapValue "(mpack_value \<times> mpack_value) list"

fun write_value :: "mpack_value \<Rightarrow> mpack_writer \<Rightarrow> mpack_writer" where
  "write_value (Scalar t) w = mpack_write_tag w t"
| "write_value (StrValue s) w = mpack_write_str w s"
| "write_value (BinValue s) w = mpack_write_bin w s"
| "write_value (ArrayValue vs) w = fold write_value vs (mpack_start_array w (word_of_nat (length vs)))"
| "write_value (MapValue ps) w =
     fold (\<lambda>(k, v) w. write_value v (write_value k w)) ps (mpack_start_map w (word_of_nat (length ps)))"

fun scalar :: "mpack_tag \<Rightarrow> bool" where
  "scalar TagMissing = False"
| "scalar (TagStr _) = False"
| "scalar (TagBin _) = False"
| "scalar (TagArray _) = False"
| "scalar (TagMap _) = False"
| "scalar _ = True"

text \<open>The lengths of strings, arrays and maps are 32-bit numbers.\<close>

fun value_ok :: "mpack_value \<Rightarrow> bool" where
  "value_ok (Scalar t) = scalar t"
| "value_ok (StrValue s) = (length s < 2 ^ 32)"
| "value_ok (BinValue s) = (length s < 2 ^ 32)"
| "value_ok (ArrayValue vs) = (length vs < 2 ^ 32 \<and> (\<forall>v \<in> set vs. value_ok v))"
| "value_ok (MapValue ps) = (length ps < 2 ^ 32 \<and> (\<forall>(k, v) \<in> set ps. value_ok k \<and> value_ok v))"

fun value_bytes :: "mpack_value \<Rightarrow> u8 list" where
  "value_bytes (Scalar t) = tag_bytes t"
| "value_bytes (StrValue s) = tag_bytes (TagStr (word_of_nat (length s))) @ s"
| "value_bytes (BinValue s) = tag_bytes (TagBin (word_of_nat (length s))) @ s"
| "value_bytes (ArrayValue vs) =
     tag_bytes (TagArray (word_of_nat (length vs))) @ concat (map value_bytes vs)"
| "value_bytes (MapValue ps) =
     tag_bytes (TagMap (word_of_nat (length ps))) @
     concat (map (\<lambda>(k, v). value_bytes k @ value_bytes v) ps)"

lemma scalar_present: "scalar t \<Longrightarrow> t \<noteq> TagMissing"
  by auto

lemma start_tags:
  "mpack_start_array w n = mpack_write_tag w (TagArray n)"
  "mpack_start_map w n = mpack_write_tag w (TagMap n)"
  "mpack_start_bin w n = mpack_write_tag w (TagBin n)"
  "mpack_start_str w n = mpack_write_tag w (TagStr n)"
  by (simp_all add: mpack_write_tag_def)

lemma write_bytes_growable:
  assumes "wcap w = None"
  shows "mpack_write_str w s = w\<lparr>wbuf := wbuf w @ tag_bytes (TagStr (word_of_nat (length s))) @ s\<rparr>"
    and "mpack_write_bin w s = w\<lparr>wbuf := wbuf w @ tag_bytes (TagBin (word_of_nat (length s))) @ s\<rparr>"
  using assms
  by (simp_all add: growable_writes(3) str_bytes_eq tag_bytes_simps(8) Let_def mpack_write_bin_def
      mpack_write_bytes_def start_tags write_tag_growable mpack_write_native_growable)

lemma fold_appends:
  assumes "\<And>v w. v \<in> set vs \<Longrightarrow> wcap w = None \<Longrightarrow> f v w = w\<lparr>wbuf := wbuf w @ g v\<rparr>"
    and "wcap w = None"
  shows "fold f vs w = w\<lparr>wbuf := wbuf w @ concat (map g vs)\<rparr>"
  using assms by (induction vs arbitrary: w) simp_all

lemma write_value_growable:
  "wcap w = None \<Longrightarrow> value_ok v \<Longrightarrow> write_value v w = w\<lparr>wbuf := wbuf w @ value_bytes v\<rparr>"
proof (induction v arbitrary: w rule: value_bytes.induct)
  case (1 t)
  then show ?case by (simp add: write_tag_growable scalar_present)
next
  case (4 vs)
  then show ?case
    by (simp add: start_tags write_tag_growable fold_appends [where g = value_bytes])
next
  case (5 ps)
  let ?f = "\<lambda>(k, v) w. write_value v (write_value k w)"
  let ?g = "\<lambda>(k, v). value_bytes k @ value_bytes v"
  have one: "?f p u = u\<lparr>wbuf := wbuf u @ ?g p\<rparr>" if "p \<in> set ps" "wcap u = None" for p u
    using 5 that by (cases p) auto
  have "fold ?f ps u = u\<lparr>wbuf := wbuf u @ concat (map ?g ps)\<rparr>" if "wcap u = None" for u
    using that by (intro fold_appends one)
  with 5(3) show ?case
    by (simp add: start_tags write_tag_growable)
qed (simp_all add: write_bytes_growable)

lemma discard_unfold:
  assumes "rerror r = mpack_ok" and "rdata r = tag_bytes t @ rest" and "t \<noteq> TagMissing"
  shows "mpack_discard r =
    (case t of
       TagStr l \<Rightarrow> mpack_skip_bytes (r\<lparr>rdata := rest\<rparr>) (unat l)
     | TagBin l \<Rightarrow> mpack_skip_bytes (r\<lparr>rdata := rest\<rparr>) (unat l)
     | TagArray n \<Rightarrow> discard_elements (unat n) (r\<lparr>rdata := rest\<rparr>)
     | TagMap n \<Rightarrow> discard_pairs (unat n) (r\<lparr>rdata := rest\<rparr>)
     | _ \<Rightarrow> r\<lparr>rdata := rest\<rparr>)"
  using assms by (cases t) (simp_all add: mpack_discard.simps read_tag_bytes [OF assms] unsigned_tag_def)

definition skips :: "mpack_value \<Rightarrow> bool" where
  "skips v \<longleftrightarrow> (\<forall>r rest. rerror r = mpack_ok \<longrightarrow> rdata r = value_bytes v @ rest \<longrightarrow>
     mpack_discard r = r\<lparr>rdata := rest\<rparr>)"

lemma skipsD:
  "skips v \<Longrightarrow> rerror r = mpack_ok \<Longrightarrow> rdata r = value_bytes v @ rest \<Longrightarrow> mpack_discard r = r\<lparr>rdata := rest\<rparr>"
  by (simp add: skips_def)

lemma discard_elements_skips:
  "\<forall>v \<in> set vs. skips v \<Longrightarrow> rerror r = mpack_ok \<Longrightarrow> rdata r = concat (map value_bytes vs) @ rest \<Longrightarrow>
     discard_elements (length vs) r = r\<lparr>rdata := rest\<rparr>"
proof (induction vs arbitrary: r)
  case (Cons v vs)
  then have "mpack_discard r = r\<lparr>rdata := concat (map value_bytes vs) @ rest\<rparr>"
    by (intro skipsD [of v]) simp_all
  with Cons show ?case by simp
qed simp

lemma discard_error [simp]: "rerror r \<noteq> mpack_ok \<Longrightarrow> mpack_discard r = r"
  by (simp add: mpack_discard.simps mpack_read_tag_def)

text \<open>The pairs of a map are so many values, and the loop over them that over the values.\<close>

fun pair_values :: "(mpack_value \<times> mpack_value) list \<Rightarrow> mpack_value list" where
  "pair_values [] = []"
| "pair_values ((k, v) # ps) = k # v # pair_values ps"

lemma pair_values_facts [simp]:
  "length (pair_values ps) = 2 * length ps"
  "concat (map value_bytes (pair_values ps)) = concat (map (\<lambda>(k, v). value_bytes k @ value_bytes v) ps)"
  "(\<forall>v \<in> set (pair_values ps). P v) \<longleftrightarrow> (\<forall>(k, v) \<in> set ps. P k \<and> P v)"
  by (induction ps rule: pair_values.induct) auto

lemma discard_pairs_elements: "discard_pairs n r = discard_elements (2 * n) r"
  by (induction n arbitrary: r) (simp_all add: Let_def)

lemma discard_pairs_skips:
  "\<forall>(k, v) \<in> set ps. skips k \<and> skips v \<Longrightarrow> rerror r = mpack_ok \<Longrightarrow>
     rdata r = concat (map (\<lambda>(k, v). value_bytes k @ value_bytes v) ps) @ rest \<Longrightarrow>
     discard_pairs (length ps) r = r\<lparr>rdata := rest\<rparr>"
  using discard_elements_skips [of "pair_values ps" r rest] by (simp add: discard_pairs_elements)

lemma unat_length: "length xs < 2 ^ 32 \<Longrightarrow> unat (word_of_nat (length xs) :: u32) = length xs"
  by (simp add: unat_of_nat take_bit_nat_eq_self)

lemma value_skips: "value_ok v \<Longrightarrow> skips v"
proof (induction v rule: value_bytes.induct)
  case (1 t)
  then show ?case
    unfolding skips_def by (auto simp: discard_unfold scalar_present split: mpack_tag.split)
next
  case (4 vs)
  then show ?case
    unfolding skips_def [of "ArrayValue vs"]
    by (auto simp: discard_unfold unat_length discard_elements_skips)
next
  case (5 ps)
  then have "\<forall>(k, v) \<in> set ps. skips k \<and> skips v" by auto
  with 5(3) show ?case
    unfolding skips_def [of "MapValue ps"]
    by (auto simp: discard_unfold unat_length discard_pairs_skips)
qed (auto simp: skips_def discard_unfold unat_length mpack_skip_bytes_def)

section \<open>Messages that are cut short\<close>

lemma parsed_count: "parsed r n t = (r', t', c) \<Longrightarrow> c \<noteq> 0 \<Longrightarrow> c = n"
  by (auto simp: parsed_def mpack_reader_ensure_def split: if_splits)

lemma parsed_truncated:
  "length (rdata s) < n \<Longrightarrow> parsed s n t = (mpack_reader_flag_error s mpack_error_invalid, TagNil, 0)"
  by (simp add: parsed_def mpack_reader_ensure_def)

lemma parse_tag_truncated:
  assumes "mpack_parse_tag r = (r', t, c)" and "c \<noteq> 0" and "k < c" and "rdata s = take k (rdata r)"
  shows "mpack_parse_tag s = (mpack_reader_flag_error s mpack_error_invalid, TagNil, 0)"
proof (cases k)
  case 0
  with assms show ?thesis by (simp add: mpack_parse_tag_def mpack_reader_ensure_def)
next
  case (Suc j)
  with assms(4) have hd: "rdata s ! 0 = rdata r ! 0" by simp
  have len: "length (rdata s) < c"
    using assms(3,4) by simp
  have e: "mpack_reader_ensure r 1 = (r, True)" "mpack_reader_ensure s 1 = (s, True)"
    using parse_tag_shape [OF assms(1)] assms Suc by (auto simp: mpack_reader_ensure_def)
  show ?thesis
    using assms(1,2) len Suc assms(3)
    unfolding mpack_parse_tag_def e Let_def hd prod.case
    by (simp only: split: if_split_asm) (auto dest!: parsed_count simp: parsed_truncated)
qed

lemma discard_cut_tag:
  assumes "rerror r = mpack_ok" and "k < length (tag_bytes t)" and "t \<noteq> TagMissing"
    and "rdata r = take k (tag_bytes t @ body)"
  shows "rerror (mpack_discard r) = mpack_error_invalid"
proof -
  let ?whole = "r\<lparr>rdata := tag_bytes t @ body\<rparr>"
  have "mpack_parse_tag r = (mpack_reader_flag_error r mpack_error_invalid, TagNil, 0)"
  proof (rule parse_tag_truncated)
    show "mpack_parse_tag ?whole = (?whole, unsigned_tag t, length (tag_bytes t))"
      by (rule parse_tag_bytes) (use assms in simp_all)
  qed (use assms in auto)
  with assms(1) show ?thesis
    by (simp add: mpack_discard.simps mpack_read_tag_def mpack_reader_flag_error_def)
qed

definition cut :: "mpack_value \<Rightarrow> bool" where
  "cut v \<longleftrightarrow> (\<forall>r k. rerror r = mpack_ok \<longrightarrow> k < length (value_bytes v) \<longrightarrow>
     rdata r = take k (value_bytes v) \<longrightarrow> rerror (mpack_discard r) = mpack_error_invalid)"

lemma cutD:
  "cut v \<Longrightarrow> rerror r = mpack_ok \<Longrightarrow> k < length (value_bytes v) \<Longrightarrow> rdata r = take k (value_bytes v) \<Longrightarrow>
     rerror (mpack_discard r) = mpack_error_invalid"
  unfolding cut_def by blast

lemma discard_elements_cut:
  "\<forall>v \<in> set vs. skips v \<and> cut v \<Longrightarrow> rerror r = mpack_ok \<Longrightarrow> k < length (concat (map value_bytes vs)) \<Longrightarrow>
     rdata r = take k (concat (map value_bytes vs)) \<Longrightarrow>
     rerror (discard_elements (length vs) r) = mpack_error_invalid"
proof (induction vs arbitrary: r k)
  case (Cons v vs)
  show ?case
  proof (cases "k < length (value_bytes v)")
    case True
    with Cons(2-5) have "rerror (mpack_discard r) = mpack_error_invalid"
      by (intro cutD [of v r k]) simp_all
    then show ?thesis by (simp add: Let_def)
  next
    case False
    let ?rest = "take (k - length (value_bytes v)) (concat (map value_bytes vs))"
    from False Cons(2-5) have "mpack_discard r = r\<lparr>rdata := ?rest\<rparr>"
      by (intro skipsD [of v]) simp_all
    moreover from False Cons(2-5) have
      "rerror (discard_elements (length vs) (r\<lparr>rdata := ?rest\<rparr>)) = mpack_error_invalid"
      by (intro Cons(1) [where k = "k - length (value_bytes v)"]) auto
    ultimately show ?thesis using Cons(3) by simp
  qed
qed simp

lemma discard_pairs_cut:
  assumes "\<forall>(k, v) \<in> set ps. (skips k \<and> cut k) \<and> skips v \<and> cut v" and "rerror r = mpack_ok"
    and "n < length (concat (map (\<lambda>(k, v). value_bytes k @ value_bytes v) ps))"
    and "rdata r = take n (concat (map (\<lambda>(k, v). value_bytes k @ value_bytes v) ps))"
  shows "rerror (discard_pairs (length ps) r) = mpack_error_invalid"
  using discard_elements_cut [of "pair_values ps" r n] assms by (simp add: discard_pairs_elements)

text \<open>A tag with a body: the cut is in the tag, or in the body.\<close>

lemma cut_body:
  assumes bytes: "value_bytes v = tag_bytes t @ body" and t: "t \<noteq> TagMissing"
    and body: "\<And>r k. rerror r = mpack_ok \<Longrightarrow> k < length body \<Longrightarrow> rdata r = tag_bytes t @ take k body \<Longrightarrow>
      rerror (mpack_discard r) = mpack_error_invalid"
  shows "cut v"
  unfolding cut_def bytes
proof (intro allI impI)
  fix r :: mpack_reader and k
  assume r: "rerror r = mpack_ok" and k: "k < length (tag_bytes t @ body)"
    and data: "rdata r = take k (tag_bytes t @ body)"
  show "rerror (mpack_discard r) = mpack_error_invalid"
  proof (cases "k < length (tag_bytes t)")
    case True
    then show ?thesis by (rule discard_cut_tag [OF r _ t data])
  next
    case False
    with k data show ?thesis by (intro body [OF r, of "k - length (tag_bytes t)"]) auto
  qed
qed

lemma value_cut: "value_ok v \<Longrightarrow> cut v"
proof (induction v rule: value_bytes.induct)
  case (1 t)
  then show ?case by (intro cut_body [of _ t "[]"]) (simp_all add: scalar_present)
next
  case (2 s)
  then show ?case
    by (intro cut_body [OF value_bytes.simps(2)])
      (simp_all add: discard_unfold unat_length mpack_skip_bytes_def mpack_reader_flag_error_def)
next
  case (3 s)
  then show ?case
    by (intro cut_body [OF value_bytes.simps(3)])
      (simp_all add: discard_unfold unat_length mpack_skip_bytes_def mpack_reader_flag_error_def)
next
  case (4 vs)
  then have "\<forall>v \<in> set vs. skips v \<and> cut v" by (auto simp: value_skips)
  from discard_elements_cut [OF this] 4(2) show ?case
    by (intro cut_body [OF value_bytes.simps(4)]) (simp_all add: discard_unfold unat_length)
next
  case (5 ps)
  then have "\<forall>(k, v) \<in> set ps. (skips k \<and> cut k) \<and> skips v \<and> cut v" by (auto simp: value_skips)
  from discard_pairs_cut [OF this] 5(3) show ?case
    by (intro cut_body [OF value_bytes.simps(5)]) (simp_all add: discard_unfold unat_length)
qed

section \<open>Discarding is skipping one value\<close>

text \<open>C8.
  \<open>mpack_discard\<close> returns on every input.  On a value written with the library, of any shape and
  depth, it takes off exactly the bytes of that value; on a message that ends before the value
  does it flags an invalid message, wherever the message was cut.
\<close>

theorem discard_skips_value:
  assumes "value_ok v" and "msg = wbuf (write_value v mpack_writer_init_growable)"
  shows "mpack_discard (mpack_reader_init_data (msg @ rest)) = mpack_reader_init_data rest \<and>
    (\<forall>k < length msg. rerror (mpack_discard (mpack_reader_init_data (take k msg))) = mpack_error_invalid)"
proof -
  have msg: "msg = value_bytes v" using assms by (simp add: write_value_growable)
  have "mpack_discard (mpack_reader_init_data (msg @ rest)) = (mpack_reader_init_data (msg @ rest))\<lparr>rdata := rest\<rparr>"
    by (rule skipsD [OF value_skips [OF assms(1)]]) (simp_all add: mpack_reader_init_data_def msg)
  moreover have "rerror (mpack_discard (mpack_reader_init_data (take k msg))) = mpack_error_invalid"
    if "k < length msg" for k
    by (rule cutD [OF value_cut [OF assms(1)], of _ k]) (use that in \<open>simp_all add: mpack_reader_init_data_def msg\<close>)
  ultimately show ?thesis by (simp add: mpack_reader_init_data_def)
qed

theorem discard_skips_value_witness:
  "mpack_discard (mpack_reader_init_data (wbuf (write_value
      (MapValue [(StrValue [97], ArrayValue [Scalar (TagInt 5), Scalar TagNil])]) mpack_writer_init_growable) @ [1])) =
    mpack_reader_init_data [1]"
  using discard_skips_value [of "MapValue [(StrValue [97], ArrayValue [Scalar (TagInt 5), Scalar TagNil])]" _ "[1]"]
  by simp

section \<open>Enumerations and map keys\<close>

text \<open>The index of the first string that is the key, or their number.\<close>

fun enum_index :: "u8 list \<Rightarrow> u8 list list \<Rightarrow> nat" where
  "enum_index key [] = 0"
| "enum_index key (other # strings) =
     (if length key = length (cstr other) \<and> key = cstr other then 0 else Suc (enum_index key strings))"

definition mpack_expect_enum :: "mpack_reader \<Rightarrow> u8 list list \<Rightarrow> mpack_reader \<times> nat" where
  "mpack_expect_enum r strings =
     (case mpack_expect_str r of (r1, keylen) \<Rightarrow>
      case mpack_read_bytes_inplace r1 (unat keylen) of (r2, key) \<Rightarrow>
        if rerror r2 \<noteq> mpack_ok then (r2, length strings)
        else
          let i = enum_index (the key) strings in
          if i < length strings then (r2, i)
          else (mpack_reader_flag_error r2 mpack_error_type, length strings))"

definition mpack_expect_enum_optional :: "mpack_reader \<Rightarrow> u8 list list \<Rightarrow> mpack_reader \<times> nat" where
  "mpack_expect_enum_optional r strings =
     (if rerror r \<noteq> mpack_ok then (r, length strings)
      else case mpack_peek_tag r of (r0, tag) \<Rightarrow>
        if mpack_tag_type tag \<noteq> mpack_type_str then (mpack_discard r0, length strings)
        else
          case mpack_expect_str r0 of (r1, keylen) \<Rightarrow>
          case mpack_read_bytes_inplace r1 (unat keylen) of (r2, key) \<Rightarrow>
            if rerror r2 \<noteq> mpack_ok then (r2, length strings)
            else (r2, enum_index (the key) strings))"

text \<open>\<open>found\<close> has \<open>count\<close> flags.\<close>

definition mpack_expect_key_uint :: "mpack_reader \<Rightarrow> bool list \<Rightarrow> mpack_reader \<times> bool list \<times> nat" where
  "mpack_expect_key_uint r found =
     (let count = length found in
      if rerror r \<noteq> mpack_ok then (r, found, count)
      else if count = 0 then (mpack_reader_flag_error r mpack_error_bug, found, count)
      else case mpack_peek_tag r of (r0, tag) \<Rightarrow>
        if mpack_tag_type tag \<noteq> mpack_type_uint then (mpack_discard r0, found, count)
        else case mpack_expect_u64 r0 of (r1, value) \<Rightarrow>
          if rerror r1 \<noteq> mpack_ok then (r1, found, count)
          else if count \<le> unat value then (r1, found, count)
          else if found ! unat value then (mpack_reader_flag_error r1 mpack_error_invalid, found, count)
          else (r1, found[unat value := True], unat value))"

definition mpack_expect_key_cstr ::
    "mpack_reader \<Rightarrow> u8 list list \<Rightarrow> bool list \<Rightarrow> mpack_reader \<times> bool list \<times> nat" where
  "mpack_expect_key_cstr r keys found =
     (case mpack_expect_enum_optional r keys of (r1, i) \<Rightarrow>
        if i = length keys then (r1, found, length keys)
        else if found ! i then (mpack_reader_flag_error r1 mpack_error_invalid, found, length keys)
        else (r1, found[i := True], i))"

text \<open>A key is not read from a number of the signed type.\<close>

lemma key_uint_ignores_signed:
  "mpack_expect_key_uint (mpack_reader_init_data [0xd0, 0x01]) [False, False] =
     (mpack_reader_init_data [], [False, False], 2)"
proof -
  have "mpack_parse_tag (mpack_reader_init_data [0xd0, 0x01]) = (mpack_reader_init_data [0xd0, 0x01], TagInt 1, 2)"
    by code_simp
  then show ?thesis
    by (simp add: mpack_expect_key_uint_def mpack_peek_tag_def mpack_discard.simps mpack_read_tag_def
        mpack_reader_init_data_def)
qed

end
