(* ===== verification/Event.thy ===== *)
theory Event
  imports MPackReader
begin

text \<open>
  The wire protocol, \<open>ya_event.h\<close> and \<open>ya_event.c\<close>: event headers and parameters, the
  serializers and parsers of each event type, and the framing
  \<open>total size | header size | header | body\<close> of a package.

  The \<open>evbuffer\<close> of libevent is not part of the repository: its operations are the fields of
  the record \<open>evbuffer_api\<close>, an argument of the functions that use them, and
  \<open>evbuffer_laws\<close> states the documented behaviour the proofs rely on.  Allocations whose
  result the code does not check succeed here; the one it checks is the argument \<open>oom\<close>.
\<close>

section \<open>Protocol data\<close>

type_synonym YAEventType = u32

definition MOUSE_MOVE :: YAEventType where [simp]: "MOUSE_MOVE = 0x1"
definition MOUSE_CLICK :: YAEventType where [simp]: "MOUSE_CLICK = 0x2"
definition MOUSE_WHEEL :: YAEventType where [simp]: "MOUSE_WHEEL = 0x3"
definition KEYBOARD :: YAEventType where [simp]: "KEYBOARD = 0x4"
definition TEXT_INPUT :: YAEventType where [simp]: "TEXT_INPUT = 0x5"
definition TEXT_GET :: YAEventType where [simp]: "TEXT_GET = 0x6"
definition DISCOVER :: YAEventType where [simp]: "DISCOVER = 0x7"
definition MOUSE_STOP :: YAEventType where [simp]: "MOUSE_STOP = 0x8"
definition CONTROL :: YAEventType where [simp]: "CONTROL = 0x9"
definition AUTHORIZE :: YAEventType where [simp]: "AUTHORIZE = 0xA"
definition HEARTBEAT :: YAEventType where [simp]: "HEARTBEAT = 0xB"
definition SESSION_OPTION :: YAEventType where [simp]: "SESSION_OPTION = 0xC"

type_synonym YAEventDirection = u32

definition REQUEST :: YAEventDirection where [simp]: "REQUEST = 0x1"
definition RESPONSE :: YAEventDirection where [simp]: "RESPONSE = 0x2"

definition DISCOVERY_MAGIC :: u32 where [simp]: "DISCOVERY_MAGIC = 0x4B424D43"
definition YA_PROTOCOL_VERSION :: u32 where [simp]: "YA_PROTOCOL_VERSION = 3"

record YAEventHeader =
  h_type :: YAEventType
  direction :: YAEventDirection
  index :: u32
  uid :: u32

record YACommonEventRequest =
  lparam :: i32
  rparam :: i32

record YAKeyboardEventRequest =
  code :: i32
  op :: i32
  mods :: u32

record YAAuthorizeEventRequest =
  client_type :: u32
  version :: u32

text \<open>\<open>display_scale\<close> is kept as the bits of the float; \<open>macs\<close> is a pointer that may be null.\<close>

record YAAuthorizeEventResponse =
  success :: bool
  os_type :: u32
  r_uid :: u32
  session_port :: u16
  command_port :: u16
  macs :: "u8 list option"
  display_scale :: u32
  client_version :: u32

text \<open>
  What an event's \<open>void *param\<close> points to.  A text is the bytes of its buffer before the
  terminator the parser stores; the string functions read it up to its first NUL (\<open>cstr\<close>).
\<close>

datatype ya_param =
    CommonReq YACommonEventRequest
  | KeyboardReq YAKeyboardEventRequest
  | TextInputReq "u8 list"
  | InputGetResp "u8 list"
  | AuthorizeReq YAAuthorizeEventRequest
  | AuthorizeResp YAAuthorizeEventResponse
  | SessionOptionReq fp
  | DiscoverReq u32
  | DiscoverResp u16

record YAEvent =
  header :: YAEventHeader
  param :: "ya_param option"

record YAPackageSize =
  totalSize :: u32
  headerSize :: u32
  bodySize :: u32

section \<open>Serializers\<close>

text \<open>Each serializer reads its parameter: a null pointer, or one to another type, is undefined.\<close>

type_synonym serializer_fn = "ya_param option \<Rightarrow> mpack_writer \<Rightarrow> mpack_writer ub"

fun serialize_common_request :: serializer_fn where
  "serialize_common_request (Some (CommonReq req)) writer =
     (let w1 = mpack_start_array writer 2;
          w2 = mpack_write_i32 w1 (lparam req)
      in Defined (mpack_write_i32 w2 (rparam req)))"
| "serialize_common_request _ writer = UB"

fun serialize_keyboard_request :: serializer_fn where
  "serialize_keyboard_request (Some (KeyboardReq req)) writer =
     (let w1 = mpack_start_array writer 3;
          w2 = mpack_write_i32 w1 (code req);
          w3 = mpack_write_i32 w2 (op req)
      in Defined (mpack_write_u32 w3 (mods req)))"
| "serialize_keyboard_request _ writer = UB"

fun serialize_text_input_request :: serializer_fn where
  "serialize_text_input_request (Some (TextInputReq text)) writer =
     Defined (mpack_write_str writer (cstr text))"
| "serialize_text_input_request _ writer = UB"

fun serialize_text_get_response :: serializer_fn where
  "serialize_text_get_response (Some (InputGetResp text)) writer =
     Defined (mpack_write_str writer (cstr text))"
| "serialize_text_get_response _ writer = UB"

fun serialize_authorize_request :: serializer_fn where
  "serialize_authorize_request (Some (AuthorizeReq req)) writer =
     (let w1 = mpack_start_array writer 2;
          w2 = mpack_write_u32 w1 (client_type req)
      in Defined (mpack_write_u32 w2 (version req)))"
| "serialize_authorize_request _ writer = UB"

fun serialize_authorize_response :: serializer_fn where
  "serialize_authorize_response (Some (AuthorizeResp resp)) writer =
     (let macs' = (case macs resp of Some m \<Rightarrow> cstr m | None \<Rightarrow> []) in
      if 2 \<le> client_version resp then
        let w1 = mpack_start_array writer 8;
            w2 = mpack_write_bool w1 (success resp);
            w3 = mpack_write_u32 w2 (os_type resp);
            w4 = mpack_write_u32 w3 (r_uid resp);
            w5 = mpack_write_u32 w4 (ucast (session_port resp));
            w6 = mpack_write_u32 w5 (ucast (command_port resp));
            w7 = mpack_write_str w6 macs';
            w8 = mpack_write_float w7 (display_scale resp)
        in Defined (mpack_write_u32 w8 YA_PROTOCOL_VERSION)
      else
        let w1 = mpack_start_array writer 7;
            w2 = mpack_write_bool w1 (success resp);
            w3 = mpack_write_u32 w2 (os_type resp);
            w4 = mpack_write_u32 w3 (r_uid resp);
            w5 = mpack_write_u32 w4 (ucast (session_port resp));
            w6 = mpack_write_u32 w5 (ucast (command_port resp));
            w7 = mpack_write_str w6 macs'
        in Defined (mpack_write_float w7 (display_scale resp)))"
| "serialize_authorize_response _ writer = UB"

fun serialize_discover_response :: serializer_fn where
  "serialize_discover_response (Some (DiscoverResp port)) writer =
     (let w1 = mpack_start_array writer 2;
          w2 = mpack_write_u32 w1 DISCOVERY_MAGIC
      in Defined (mpack_write_u32 w2 (ucast port)))"
| "serialize_discover_response _ writer = UB"

definition get_serializer :: "YAEventType \<Rightarrow> YAEventDirection \<Rightarrow> serializer_fn option" where
  "get_serializer type dir =
     (if type = MOUSE_MOVE \<or> type = MOUSE_CLICK \<or> type = MOUSE_WHEEL \<or> type = CONTROL
      then Some serialize_common_request
      else if type = KEYBOARD then Some serialize_keyboard_request
      else if type = TEXT_INPUT then Some serialize_text_input_request
      else if type = TEXT_GET then Some serialize_text_get_response
      else if type = AUTHORIZE then Some serialize_authorize_response
      else if type = DISCOVER then Some serialize_discover_response
      else None)"

section \<open>Parsers\<close>

text \<open>\<open>Defined None\<close> is the return value -1.  The body parsers do not look at the reader's error.\<close>

type_synonym parser_fn = "u8 list \<Rightarrow> ya_param option ub"

definition parse_common_request :: parser_fn where
  "parse_common_request data =
     (let r = mpack_reader_init_data data;
          (r1, _) = mpack_expect_array r;
          (r2, l) = mpack_expect_i32 r1;
          (r3, x) = mpack_expect_i32 r2
      in Defined (Some (CommonReq \<lparr>lparam = l, rparam = x\<rparr>)))"

definition parse_keyboard_request :: parser_fn where
  "parse_keyboard_request data =
     (let r = mpack_reader_init_data data;
          (r1, _) = mpack_expect_array r;
          (r2, c) = mpack_expect_i32 r1;
          (r3, x) = mpack_expect_i32 r2;
          (r4, m) = mpack_expect_u32 r3
      in Defined (Some (KeyboardReq \<lparr>code = c, op = x, mods = m\<rparr>)))"

text \<open>
  \<open>malloc (str_len + 1)\<close> is computed in 32 bits: the length \<open>2 ^ 32 - 1\<close> allocates nothing,
  and the store of the terminator is out of bounds.
\<close>

definition parse_text :: "u8 list \<Rightarrow> u8 list ub" where
  "parse_text data =
     (let r = mpack_reader_init_data data;
          (r1, str_len) = mpack_expect_str r;
          size' = str_len + 1;
          (r2, text) = mpack_read_bytes r1 (unat str_len)
      in if unat str_len < unat size' then Defined text else UB)"

definition parse_text_input_request :: parser_fn where
  "parse_text_input_request data = ub_bind (parse_text data) (\<lambda>text. Defined (Some (TextInputReq text)))"

definition parse_text_get_response :: parser_fn where
  "parse_text_get_response data = ub_bind (parse_text data) (\<lambda>text. Defined (Some (InputGetResp text)))"

definition parse_authorize_request :: parser_fn where
  "parse_authorize_request data =
     (let r = mpack_reader_init_data data;
          (r1, _) = mpack_expect_array r;
          (r2, t) = mpack_expect_u32 r1;
          (r3, v) = mpack_expect_u32 r2
      in Defined (Some (AuthorizeReq \<lparr>client_type = t, version = v\<rparr>)))"

definition parse_session_option_request :: "bool \<Rightarrow> parser_fn" where
  "parse_session_option_request oom data =
     (let r = mpack_reader_init_data data;
          (r1, _) = mpack_expect_array r
      in if oom then Defined None
         else Defined (Some (SessionOptionReq
                (if rerror r1 = mpack_ok then snd (mpack_expect_float r1) else Fin 0))))"

definition parse_discover_request :: parser_fn where
  "parse_discover_request data =
     (let r = mpack_reader_init_data data;
          (r1, m) = mpack_expect_u32 r
      in Defined (Some (DiscoverReq m)))"

definition get_parser :: "bool \<Rightarrow> YAEventType \<Rightarrow> YAEventDirection \<Rightarrow> parser_fn option" where
  "get_parser oom type dir =
     (if type = MOUSE_MOVE \<or> type = MOUSE_CLICK \<or> type = MOUSE_WHEEL \<or> type = CONTROL
      then Some parse_common_request
      else if type = KEYBOARD then Some parse_keyboard_request
      else if type = TEXT_INPUT then Some parse_text_input_request
      else if type = TEXT_GET then Some parse_text_get_response
      else if type = AUTHORIZE then Some parse_authorize_request
      else if type = SESSION_OPTION then Some (parse_session_option_request oom)
      else if type = DISCOVER then Some parse_discover_request
      else None)"

section \<open>Buffers\<close>

text \<open>
  The operations of libevent's buffers.  \<open>ev_pullup b n\<close> is the contiguous memory
  \<open>evbuffer_pullup\<close> returns, \<open>None\<close> for a null pointer; \<open>ev_copyout b start n\<close> the bytes
  \<open>evbuffer_copyout_from\<close> copies.
\<close>

record 'b evbuffer_api =
  ev_length :: "'b \<Rightarrow> nat"
  ev_pullup :: "'b \<Rightarrow> int \<Rightarrow> u8 list option"
  ev_drain :: "'b \<Rightarrow> nat \<Rightarrow> 'b"
  ev_copyout :: "'b \<Rightarrow> nat \<Rightarrow> nat \<Rightarrow> u8 list"

definition evbuffer_laws :: "'b evbuffer_api \<Rightarrow> ('b \<Rightarrow> u8 list) \<Rightarrow> bool" where
  "evbuffer_laws ev bytes \<longleftrightarrow>
     (\<forall>b. ev_length ev b = length (bytes b)) \<and>
     (\<forall>b n. 0 < n \<longrightarrow> n \<le> length (bytes b) \<longrightarrow> ev_pullup ev b (int n) = Some (take n (bytes b))) \<and>
     (\<forall>b n. length (bytes b) < n \<longrightarrow> ev_pullup ev b (int n) = None) \<and>
     (\<forall>b n. bytes (ev_drain ev b n) = drop n (bytes b)) \<and>
     (\<forall>b start n. start + n \<le> length (bytes b) \<longrightarrow>
        ev_copyout ev b start n = take n (drop start (bytes b)))"

text \<open>A buffer that is a list of bytes: an instance of the interface, for evaluation.\<close>

definition list_evbuffer :: "u8 list evbuffer_api" where
  "list_evbuffer =
     \<lparr>ev_length = length,
      ev_pullup = (\<lambda>b n. if n < 0 then Some b else if int (length b) < n then None
                         else Some (take (nat n) b)),
      ev_drain = (\<lambda>b n. drop n b),
      ev_copyout = (\<lambda>b start n. take n (drop start b))\<rparr>"

lemma list_evbuffer_laws: "evbuffer_laws list_evbuffer (\<lambda>b. b)"
  by (simp add: evbuffer_laws_def list_evbuffer_def)

text \<open>\<open>to_uint32\<close> of \<open>ya_utils.c\<close>: four bytes in network order; what is not copied stays 0.\<close>

definition to_uint32 :: "'b evbuffer_api \<Rightarrow> 'b \<Rightarrow> nat \<Rightarrow> u32" where
  "to_uint32 ev buffer start = mpack_load_u32 (take 4 (ev_copyout ev buffer start 4 @ [0, 0, 0, 0]))"

section \<open>Packages\<close>

definition ya_get_package_size :: "'b evbuffer_api \<Rightarrow> 'b \<Rightarrow> YAPackageSize" where
  "ya_get_package_size ev buffer =
     (let total = to_uint32 ev buffer 0;
          hdr = to_uint32 ev buffer 4
      in \<lparr>totalSize = total, headerSize = hdr, bodySize = total - hdr - 4\<rparr>)"

definition ya_parse_event_header :: "'b evbuffer_api \<Rightarrow> 'b \<Rightarrow> u32 \<Rightarrow> YAEventHeader option" where
  "ya_parse_event_header ev buf len =
     (if ev_length ev buf < unat len then None
      else case ev_pullup ev buf (int (unat len)) of
        None \<Rightarrow> None
      | Some data \<Rightarrow>
          let reader = mpack_reader_init_data data;
              (r1, count) = mpack_expect_array reader;
              r2 = (if count \<noteq> 4 then mpack_reader_flag_error r1 mpack_error_type else r1);
              (r3, uid') = mpack_expect_i32 r2;
              (r4, type') = mpack_expect_i32 r3;
              (r5, direction') = mpack_expect_i32 r4;
              (r6, index') = mpack_expect_i32 r5
          in if rerror r6 \<noteq> mpack_ok then None
             else Some \<lparr>h_type = ucast (ucast type' :: u8), direction = ucast (ucast direction' :: u8),
                        index = index', uid = uid'\<rparr>)"

text \<open>
  \<open>content_len\<close> is an \<open>int\<close>.  A negative one is passed to \<open>evbuffer_pullup\<close>, which then
  returns the whole buffer, and becomes a huge length for the parser: undefined.  Without a
  parser the payload is only drained.
\<close>

definition ya_parse_event ::
  "'b evbuffer_api \<Rightarrow> bool \<Rightarrow> 'b \<Rightarrow> YAEvent \<Rightarrow> YAPackageSize \<Rightarrow> ('b \<times> YAEvent option) ub" where
  "ya_parse_event ev oom buf event sz =
     (case ya_parse_event_header ev buf (headerSize sz) of
        None \<Rightarrow> Defined (buf, None)
      | Some hdr \<Rightarrow>
          let buf1 = ev_drain ev buf (unat (headerSize sz));
              content_len = sint (bodySize sz)
          in if content_len = 0 then Defined (buf1, Some (event\<lparr>header := hdr\<rparr>))
             else case ev_pullup ev buf1 content_len of
               None \<Rightarrow> Defined (buf1, None)
             | Some payload \<Rightarrow>
                 let buf2 = ev_drain ev buf1 (unat (scast (bodySize sz) :: u64)) in
                 case get_parser oom (h_type hdr) (direction hdr) of
                   None \<Rightarrow> Defined (buf2, Some (event\<lparr>header := hdr, param := None\<rparr>))
                 | Some parser \<Rightarrow>
                     if content_len < 0 then UB
                     else ub_bind (parser payload) (\<lambda>p.
                       case p of
                         None \<Rightarrow> Defined (buf1, None)
                       | Some _ \<Rightarrow> Defined (buf2, Some (event\<lparr>header := hdr, param := p\<rparr>))))"

text \<open>
  The header part of a package, and the package.  Sizes are \<open>size_t\<close>; the length returned is
  an \<open>int\<close>, and a package of \<open>2 ^ 31\<close> bytes or more is not allocated.
\<close>

definition header_bytes :: "YAEventHeader \<Rightarrow> u8 list" where
  "header_bytes hdr =
     (let h1 = mpack_start_array mpack_writer_init_growable 4;
          h2 = mpack_write_u32 h1 (uid hdr);
          h3 = mpack_write_u32 h2 (h_type hdr);
          h4 = mpack_write_u32 h3 (direction hdr)
      in wbuf (mpack_write_u32 h4 (index hdr)))"

definition ya_serialize_event :: "YAEvent \<Rightarrow> u8 list ub" where
  "ya_serialize_event event =
     (let ser = get_serializer (h_type (header event)) (direction (header event));
          pw = mpack_writer_init_growable
      in ub_bind (case ser of None \<Rightarrow> Defined pw | Some s \<Rightarrow> s (param event) pw) (\<lambda>pw'.
           let body = wbuf pw';
               hdr = header_bytes (header event);
               total = length hdr + length body + 4
           in if total + 4 < 2 ^ 31
              then Defined (mpack_store_u32 (word_of_nat total) @ mpack_store_u32 (word_of_nat (length hdr)) @
                            hdr @ body)
              else UB))"

text \<open>
  \<open>ya_free_event_param\<close>: the blocks it frees.  The structure that holds a text is not freed,
  only the text.
\<close>

datatype freed_block = FreedText | FreedMacs | FreedParam

definition ya_free_event_param :: "YAEvent \<Rightarrow> (YAEvent \<times> freed_block list) ub" where
  "ya_free_event_param event =
     (case param event of
        None \<Rightarrow> Defined (event, [])
      | Some p \<Rightarrow>
          let event' = event\<lparr>param := None\<rparr>; type = h_type (header event) in
          if type = TEXT_INPUT then (case p of TextInputReq _ \<Rightarrow> Defined (event', [FreedText]) | _ \<Rightarrow> UB)
          else if type = TEXT_GET then (case p of InputGetResp _ \<Rightarrow> Defined (event', [FreedText]) | _ \<Rightarrow> UB)
          else if type = AUTHORIZE \<and> direction (header event) = RESPONSE then
            (case p of
               AuthorizeResp resp \<Rightarrow>
                 Defined (event', (if macs resp \<noteq> None then [FreedMacs] else []) @ [FreedParam])
             | _ \<Rightarrow> UB)
          else Defined (event', [FreedParam]))"

abbreviation ok_reader :: "u8 list \<Rightarrow> mpack_reader" where
  "ok_reader data \<equiv> \<lparr>rdata = data, rerror = mpack_ok\<rparr>"

lemma expect_simps [simp]:
  "mpack_expect_u32 (ok_reader (u32_bytes v @ rest)) = (ok_reader rest, v)"
  "mpack_expect_i32 (ok_reader (i32_bytes i @ rest)) = (ok_reader rest, i)"
  "mpack_expect_array (ok_reader (array_bytes n @ rest)) = (ok_reader rest, n)"
  "length s < 2 ^ 32 \<Longrightarrow>
     mpack_expect_str (ok_reader (str_bytes s @ rest)) = (ok_reader (s @ rest), word_of_nat (length s))"
  "mpack_expect_i32 (ok_reader (u32_bytes v @ rest)) =
     (if v \<le> 0x7FFFFFFF then (ok_reader rest, v) else (\<lparr>rdata = [], rerror = mpack_error_type\<rparr>, 0))"
  by (simp_all add: expect_u32_bytes expect_i32_bytes expect_array_bytes expect_str_bytes expect_i32_u32_bytes)

lemmas expect_simps_end [simp] =
  expect_simps(1) [where rest = "[]", simplified] expect_simps(2) [where rest = "[]", simplified]
  expect_simps(4) [where rest = "[]", simplified] expect_simps(5) [where rest = "[]", simplified]

text \<open>A reader in an error state has no data, returns zeros and stays as it is.\<close>

lemma failed_reader [simp]:
  assumes "e \<noteq> mpack_ok"
  shows "mpack_expect_i32 \<lparr>rdata = [], rerror = e\<rparr> = (\<lparr>rdata = [], rerror = e\<rparr>, 0)"
    and "mpack_expect_u32 \<lparr>rdata = [], rerror = e\<rparr> = (\<lparr>rdata = [], rerror = e\<rparr>, 0)"
  using assms
  by (simp_all add: mpack_expect_i32_def mpack_expect_u32_def mpack_read_tag_def mpack_reader_flag_error_def)

lemma header_bytes_eq:
  "header_bytes h =
     array_bytes 4 @ u32_bytes (uid h) @ u32_bytes (h_type h) @ u32_bytes (direction h) @ u32_bytes (index h)"
  by (simp add: header_bytes_def growable_writes)

lemma length_u32_bytes: "length (u32_bytes v) \<le> 5" "0 < length (u32_bytes v)"
  by (simp_all add: u32_bytes_eq length_store)

lemma length_header_bytes: "length (header_bytes h) \<le> 21" "0 < length (header_bytes h)"
  using length_u32_bytes(1) [of "uid h"] length_u32_bytes(1) [of "h_type h"]
    length_u32_bytes(1) [of "direction h"] length_u32_bytes(1) [of "index h"]
  by (simp_all add: header_bytes_eq array_bytes_eq)

lemma ucast_byte: "unat (v :: u32) < 256 \<Longrightarrow> ucast (ucast v :: u8) = v"
  by (simp add: word_unat_eq_iff)

definition wire_header :: "YAEventHeader \<Rightarrow> bool" where
  "wire_header h \<longleftrightarrow> unat (h_type h) < 256 \<and> unat (direction h) < 256"

lemma parse_header_bytes:
  assumes laws: "evbuffer_laws ev bytes" and data: "bytes buf = header_bytes h @ rest"
    and "wire_header h"
  shows "ya_parse_event_header ev buf (word_of_nat (length (header_bytes h))) =
     (if uid h \<le> 0x7FFFFFFF \<and> index h \<le> 0x7FFFFFFF then Some h else None)"
proof -
  let ?n = "length (header_bytes h)"
  have n: "unat (word_of_nat ?n :: u32) = ?n"
    using length_header_bytes [of h] by (simp add: unat_of_nat take_bit_nat_eq_self)
  have bounds: "h_type h \<le> 0x7FFFFFFF" "direction h \<le> 0x7FFFFFFF"
    using assms(3) by (simp_all add: wire_header_def word_le_nat_alt)
  from laws data length_header_bytes [of h] have "ev_length ev buf = ?n + length rest"
    and "ev_pullup ev buf (int ?n) = Some (header_bytes h)"
    by (simp_all add: evbuffer_laws_def)
  with n show ?thesis
    using assms(3) bounds
    by (simp add: ya_parse_event_header_def mpack_reader_init_data_def header_bytes_eq Let_def
        wire_header_def ucast_byte)
qed

lemma to_uint32_eq:
  assumes "evbuffer_laws ev bytes" and "start + 4 \<le> length (bytes buf)"
  shows "to_uint32 ev buf start = mpack_load_u32 (take 4 (drop start (bytes buf)))"
  using assms by (simp add: to_uint32_def evbuffer_laws_def)

lemma package_size_frame:
  assumes "evbuffer_laws ev bytes"
    and "bytes buf = mpack_store_u32 tot @ mpack_store_u32 hdr @ rest"
  shows "ya_get_package_size ev buf = \<lparr>totalSize = tot, headerSize = hdr, bodySize = tot - hdr - 4\<rparr>"
  using assms(2)
  by (simp add: ya_get_package_size_def to_uint32_eq [OF assms(1)] length_store load_store_u32')

lemma drain_bytes: "evbuffer_laws ev bytes \<Longrightarrow> bytes (ev_drain ev b n) = drop n (bytes b)"
  by (simp add: evbuffer_laws_def)

lemma pullup_bytes:
  "evbuffer_laws ev bytes \<Longrightarrow> 0 < n \<Longrightarrow> n \<le> length (bytes b) \<Longrightarrow>
     ev_pullup ev b (int n) = Some (take n (bytes b))"
  by (simp add: evbuffer_laws_def)

section \<open>Framing\<close>

definition frame :: "YAEventHeader \<Rightarrow> u8 list \<Rightarrow> u8 list" where
  "frame h body =
     mpack_store_u32 (word_of_nat (length (header_bytes h) + length body + 4)) @
     mpack_store_u32 (word_of_nat (length (header_bytes h))) @ header_bytes h @ body"

lemma length_frame: "length (frame h body) = length (header_bytes h) + length body + 8"
  by (simp add: frame_def length_store)

lemma serialize_frame:
  assumes "get_serializer (h_type (header e)) (direction (header e)) = Some s"
    and "s (param e) mpack_writer_init_growable =
           Defined (mpack_writer_init_growable\<lparr>wbuf := body\<rparr>)"
    and "length (frame (header e) body) < 2 ^ 31"
  shows "ya_serialize_event e = Defined (frame (header e) body)"
proof -
  have "length (header_bytes (header e)) + length body + 4 + 4 < 2 ^ 31"
    using assms(3) unfolding length_frame by simp
  then show ?thesis by (simp add: ya_serialize_event_def assms(1,2) Let_def frame_def)
qed

lemma parse_frame:
  assumes laws: "evbuffer_laws ev bytes" and data: "bytes buf = frame h body @ rest"
    and h: "wire_header h" "uid h \<le> 0x7FFFFFFF" "index h \<le> 0x7FFFFFFF"
    and body: "body \<noteq> []" "length (frame h body) < 2 ^ 31"
    and parser: "get_parser oom (h_type h) (direction h) = Some f" "f body = Defined (Some p)"
  shows "\<exists>buf'. ya_parse_event ev oom (ev_drain ev buf 8) e (ya_get_package_size ev buf) =
            Defined (buf', Some (e\<lparr>header := h, param := Some p\<rparr>)) \<and> bytes buf' = rest"
proof -
  let ?n = "length (header_bytes h)" and ?m = "length body"
  let ?sz = "ya_get_package_size ev buf"
  let ?b0 = "ev_drain ev buf 8" and ?b1 = "ev_drain ev (ev_drain ev buf 8) ?n"
  have small: "?n + ?m + 8 < 2 ^ 31" using body(2) by (simp add: length_frame)
  have hs: "headerSize ?sz = word_of_nat ?n"
    and bs: "bodySize ?sz = word_of_nat ?m"
    using package_size_frame [OF laws, of buf] data by (simp_all add: frame_def)
  have n: "unat (word_of_nat ?n :: u32) = ?n" and m: "sint (word_of_nat ?m :: u32) = int ?m"
    using small sint_word_of_int_i32 [of "int ?m"] by (simp_all add: unat_of_nat take_bit_nat_eq_self)
  have m': "unat (scast (word_of_nat ?m :: u32) :: u64) = ?m"
    using small unfolding scast_eq m by (simp add: unat_of_nat take_bit_nat_eq_self)
  have b0: "bytes ?b0 = header_bytes h @ body @ rest"
    using drain_bytes [OF laws] data by (simp add: frame_def length_store)
  have hdr: "ya_parse_event_header ev ?b0 (word_of_nat ?n) = Some h"
    using parse_header_bytes [OF laws b0 h(1)] h(2,3) by simp
  have b1: "bytes ?b1 = body @ rest" using drain_bytes [OF laws] b0 by simp
  have pl: "ev_pullup ev ?b1 (int ?m) = Some body"
    using pullup_bytes [OF laws, of ?m ?b1] b1 body(1) by simp
  have "ya_parse_event ev oom ?b0 e ?sz =
      Defined (ev_drain ev ?b1 ?m, Some (e\<lparr>header := h, param := Some p\<rparr>))"
    using body(1) by (simp add: ya_parse_event_def hs bs n m m' hdr pl parser Let_def)
  with drain_bytes [OF laws, of ?b1 ?m] b1 show ?thesis by simp
qed

text \<open>
  The contract of an event type's payload: its serializer appends the bytes of a valid value to
  a growable writer, and its parser turns them back into it.  Framing and parsing are then
  inverse to each other for every payload that meets it.
\<close>

locale payload_codec =
  fixes types :: "YAEventType set" and valid :: "'p \<Rightarrow> bool"
    and wrap :: "'p \<Rightarrow> ya_param" and payload :: "'p \<Rightarrow> u8 list"
  assumes serializes: "t \<in> types \<Longrightarrow> valid p \<Longrightarrow>
      \<exists>s. get_serializer t d = Some s \<and>
          s (Some (wrap p)) mpack_writer_init_growable =
            Defined (mpack_writer_init_growable\<lparr>wbuf := payload p\<rparr>)"
    and parses: "t \<in> types \<Longrightarrow> valid p \<Longrightarrow>
      \<exists>f. get_parser oom t d = Some f \<and> f (payload p) = Defined (Some (wrap p))"
    and payload_nonempty: "valid p \<Longrightarrow> payload p \<noteq> []"
begin

lemma frame_roundtrip:
  assumes "h_type h \<in> types" "valid p" "wire_header h" "uid h \<le> 0x7FFFFFFF" "index h \<le> 0x7FFFFFFF"
    and "length (payload p) + 29 < 2 ^ 31" and "evbuffer_laws ev bytes"
  shows "\<exists>out. ya_serialize_event \<lparr>header = h, param = Some (wrap p)\<rparr> = Defined out \<and>
    (\<forall>buf rest e. bytes buf = out @ rest \<longrightarrow>
      (\<exists>buf'. ya_parse_event ev oom (ev_drain ev buf 8) e (ya_get_package_size ev buf) =
        Defined (buf', Some \<lparr>header = h, param = Some (wrap p)\<rparr>) \<and> bytes buf' = rest))"
proof -
  have len: "length (frame h (payload p)) < 2 ^ 31"
    using length_header_bytes(1) [of h] assms(6) by (simp add: length_frame)
  from serializes [OF assms(1,2), where d = "direction h"] len
  have ser: "ya_serialize_event \<lparr>header = h, param = Some (wrap p)\<rparr> = Defined (frame h (payload p))"
    using serialize_frame [of "\<lparr>header = h, param = Some (wrap p)\<rparr>"] by auto
  from parses [OF assms(1,2), where d = "direction h"] obtain f where
    f: "get_parser oom (h_type h) (direction h) = Some f" "f (payload p) = Defined (Some (wrap p))" by blast
  have "\<exists>buf'. ya_parse_event ev oom (ev_drain ev buf 8) e (ya_get_package_size ev buf) =
        Defined (buf', Some \<lparr>header = h, param = Some (wrap p)\<rparr>) \<and> bytes buf' = rest"
    if "bytes buf = frame h (payload p) @ rest" for buf rest e
    using parse_frame [OF assms(7) that assms(3-5) payload_nonempty [OF assms(2)] len f, of e]
    by (cases e) simp
  with ser show ?thesis by blast
qed

end

lemma array_bytes_nonempty [simp]: "array_bytes n \<noteq> []"
  by (simp add: array_bytes_eq)

interpretation common: payload_codec
  "{MOUSE_MOVE, MOUSE_CLICK, MOUSE_WHEEL, CONTROL}" "\<lambda>_. True" CommonReq
  "\<lambda>r. array_bytes 2 @ i32_bytes (lparam r) @ i32_bytes (rparam r)"
proof (unfold_locales, goal_cases)
  case (1 t p d)
  then show ?case by (auto simp: get_serializer_def growable_writes Let_def)
next
  case (2 t p oom d)
  then show ?case
    by (auto simp: get_parser_def parse_common_request_def mpack_reader_init_data_def Let_def)
qed simp

interpretation keyboard: payload_codec
  "{KEYBOARD}" "\<lambda>_. True" KeyboardReq
  "\<lambda>r. array_bytes 3 @ i32_bytes (code r) @ i32_bytes (op r) @ u32_bytes (mods r)"
proof (unfold_locales, goal_cases)
  case (1 t p d)
  then show ?case by (auto simp: get_serializer_def growable_writes Let_def)
next
  case (2 t p oom d)
  then show ?case
    by (auto simp: get_parser_def parse_keyboard_request_def mpack_reader_init_data_def Let_def)
qed simp

text \<open>A text without NUL bytes that fits one package.\<close>

definition wire_text :: "u8 list \<Rightarrow> bool" where
  "wire_text s \<longleftrightarrow> 0 \<notin> set s \<and> length s < 2 ^ 31"

lemma cstr_wire_text: "0 \<notin> set s \<Longrightarrow> cstr s = s"
  by (auto simp: cstr_def takeWhile_eq_all_conv)

lemma parse_text_bytes: "length s < 2 ^ 31 \<Longrightarrow> parse_text (str_bytes s) = Defined s"
proof -
  assume a: "length s < 2 ^ 31"
  then have n: "unat (word_of_nat (length s) :: u32) = length s"
    by (simp add: unat_of_nat take_bit_nat_eq_self)
  with a have n1: "unat (word_of_nat (length s) + 1 :: u32) = length s + 1"
    by (simp add: unat_word_ariths)
  show ?thesis using a by (simp add: parse_text_def mpack_reader_init_data_def n n1 mpack_read_bytes_def)
qed

lemma str_bytes_nonempty [simp]: "str_bytes s \<noteq> []"
  by (simp add: str_bytes_eq Let_def)

interpretation text_input: payload_codec "{TEXT_INPUT}" wire_text TextInputReq str_bytes
  by unfold_locales
    (auto simp: get_serializer_def get_parser_def growable_writes cstr_wire_text wire_text_def
      parse_text_input_request_def parse_text_bytes)

interpretation text_get: payload_codec "{TEXT_GET}" wire_text InputGetResp str_bytes
  by unfold_locales
    (auto simp: get_serializer_def get_parser_def growable_writes cstr_wire_text wire_text_def
      parse_text_get_response_def parse_text_bytes)

lemma length_i32_bytes: "length (i32_bytes v) \<le> 5"
  by (simp add: i32_bytes_eq length_store)

lemma length_array_bytes: "length (array_bytes n) \<le> 5"
  by (simp add: array_bytes_eq length_store)

lemma length_str_bytes: "length (str_bytes s) \<le> length s + 5"
  by (simp add: str_bytes_eq length_store Let_def)

section \<open>Properties\<close>

text \<open>C4.
  Round trip of mouse and control commands: \<open>ya_serialize_event\<close> makes a package of every such
  request, and whatever bytes follow it in the buffer, the reading side (size, removal of the
  two length words, parser) gives back the same event and leaves exactly the following bytes.
  Identifiers stay below \<open>2 ^ 31\<close>, as the header parser demands.
\<close>

theorem common_event_roundtrip:
  assumes "h_type h \<in> {MOUSE_MOVE, MOUSE_CLICK, MOUSE_WHEEL, CONTROL}" "unat (direction h) < 256"
    and "uid h \<le> 0x7FFFFFFF" "index h \<le> 0x7FFFFFFF" and "evbuffer_laws ev bytes"
  shows "\<exists>out. ya_serialize_event \<lparr>header = h, param = Some (CommonReq r)\<rparr> = Defined out \<and>
    (\<forall>buf rest e. bytes buf = out @ rest \<longrightarrow>
      (\<exists>buf'. ya_parse_event ev oom (ev_drain ev buf 8) e (ya_get_package_size ev buf) =
        Defined (buf', Some \<lparr>header = h, param = Some (CommonReq r)\<rparr>) \<and> bytes buf' = rest))"
proof (rule common.frame_roundtrip)
  show "wire_header h" using assms(1,2) by (auto simp: wire_header_def)
  show "length (array_bytes 2 @ i32_bytes (lparam r) @ i32_bytes (rparam r)) + 29 < 2 ^ 31"
    using length_array_bytes [of 2] length_i32_bytes [of "lparam r"] length_i32_bytes [of "rparam r"]
    by simp
qed (use assms in simp_all)

definition sample_header :: "YAEventType \<Rightarrow> YAEventHeader" where
  "sample_header t = \<lparr>h_type = t, direction = REQUEST, index = 7, uid = 1001\<rparr>"

theorem common_event_roundtrip_witness:
  "\<exists>out. ya_serialize_event \<lparr>header = sample_header MOUSE_MOVE,
        param = Some (CommonReq \<lparr>lparam = - 300, rparam = 12\<rparr>)\<rparr> = Defined out \<and>
    (\<exists>buf'. ya_parse_event list_evbuffer False (ev_drain list_evbuffer (out @ [1, 2]) 8)
        \<lparr>header = sample_header 0, param = None\<rparr> (ya_get_package_size list_evbuffer (out @ [1, 2])) =
      Defined (buf', Some \<lparr>header = sample_header MOUSE_MOVE,
        param = Some (CommonReq \<lparr>lparam = - 300, rparam = 12\<rparr>)\<rparr>) \<and> buf' = [1, 2])"
  using common_event_roundtrip [of "sample_header MOUSE_MOVE" list_evbuffer "\<lambda>b. b"
      "\<lparr>lparam = - 300, rparam = 12\<rparr>" False] list_evbuffer_laws
  by (simp add: sample_header_def) blast

text \<open>
  Round trip of keyboard commands: code, operation and modifier mask survive serialization,
  framing and parsing, for every value of the three fields.
\<close>

theorem keyboard_event_roundtrip:
  assumes "h_type h = KEYBOARD" "unat (direction h) < 256"
    and "uid h \<le> 0x7FFFFFFF" "index h \<le> 0x7FFFFFFF" and "evbuffer_laws ev bytes"
  shows "\<exists>out. ya_serialize_event \<lparr>header = h, param = Some (KeyboardReq r)\<rparr> = Defined out \<and>
    (\<forall>buf rest e. bytes buf = out @ rest \<longrightarrow>
      (\<exists>buf'. ya_parse_event ev oom (ev_drain ev buf 8) e (ya_get_package_size ev buf) =
        Defined (buf', Some \<lparr>header = h, param = Some (KeyboardReq r)\<rparr>) \<and> bytes buf' = rest))"
proof (rule keyboard.frame_roundtrip)
  show "wire_header h" using assms(1,2) by (auto simp: wire_header_def)
  show "length (array_bytes 3 @ i32_bytes (code r) @ i32_bytes (op r) @ u32_bytes (mods r)) + 29 < 2 ^ 31"
    using length_array_bytes [of 3] length_i32_bytes [of "code r"] length_i32_bytes [of "op r"]
      length_u32_bytes(1) [of "mods r"] by simp
qed (use assms in simp_all)

theorem keyboard_event_roundtrip_witness:
  "\<exists>out. ya_serialize_event \<lparr>header = sample_header KEYBOARD,
        param = Some (KeyboardReq \<lparr>code = 0x61, op = 2, mods = 3\<rparr>)\<rparr> = Defined out \<and>
    (\<exists>buf'. ya_parse_event list_evbuffer False (ev_drain list_evbuffer (out @ [9]) 8)
        \<lparr>header = sample_header 0, param = None\<rparr> (ya_get_package_size list_evbuffer (out @ [9])) =
      Defined (buf', Some \<lparr>header = sample_header KEYBOARD,
        param = Some (KeyboardReq \<lparr>code = 0x61, op = 2, mods = 3\<rparr>)\<rparr>) \<and> buf' = [9])"
  using keyboard_event_roundtrip [of "sample_header KEYBOARD" list_evbuffer "\<lambda>b. b"
      "\<lparr>code = 0x61, op = 2, mods = 3\<rparr>" False] list_evbuffer_laws
  by (simp add: sample_header_def) blast

text \<open>
  Round trip of text input: every text without NUL bytes (up to the package size an \<open>int\<close> can
  hold) arrives unchanged, whichever of the four string encodings its length selects.
\<close>

theorem text_event_roundtrip:
  assumes "h_type h = TEXT_INPUT" "unat (direction h) < 256"
    and "uid h \<le> 0x7FFFFFFF" "index h \<le> 0x7FFFFFFF"
    and "0 \<notin> set s" "length s + 34 < 2 ^ 31" and "evbuffer_laws ev bytes"
  shows "\<exists>out. ya_serialize_event \<lparr>header = h, param = Some (TextInputReq s)\<rparr> = Defined out \<and>
    (\<forall>buf rest e. bytes buf = out @ rest \<longrightarrow>
      (\<exists>buf'. ya_parse_event ev oom (ev_drain ev buf 8) e (ya_get_package_size ev buf) =
        Defined (buf', Some \<lparr>header = h, param = Some (TextInputReq s)\<rparr>) \<and> bytes buf' = rest))"
proof (rule text_input.frame_roundtrip)
  show "wire_header h" using assms(1,2) by (auto simp: wire_header_def)
  show "length (str_bytes s) + 29 < 2 ^ 31" using length_str_bytes [of s] assms(6) by simp
qed (use assms in \<open>simp_all add: wire_text_def\<close>)

theorem text_event_roundtrip_witness:
  "\<exists>out. ya_serialize_event \<lparr>header = sample_header TEXT_INPUT,
        param = Some (TextInputReq [104, 105])\<rparr> = Defined out \<and>
    (\<exists>buf'. ya_parse_event list_evbuffer False (ev_drain list_evbuffer (out @ [9]) 8)
        \<lparr>header = sample_header 0, param = None\<rparr> (ya_get_package_size list_evbuffer (out @ [9])) =
      Defined (buf', Some \<lparr>header = sample_header TEXT_INPUT,
        param = Some (TextInputReq [104, 105])\<rparr>) \<and> buf' = [9])"
  using text_event_roundtrip [of "sample_header TEXT_INPUT" "[104, 105]" list_evbuffer "\<lambda>b. b" False]
    list_evbuffer_laws
  by (simp add: sample_header_def) blast

lemma serialize_is_frame:
  assumes "ya_serialize_event e = Defined out"
  shows "\<exists>body. out = frame (header e) body \<and> length out < 2 ^ 31"
proof -
  from assms have "\<exists>pw :: mpack_writer. (if length (header_bytes (header e)) + length (wbuf pw) + 4 + 4 < 2 ^ 31
      then Defined (frame (header e) (wbuf pw)) else UB) = Defined out"
    unfolding ya_serialize_event_def Let_def ub_bind_eq_Defined frame_def by blast
  then obtain pw :: mpack_writer where "length (header_bytes (header e)) + length (wbuf pw) + 4 + 4 < 2 ^ 31"
    and "out = frame (header e) (wbuf pw)" by (auto split: if_splits)
  then show ?thesis by (intro exI [of _ "wbuf pw"]) (simp add: length_frame)
qed

text \<open>
  The header fields are written as unsigned 32-bit numbers and read as signed ones: an event
  whose client or command number is \<open>2 ^ 31\<close> or more is never parsed back; the reader returns
  -1 and leaves its bytes in the buffer.
\<close>

theorem large_ids_rejected:
  assumes "unat (h_type (header e)) < 256" "unat (direction (header e)) < 256"
    and "0x7FFFFFFF < uid (header e) \<or> 0x7FFFFFFF < index (header e)"
    and "ya_serialize_event e = Defined out"
    and laws: "evbuffer_laws ev bytes" and data: "bytes buf = out @ rest"
  shows "ya_parse_event ev oom (ev_drain ev buf 8) e' (ya_get_package_size ev buf) =
    Defined (ev_drain ev buf 8, None)"
proof -
  from serialize_is_frame [OF assms(4)] obtain body where out: "out = frame (header e) body" by blast
  let ?h = "header e"
  have "bytes (ev_drain ev buf 8) = header_bytes ?h @ body @ rest"
    using drain_bytes [OF laws] data by (simp add: out frame_def length_store)
  moreover have "wire_header ?h" using assms(1,2) by (simp add: wire_header_def)
  moreover have "headerSize (ya_get_package_size ev buf) = word_of_nat (length (header_bytes ?h))"
    using package_size_frame [OF laws, of buf] data by (simp add: out frame_def)
  ultimately show ?thesis
    using assms(3) by (auto simp: ya_parse_event_def parse_header_bytes [OF laws] not_le)
qed

definition large_index_event :: YAEvent where
  "large_index_event =
     \<lparr>header = \<lparr>h_type = HEARTBEAT, direction = REQUEST, index = 0x80000000, uid = 5\<rparr>, param = None\<rparr>"

theorem large_ids_rejected_witness:
  "\<exists>out. ya_serialize_event large_index_event = Defined out \<and>
     ya_parse_event list_evbuffer False (ev_drain list_evbuffer (out @ [3]) 8)
       \<lparr>header = sample_header 0, param = None\<rparr> (ya_get_package_size list_evbuffer (out @ [3])) =
     Defined (ev_drain list_evbuffer (out @ [3]) 8, None)"
proof -
  have "\<exists>out. ya_serialize_event large_index_event = Defined out"
    using length_header_bytes(1) [of "header large_index_event"]
    by (simp add: ya_serialize_event_def get_serializer_def large_index_event_def Let_def)
  then show ?thesis
    using large_ids_rejected [of large_index_event, OF _ _ _ _ list_evbuffer_laws]
    by (auto simp: large_index_event_def)
qed

lemma pullup_Some_length:
  assumes "evbuffer_laws ev bytes" "ev_pullup ev b (int n) = Some m"
  shows "n \<le> length (bytes b)"
proof (rule ccontr)
  assume "\<not> n \<le> length (bytes b)"
  with assms(1) have "ev_pullup ev b (int n) = None" by (simp add: evbuffer_laws_def)
  with assms(2) show False by simp
qed

text \<open>
  A successful parse consumes exactly one package: the buffer held all of it, what remains is
  what followed it, and the event carries the header that was read.
\<close>

theorem parse_event_consumes:
  assumes laws: "evbuffer_laws ev bytes" and pos: "0 \<le> sint (bodySize sz)"
    and parse: "ya_parse_event ev oom buf e sz = Defined (buf', Some e')"
  shows "unat (headerSize sz) + unat (bodySize sz) \<le> length (bytes buf) \<and>
    bytes buf' = drop (unat (headerSize sz) + unat (bodySize sz)) (bytes buf) \<and>
    ya_parse_event_header ev buf (headerSize sz) = Some (header e')"
proof -
  define k where "k = unat (bodySize sz)"
  let ?n = "unat (headerSize sz)"
  have m: "sint (bodySize sz) = int k" using sint_nonneg_unat [OF pos] by (simp add: k_def)
  have "k < 2 ^ 32" using unat_u32_bound by (simp add: k_def)
  then have m': "unat (scast (bodySize sz) :: u64) = k"
    unfolding scast_eq m by (simp add: unat_of_nat take_bit_nat_eq_self)
  from parse obtain h where h: "ya_parse_event_header ev buf (headerSize sz) = Some h"
    by (auto simp: ya_parse_event_def split: option.splits)
  then have n: "?n \<le> length (bytes buf)"
    using laws by (auto simp: ya_parse_event_header_def evbuffer_laws_def split: if_splits)
  let ?b1 = "ev_drain ev buf ?n"
  have b1: "bytes ?b1 = drop ?n (bytes buf)" by (rule drain_bytes [OF laws])
  have b2: "bytes (ev_drain ev ?b1 k) = drop (k + ?n) (bytes buf)"
    by (simp add: drain_bytes [OF laws])
  show ?thesis
  proof (cases "k = 0")
    case True
    with parse h m n b1 show ?thesis by (auto simp: ya_parse_event_def simp flip: k_def)
  next
    case False
    with parse h m obtain payload where pl: "ev_pullup ev ?b1 (int k) = Some payload"
      by (auto simp: ya_parse_event_def Let_def split: option.splits)
    have "k \<le> length (bytes buf) - ?n" using pullup_Some_length [OF laws pl] b1 by simp
    moreover have "buf' = ev_drain ev ?b1 k \<and> header e' = h"
      using parse h m m' False pl
      by (auto simp: ya_parse_event_def Let_def ub_bind_eq_Defined split: option.splits)
    ultimately show ?thesis using h b2 n by (simp add: add.commute k_def)
  qed
qed

lemma parse_text_UB:
  "parse_text data = UB \<Longrightarrow> snd (mpack_expect_str (mpack_reader_init_data data)) = 0xFFFFFFFF"
proof -
  assume ub: "parse_text data = UB"
  let ?n = "snd (mpack_expect_str (mpack_reader_init_data data))"
  from ub have "\<not> unat ?n < unat (?n + 1)"
    by (auto simp: parse_text_def Let_def split: prod.splits if_splits)
  then have "unat ?n + 1 = 2 ^ 32" using unat_u32_bound [of ?n]
    by (cases "unat ?n + 1 < 2 ^ 32") (simp_all add: unat_word_ariths)
  then show ?thesis by (simp add: word_unat_eq_iff)
qed

text \<open>C9.
  Memory safety of parsing: with a body size that is not negative, the only undefined behaviour
  of \<open>ya_parse_event\<close>, whatever bytes were received, is a text whose claimed length is
  \<open>2 ^ 32 - 1\<close>.
\<close>

theorem parse_event_undefined_cases:
  assumes "0 \<le> sint (bodySize sz)" and "ya_parse_event ev oom buf e sz = UB"
  shows "\<exists>h payload. ya_parse_event_header ev buf (headerSize sz) = Some h \<and>
     (h_type h = TEXT_INPUT \<or> h_type h = TEXT_GET) \<and>
     ev_pullup ev (ev_drain ev buf (unat (headerSize sz))) (sint (bodySize sz)) = Some payload \<and>
     snd (mpack_expect_str (mpack_reader_init_data payload)) = 0xFFFFFFFF"
proof -
  from assms obtain h payload f where h: "ya_parse_event_header ev buf (headerSize sz) = Some h"
    and pl: "ev_pullup ev (ev_drain ev buf (unat (headerSize sz))) (sint (bodySize sz)) = Some payload"
    and f: "get_parser oom (h_type h) (direction h) = Some f" and "f payload = UB"
    by (auto simp: ya_parse_event_def Let_def ub_bind_def split: option.splits if_splits ub.splits)
  then have "(h_type h = TEXT_INPUT \<or> h_type h = TEXT_GET) \<and> parse_text payload = UB"
    by (auto simp: get_parser_def parse_common_request_def parse_keyboard_request_def
        parse_text_input_request_def parse_text_get_response_def parse_authorize_request_def
        parse_session_option_request_def parse_discover_request_def Let_def ub_bind_def
        split: if_splits prod.splits ub.splits)
  with h pl parse_text_UB show ?thesis by blast
qed

text \<open>
  Protocol compatibility of the authorize response: clients of version 2 and later get eight
  fields ending with the protocol version, older ones the first seven of them, byte for byte
  the same.
\<close>

theorem authorize_response_versions:
  "\<exists>fields. \<forall>v. serialize_authorize_response (Some (AuthorizeResp (r\<lparr>client_version := v\<rparr>)))
       mpack_writer_init_growable =
     Defined (mpack_writer_init_growable\<lparr>wbuf :=
       (if 2 \<le> v then 0x98 # fields @ u32_bytes 3 else 0x97 # fields)\<rparr>)"
proof
  let ?fields = "[0xc2 OR (if success r then 1 else 0)] @ u32_bytes (os_type r) @ u32_bytes (r_uid r) @
    u32_bytes (ucast (session_port r)) @ u32_bytes (ucast (command_port r)) @
    str_bytes (case macs r of Some m \<Rightarrow> cstr m | None \<Rightarrow> []) @ mpack_encode_float (display_scale r)"
  show "\<forall>v. serialize_authorize_response (Some (AuthorizeResp (r\<lparr>client_version := v\<rparr>)))
       mpack_writer_init_growable =
     Defined (mpack_writer_init_growable\<lparr>wbuf :=
       (if 2 \<le> v then 0x98 # ?fields @ u32_bytes 3 else 0x97 # ?fields)\<rparr>)"
    by (simp add: Let_def growable_writes mpack_write_bool_def mpack_write_float_def
        mpack_write_native_growable array_bytes_eq)
qed

text \<open>
  A body that is not a MessagePack array is not rejected: the parser of mouse and control
  commands ignores the reader's error and returns the request with both fields 0, which for a
  click is a press of the left button.
\<close>

theorem malformed_common_body_accepted:
  assumes "rerror (fst (mpack_expect_array (mpack_reader_init_data data))) \<noteq> mpack_ok"
  shows "parse_common_request data = Defined (Some (CommonReq \<lparr>lparam = 0, rparam = 0\<rparr>))"
proof -
  have err: "snd (mpack_expect_i32 r) = 0 \<and> rerror (fst (mpack_expect_i32 r)) \<noteq> mpack_ok"
    if "rerror r \<noteq> mpack_ok" for r
    using that by (simp add: mpack_expect_i32_def mpack_read_tag_def mpack_reader_flag_error_def)
  let ?r1 = "fst (mpack_expect_array (mpack_reader_init_data data))"
  show ?thesis
    using err [OF assms] err [of "fst (mpack_expect_i32 ?r1)"]
    by (simp add: parse_common_request_def case_prod_unfold)
qed

theorem malformed_common_body_accepted_witness:
  "parse_common_request [0xc0, 1, 2] = Defined (Some (CommonReq \<lparr>lparam = 0, rparam = 0\<rparr>))"
proof (rule malformed_common_body_accepted)
  show "rerror (fst (mpack_expect_array (mpack_reader_init_data [0xc0, 1, 2]))) \<noteq> mpack_ok"
    by code_simp
qed

theorem parse_event_undefined_cases_witness:
  "\<exists>h payload. ya_parse_event_header list_evbuffer [0x94, 1, 5, 1, 0, 0xdb, 0xff, 0xff, 0xff, 0xff] 5 = Some h \<and>
     (h_type h = TEXT_INPUT \<or> h_type h = TEXT_GET) \<and>
     ev_pullup list_evbuffer (ev_drain list_evbuffer [0x94, 1, 5, 1, 0, 0xdb, 0xff, 0xff, 0xff, 0xff] 5) 5 = Some payload \<and>
     snd (mpack_expect_str (mpack_reader_init_data payload)) = 0xFFFFFFFF"
proof -
  let ?sz = "\<lparr>totalSize = 14, headerSize = 5, bodySize = 5\<rparr>" and ?buf = "[0x94, 1, 5, 1, 0, 0xdb, 0xff, 0xff, 0xff, 0xff]"
  have "snd (mpack_expect_str (mpack_reader_init_data [0xdb, 0xff, 0xff, 0xff, 0xff])) = 0xFFFFFFFF"
    by code_simp
  then have ub: "parse_text [0xdb, 0xff, 0xff, 0xff, 0xff] = UB"
    by (simp add: parse_text_def case_prod_unfold)
  have "ya_parse_event_header list_evbuffer ?buf 5 = Some \<lparr>h_type = 5, direction = 1, index = 0, uid = 1\<rparr>"
    by code_simp
  then have "ya_parse_event list_evbuffer False ?buf \<lparr>header = sample_header 0, param = None\<rparr> ?sz = UB"
    by (simp add: ya_parse_event_def get_parser_def parse_text_input_request_def list_evbuffer_def ub)
  then show ?thesis
    using parse_event_undefined_cases [of ?sz list_evbuffer False ?buf "\<lparr>header = sample_header 0, param = None\<rparr>"] by simp
qed

theorem parse_event_consumes_witness:
  "unat (5 :: u32) + unat (3 :: u32) \<le> length [0x94, 1, 1, 1, 0, 0x92, 4, 5, 77 :: u8] \<and>
    [77 :: u8] = drop (unat (5 :: u32) + unat (3 :: u32)) [0x94, 1, 1, 1, 0, 0x92, 4, 5, 77 :: u8] \<and>
    ya_parse_event_header list_evbuffer [0x94, 1, 1, 1, 0, 0x92, 4, 5, 77] 5 =
      Some \<lparr>h_type = 1, direction = 1, index = 0, uid = 1\<rparr>"
proof -
  let ?sz = "\<lparr>totalSize = 12, headerSize = 5, bodySize = 3\<rparr>" and ?buf = "[0x94, 1, 1, 1, 0, 0x92, 4, 5, 77]"
  have "ya_parse_event list_evbuffer False ?buf \<lparr>header = sample_header 0, param = None\<rparr> ?sz =
     Defined ([77], Some \<lparr>header = \<lparr>h_type = 1, direction = 1, index = 0, uid = 1\<rparr>,
        param = Some (CommonReq \<lparr>lparam = 4, rparam = 5\<rparr>)\<rparr>)"
    by code_simp
  then show ?thesis
    using parse_event_consumes [OF list_evbuffer_laws, of ?sz False ?buf] by simp
qed

end
