(* ===== verification/ClientManager.thy ===== *)
theory ClientManager
  imports MouseFilter
begin

text \<open>
  The table of connected clients, \<open>ya_client_manager.c\<close>: 251 hash buckets, each a list of
  clients linked through their \<open>next\<close> pointers, with reference counts and a state per client.

  Clients live in a heap of addresses, and the loops follow the pointers of that heap
  (\<open>partial_function\<close>: \<open>None\<close> for a walk that never ends, \<open>UB\<close> for one that meets a freed
  block).  \<open>client_table\<close> is the invariant that ties the pointers to lists of addresses; under
  it every walk ends, every operation is defined, and the operations act on the clients as on
  a finite map.  Freed bufferevents and reads of freed blocks are recorded in the heap.

  The debug statistics (\<open>update_collision_stats\<close>) are not part of the release build.
\<close>

definition YA_CLIENT_HASH_SIZE :: nat where [simp]: "YA_CLIENT_HASH_SIZE = 251"

datatype ya_client_state = YA_CLIENT_ACTIVE | YA_CLIENT_DISCONNECTING | YA_CLIENT_DISCONNECTED

type_synonym addr = nat
type_synonym ptr = "addr option"

record ya_client =
  c_fd :: i32
  c_uid :: u32
  c_command_index :: i32
  c_ref_count :: u32
  c_state :: ya_client_state
  c_bev :: "nat option"
  c_next :: ptr
  c_mouse_filter :: "ya_mouse_filter option"
  c_connected_at :: int
  c_protocol_version :: u32

record ya_client_manager =
  buckets :: "ptr list"
  client_count :: u32
  next_uid :: u32

text \<open>\<open>freed_reads\<close> are the blocks read after they were freed.\<close>

record client_heap =
  cells :: "addr \<Rightarrow> ya_client option"
  bevs_freed :: "nat list"
  freed_reads :: "addr list"

type_synonym clients = "ya_client_manager \<times> client_heap"

definition hash_uid :: "u32 \<Rightarrow> nat" where
  "hash_uid uid = unat (uid mod word_of_nat YA_CLIENT_HASH_SIZE)"

definition ya_client_manager_init :: ya_client_manager where
  "ya_client_manager_init =
     \<lparr>buckets = replicate YA_CLIENT_HASH_SIZE None, client_count = 0, next_uid = 1\<rparr>"

section \<open>Walking a bucket\<close>

text \<open>
  The loop of the lookups, of \<open>ya_client_unref\<close> and of \<open>ya_client_remove\<close>: the first client the
  test accepts, with the one before it.
\<close>

partial_function (option) chain_find ::
  "(addr \<Rightarrow> ya_client \<Rightarrow> bool) \<Rightarrow> (addr \<Rightarrow> ya_client option) \<Rightarrow> ptr \<Rightarrow> ptr \<Rightarrow> (ptr \<times> ptr) run" where
  "chain_find hit h prev cur =
     (case cur of
        None \<Rightarrow> returns (prev, None)
      | Some a \<Rightarrow>
          (case h a of
             None \<Rightarrow> Some UB
           | Some c \<Rightarrow> if hit a c then returns (prev, Some a) else chain_find hit h cur (c_next c)))"

partial_function (option) chain_count :: "(addr \<Rightarrow> ya_client option) \<Rightarrow> ptr \<Rightarrow> u32 \<Rightarrow> u32 run" where
  "chain_count h cur n =
     (case cur of
        None \<Rightarrow> returns n
      | Some a \<Rightarrow>
          (case h a of
             None \<Rightarrow> Some UB
           | Some c \<Rightarrow> chain_count h (c_next c) (if c_state c = YA_CLIENT_ACTIVE then n + 1 else n)))"

text \<open>Freeing a client: its bufferevent if it still has one, its filter with it, the block.\<close>

definition free_client :: "client_heap \<Rightarrow> addr \<Rightarrow> ya_client \<Rightarrow> client_heap" where
  "free_client H a c =
     H\<lparr>cells := (cells H)(a := None),
       bevs_freed := bevs_freed H @ (case c_bev c of None \<Rightarrow> [] | Some b \<Rightarrow> [b])\<rparr>"

partial_function (option) chain_free :: "client_heap \<Rightarrow> ptr \<Rightarrow> client_heap run" where
  "chain_free H cur =
     (case cur of
        None \<Rightarrow> returns H
      | Some a \<Rightarrow>
          (case cells H a of
             None \<Rightarrow> Some UB
           | Some c \<Rightarrow> chain_free (free_client H a c) (c_next c)))"

section \<open>Operations\<close>

fun free_buckets :: "client_heap \<Rightarrow> ptr list \<Rightarrow> client_heap run" where
  "free_buckets H [] = returns H"
| "free_buckets H (p # ps) = run_bind (chain_free H p) (\<lambda>H'. free_buckets H' ps)"

definition ya_client_manager_cleanup :: "clients \<Rightarrow> clients run" where
  "ya_client_manager_cleanup = (\<lambda>(M, H).
     run_bind (free_buckets H (buckets M)) (\<lambda>H'.
       returns (M\<lparr>buckets := replicate (length (buckets M)) None, client_count := 0, next_uid := 1\<rparr>, H')))"

text \<open>
  \<open>block\<close> is the result of \<open>calloc\<close>, \<open>filter_ok\<close> the success of the filter's allocation and
  \<open>now\<close> the time of day.
\<close>

definition ya_client_create ::
  "ptr \<Rightarrow> bool \<Rightarrow> int \<Rightarrow> clients \<Rightarrow> i32 \<Rightarrow> nat option \<Rightarrow> clients \<times> ptr" where
  "ya_client_create block filter_ok now = (\<lambda>(M, H) fd bev.
     if bev = None \<or> sint fd < 0 then ((M, H), None)
     else case block of
       None \<Rightarrow> ((M, H), None)
     | Some a \<Rightarrow>
         let first = (if next_uid M = 0 then 1 else next_uid M);
             uid = first;
             next = (if first + 1 = 0 then 1 else first + 1);
             hash = hash_uid uid;
             client = \<lparr>c_fd = fd, c_uid = uid, c_command_index = 0, c_ref_count = 1,
                       c_state = YA_CLIENT_ACTIVE, c_bev = bev, c_next = buckets M ! hash,
                       c_mouse_filter = ya_mouse_filter_create filter_ok, c_connected_at = now,
                       c_protocol_version = 0\<rparr>
         in ((M\<lparr>buckets := (buckets M)[hash := Some a], client_count := client_count M + 1,
                next_uid := next\<rparr>,
              H\<lparr>cells := (cells H)(a := Some client)\<rparr>), Some a))"

definition ya_client_find_by_uid :: "clients \<Rightarrow> u32 \<Rightarrow> ptr run" where
  "ya_client_find_by_uid = (\<lambda>(M, H) uid.
     if uid = 0 then returns None
     else run_bind (chain_find (\<lambda>_ c. c_uid c = uid \<and> c_state c = YA_CLIENT_ACTIVE) (cells H) None
                      (buckets M ! hash_uid uid))
            (\<lambda>(_, client). returns client))"

fun find_fd_buckets :: "(addr \<Rightarrow> ya_client option) \<Rightarrow> i32 \<Rightarrow> ptr list \<Rightarrow> ptr run" where
  "find_fd_buckets h fd [] = returns None"
| "find_fd_buckets h fd (p # ps) =
     run_bind (chain_find (\<lambda>_ c. c_fd c = fd \<and> c_state c = YA_CLIENT_ACTIVE) h None p)
       (\<lambda>(_, client). if client \<noteq> None then returns client else find_fd_buckets h fd ps)"

definition ya_client_find_by_fd :: "clients \<Rightarrow> i32 \<Rightarrow> ptr run" where
  "ya_client_find_by_fd = (\<lambda>(M, H) fd.
     if sint fd < 0 then returns None else find_fd_buckets (cells H) fd (buckets M))"

text \<open>Writing through a client pointer; a pointer to no client is undefined.\<close>

definition update_client :: "client_heap \<Rightarrow> addr \<Rightarrow> (ya_client \<Rightarrow> ya_client) \<Rightarrow> client_heap run" where
  "update_client H a f =
     (case cells H a of
        None \<Rightarrow> Some UB
      | Some c \<Rightarrow> returns (H\<lparr>cells := (cells H)(a := Some (f c))\<rparr>))"

definition ya_client_ref :: "clients \<Rightarrow> ptr \<Rightarrow> clients run" where
  "ya_client_ref = (\<lambda>(M, H) client.
     case client of
       None \<Rightarrow> returns (M, H)
     | Some a \<Rightarrow>
         run_bind (update_client H a (\<lambda>c. c\<lparr>c_ref_count := c_ref_count c + 1\<rparr>)) (\<lambda>H'. returns (M, H')))"

text \<open>Taking the client at \<open>a\<close>, after \<open>prev\<close>, out of its bucket, and freeing it.\<close>

definition unlink_free :: "clients \<Rightarrow> nat \<Rightarrow> ptr \<Rightarrow> addr \<Rightarrow> clients run" where
  "unlink_free = (\<lambda>(M, H) hash prev a.
     case cells H a of
       None \<Rightarrow> Some UB
     | Some c \<Rightarrow>
         run_bind (case prev of
             None \<Rightarrow> returns (M\<lparr>buckets := (buckets M)[hash := c_next c]\<rparr>, H)
           | Some b \<Rightarrow> run_bind (update_client H b (\<lambda>p. p\<lparr>c_next := c_next c\<rparr>)) (\<lambda>H'. returns (M, H')))
         (\<lambda>(M', H'). returns (M'\<lparr>client_count := client_count M' - 1\<rparr>, free_client H' a c)))"

text \<open>The trace message after the release of the block reads the freed client.\<close>

definition ya_client_unref :: "clients \<Rightarrow> ptr \<Rightarrow> clients run" where
  "ya_client_unref = (\<lambda>(M, H) client.
     case client of
       None \<Rightarrow> returns (M, H)
     | Some a \<Rightarrow>
         (case cells H a of
            None \<Rightarrow> Some UB
          | Some c \<Rightarrow>
              if c_ref_count c = 0 then returns (M, H)
              else
                let c' = c\<lparr>c_ref_count := c_ref_count c - 1\<rparr>;
                    H' = H\<lparr>cells := (cells H)(a := Some c')\<rparr>
                in if c_ref_count c' = 0 \<and> c_state c' = YA_CLIENT_DISCONNECTED then
                     let hash = hash_uid (c_uid c') in
                     run_bind (chain_find (\<lambda>b _. b = a) (cells H') None (buckets M ! hash))
                       (\<lambda>(prev, cur).
                         case cur of
                           None \<Rightarrow> returns (M, H')
                         | Some _ \<Rightarrow>
                             run_bind (unlink_free (M, H') hash prev a) (\<lambda>(M2, H2).
                               returns (M2, H2\<lparr>freed_reads := freed_reads H2 @ [a]\<rparr>)))
                   else returns (M, H')))"

definition ya_client_remove :: "clients \<Rightarrow> u32 \<Rightarrow> clients run" where
  "ya_client_remove = (\<lambda>(M, H) uid.
     if uid = 0 then returns (M, H)
     else
       let hash = hash_uid uid in
       run_bind (chain_find (\<lambda>_ c. c_uid c = uid) (cells H) None (buckets M ! hash)) (\<lambda>(prev, cur).
         case cur of
           None \<Rightarrow> returns (M, H)
         | Some a \<Rightarrow>
             run_bind (update_client H a (\<lambda>c. c\<lparr>c_state := YA_CLIENT_DISCONNECTED\<rparr>)) (\<lambda>H'.
               case cells H' a of
                 None \<Rightarrow> Some UB
               | Some c \<Rightarrow>
                   if c_ref_count c = 0 then unlink_free (M, H') hash prev a else returns (M, H'))))"

fun count_buckets :: "(addr \<Rightarrow> ya_client option) \<Rightarrow> ptr list \<Rightarrow> u32 \<Rightarrow> u32 run" where
  "count_buckets h [] n = returns n"
| "count_buckets h (p # ps) n = run_bind (chain_count h p n) (\<lambda>n'. count_buckets h ps n')"

definition ya_client_get_count :: "clients \<Rightarrow> u32 run" where
  "ya_client_get_count = (\<lambda>(M, H). count_buckets (cells H) (buckets M) 0)"

section \<open>Chains\<close>

fun chain :: "(addr \<Rightarrow> ya_client option) \<Rightarrow> ptr \<Rightarrow> addr list \<Rightarrow> bool" where
  "chain h p [] \<longleftrightarrow> p = None"
| "chain h p (a # as) \<longleftrightarrow> p = Some a \<and> (\<exists>c. h a = Some c \<and> chain h (c_next c) as)"

lemma chain_None [simp]: "chain h None as \<longleftrightarrow> as = []"
  by (cases as) auto

lemma chain_frame: "a \<notin> set as \<Longrightarrow> chain (h(a := x)) p as \<longleftrightarrow> chain h p as"
  by (induction as arbitrary: p) auto

lemma chain_update: "h a = Some c \<Longrightarrow> c_next c' = c_next c \<Longrightarrow> chain (h(a \<mapsto> c')) p as \<longleftrightarrow> chain h p as"
  by (induction as arbitrary: p) auto

lemma chain_allocated: "chain h p as \<Longrightarrow> a \<in> set as \<Longrightarrow> \<exists>c. h a = Some c"
  by (induction as arbitrary: p) auto

text \<open>The functional counterpart of \<open>chain_find\<close>: a scan of the list of addresses.\<close>

fun scan :: "(addr \<Rightarrow> bool) \<Rightarrow> ptr \<Rightarrow> addr list \<Rightarrow> ptr \<times> ptr" where
  "scan hit prev [] = (prev, None)"
| "scan hit prev (a # as) = (if hit a then (prev, Some a) else scan hit (Some a) as)"

lemma chain_find_scan:
  "chain h p as \<Longrightarrow> chain_find hit h prev p = returns (scan (\<lambda>a. hit a (the (h a))) prev as)"
  by (induction as arbitrary: p prev) (auto simp: chain_find.simps)

lemma scan_None: "snd (scan hit prev as) = None \<longleftrightarrow> (\<forall>a \<in> set as. \<not> hit a)"
  by (induction as arbitrary: prev) auto

lemma scan_Some:
  "scan hit prev as = (q, Some a) \<Longrightarrow>
     \<exists>us vs. as = us @ a # vs \<and> hit a \<and> (\<forall>b \<in> set us. \<not> hit b) \<and>
       q = (if us = [] then prev else Some (last us))"
proof (induction as arbitrary: prev)
  case (Cons b bs)
  show ?case
  proof (cases "hit b")
    case True
    with Cons.prems show ?thesis by (intro exI [of _ "[]"] exI [of _ bs]) auto
  next
    case False
    with Cons.prems have "scan hit (Some b) bs = (q, Some a)" by simp
    from Cons.IH [OF this] obtain us vs where "bs = us @ a # vs" "hit a" "\<forall>b \<in> set us. \<not> hit b"
      "q = (if us = [] then Some b else Some (last us))" by blast
    with False show ?thesis by (intro exI [of _ "b # us"] exI [of _ vs]) auto
  qed
qed simp

lemma chain_unlink_head: "chain h p (a # vs) \<Longrightarrow> a \<notin> set vs \<Longrightarrow> chain (h(a := None)) (c_next (the (h a))) vs"
  by (auto simp: chain_frame)

lemma chain_unlink_mid:
  "chain h p (us @ b # a # vs) \<Longrightarrow> distinct (us @ b # a # vs) \<Longrightarrow> h b = Some cb \<Longrightarrow> h a = Some ca \<Longrightarrow>
     chain ((h(b \<mapsto> cb\<lparr>c_next := c_next ca\<rparr>))(a := None)) p (us @ b # vs)"
  by (induction us arbitrary: p) (auto simp: chain_frame)

lemma chain_count_list:
  "chain h p as \<Longrightarrow> chain_count h p n =
     returns (n + word_of_nat (length (filter (\<lambda>a. c_state (the (h a)) = YA_CLIENT_ACTIVE) as)))"
  by (induction as arbitrary: p n) (auto simp: chain_count.simps)

section \<open>The invariant of the table\<close>

definition client_table :: "clients \<Rightarrow> (nat \<Rightarrow> addr list) \<Rightarrow> bool" where
  "client_table = (\<lambda>(M, H) xs.
     length (buckets M) = YA_CLIENT_HASH_SIZE \<and>
     (\<forall>i < YA_CLIENT_HASH_SIZE. chain (cells H) (buckets M ! i) (xs i) \<and> distinct (xs i)) \<and>
     (\<forall>i < YA_CLIENT_HASH_SIZE. \<forall>a \<in> set (xs i). \<exists>c. cells H a = Some c \<and> hash_uid (c_uid c) = i) \<and>
     (\<forall>a c. cells H a = Some c \<longrightarrow> c_uid c \<noteq> 0 \<and> a \<in> set (xs (hash_uid (c_uid c)))) \<and>
     finite (dom (cells H)) \<and> client_count M = word_of_nat (card (dom (cells H))) \<and>
     next_uid M \<noteq> 0)"

definition clients_inv :: "clients \<Rightarrow> bool" where
  "clients_inv S \<longleftrightarrow> (\<exists>xs. client_table S xs)"

lemma hash_uid_less [simp]: "hash_uid u < 251"
proof -
  have "unat (u mod 251) = unat u mod 251" by (simp add: unat_mod)
  then show ?thesis by (simp add: hash_uid_def)
qed

lemma clients_inv_init: "clients_inv (ya_client_manager_init, \<lparr>cells = Map.empty, bevs_freed = bs, freed_reads = fs\<rparr>)"
  unfolding clients_inv_def client_table_def
  by (rule exI [of _ "\<lambda>_. []"]) (simp add: ya_client_manager_init_def)

lemma table_chain:
  "client_table (M, H) xs \<Longrightarrow> chain (cells H) (buckets M ! hash_uid u) (xs (hash_uid u))"
  by (simp add: client_table_def)

lemma table_mem:
  "client_table (M, H) xs \<Longrightarrow> cells H a = Some c \<Longrightarrow> a \<in> set (xs (hash_uid (c_uid c)))"
  by (simp add: client_table_def)

lemma table_alloc:
  "client_table (M, H) xs \<Longrightarrow> a \<in> set (xs (hash_uid u)) \<Longrightarrow>
     \<exists>c. cells H a = Some c \<and> hash_uid (c_uid c) = hash_uid u"
  by (simp add: client_table_def)

text \<open>Changing a client's other fields keeps the table.\<close>

lemma table_update:
  assumes "client_table (M, H) xs" and "cells H a = Some c"
    and "c_next c' = c_next c" "c_uid c' = c_uid c"
  shows "client_table (M, H\<lparr>cells := (cells H)(a \<mapsto> c')\<rparr>) xs"
  using assms
  by (auto simp: client_table_def chain_update insert_absorb domI) (metis option.inject)

lemma table_freed_reads: "client_table (M, H\<lparr>freed_reads := fs\<rparr>) xs \<longleftrightarrow> client_table (M, H) xs"
  by (simp add: client_table_def)

lemma table_other_bucket:
  assumes "client_table (M, H) xs" "cells H a = Some c" "i < 251" "i \<noteq> hash_uid (c_uid c)"
  shows "a \<notin> set (xs i)"
  using assms unfolding client_table_def by fastforce

lemma update_client_simps [simp]:
  "cells H a = Some c \<Longrightarrow> update_client H a f = returns (H\<lparr>cells := (cells H)(a \<mapsto> f c)\<rparr>)"
  by (simp add: update_client_def)

section \<open>Lookups\<close>

lemma find_by_uid_scan:
  assumes "client_table (M, H) xs" and "uid \<noteq> 0"
  shows "ya_client_find_by_uid (M, H) uid =
    returns (snd (scan (\<lambda>a. c_uid (the (cells H a)) = uid \<and> c_state (the (cells H a)) = YA_CLIENT_ACTIVE)
      None (xs (hash_uid uid))))"
  using assms(2) chain_find_scan [OF table_chain [OF assms(1), of uid]]
  by (simp add: ya_client_find_by_uid_def case_prod_unfold)

lemma find_by_uid_returns:
  assumes "clients_inv (M, H)"
  shows "\<exists>r. ya_client_find_by_uid (M, H) uid = returns r \<and>
    (case r of
       Some a \<Rightarrow> \<exists>c. cells H a = Some c \<and> c_uid c = uid \<and> c_state c = YA_CLIENT_ACTIVE
     | None \<Rightarrow> \<forall>a c. cells H a = Some c \<longrightarrow> c_uid c = uid \<longrightarrow> c_state c \<noteq> YA_CLIENT_ACTIVE)"
proof -
  obtain xs where t: "client_table (M, H) xs" using assms by (auto simp: clients_inv_def)
  show ?thesis
  proof (cases "uid = 0")
    case True
    with t show ?thesis by (auto simp: ya_client_find_by_uid_def client_table_def)
  next
    case False
    let ?hit = "\<lambda>a. c_uid (the (cells H a)) = uid \<and> c_state (the (cells H a)) = YA_CLIENT_ACTIVE"
    obtain q r where s: "scan ?hit None (xs (hash_uid uid)) = (q, r)" by fastforce
    then have f: "ya_client_find_by_uid (M, H) uid = returns r"
      by (simp add: find_by_uid_scan [OF t False])
    show ?thesis
    proof (cases r)
      case None
      then have "\<forall>a \<in> set (xs (hash_uid uid)). \<not> ?hit a"
        using s scan_None [of ?hit None "xs (hash_uid uid)"] by simp
      then have "\<forall>a c. cells H a = Some c \<longrightarrow> c_uid c = uid \<longrightarrow> c_state c \<noteq> YA_CLIENT_ACTIVE"
        using table_mem [OF t] by (metis option.sel)
      with f None show ?thesis by simp
    next
      case (Some a)
      with scan_Some [of ?hit] s have hit: "?hit a" and "a \<in> set (xs (hash_uid uid))" by fastforce+
      from table_alloc [OF t this(2)] obtain c where "cells H a = Some c" by blast
      with hit f Some show ?thesis by simp
    qed
  qed
qed

section \<open>Creation\<close>

lemma table_create:
  assumes t: "client_table (M, H) xs" and fresh: "cells H a = None"
    and c: "c_uid c \<noteq> 0" "c_next c = buckets M ! hash_uid (c_uid c)" and n: "n \<noteq> 0"
  shows "client_table (M\<lparr>buckets := (buckets M)[hash_uid (c_uid c) := Some a],
      client_count := client_count M + 1, next_uid := n\<rparr>, H\<lparr>cells := (cells H)(a \<mapsto> c)\<rparr>)
    (xs(hash_uid (c_uid c) := a # xs (hash_uid (c_uid c))))"
proof -
  have notin: "a \<notin> set (xs i)" if "i < 251" for i
    using t that fresh unfolding client_table_def by fastforce
  have ch: "chain ((cells H)(a \<mapsto> c)) (buckets M ! i) (xs i)" if "i < 251" for i
    using t that notin [OF that] by (simp add: client_table_def chain_frame)
  show ?thesis
    using t fresh c n notin ch
    unfolding client_table_def by (auto simp: nth_list_update fun_upd_idem domIff) metis
qed

lemma create_result:
  assumes "bev \<noteq> None" "0 \<le> sint fd"
  shows "\<exists>M' H' c. ya_client_create (Some a) filter_ok now (M, H) fd bev = ((M', H'), Some a) \<and>
    c_state c = YA_CLIENT_ACTIVE \<and> c_ref_count c = 1 \<and> c_fd c = fd \<and> c_bev c = bev \<and>
    c_uid c = (if next_uid M = 0 then 1 else next_uid M) \<and>
    c_next c = buckets M ! hash_uid (c_uid c) \<and> c_protocol_version c = 0 \<and>
    M' = M\<lparr>buckets := (buckets M)[hash_uid (c_uid c) := Some a], client_count := client_count M + 1,
           next_uid := (if c_uid c + 1 = 0 then 1 else c_uid c + 1)\<rparr> \<and>
    H' = H\<lparr>cells := (cells H)(a \<mapsto> c)\<rparr>"
proof -
  obtain b where b: "bev = Some b" using assms(1) by blast
  define S where "S = ya_client_create (Some a) filter_ok now (M, H) fd bev"
  show ?thesis
    unfolding S_def [symmetric]
    by (rule exI [of _ "fst (fst S)"], rule exI [of _ "snd (fst S)"],
        rule exI [of _ "the (cells (snd (fst S)) a)"])
      (use assms(2) b in \<open>simp add: S_def ya_client_create_def Let_def\<close>)
qed

section \<open>Unlinking\<close>

lemma table_delete:
  assumes t: "client_table (M, H) xs" and a: "cells H a = Some ca" and i: "i = hash_uid (c_uid ca)"
    and M': "length (buckets M') = length (buckets M)" "client_count M' = client_count M - 1"
      "next_uid M' = next_uid M"
    and gone: "cells H' a = None"
    and same: "\<And>x. x \<noteq> a \<Longrightarrow> map_option c_uid (cells H' x) = map_option c_uid (cells H x)"
    and chains: "chain (cells H') (buckets M' ! i) (remove1 a (xs i))"
      "\<And>j. j < 251 \<Longrightarrow> j \<noteq> i \<Longrightarrow> chain (cells H') (buckets M' ! j) (xs j)"
  shows "client_table (M', H') (xs(i := remove1 a (xs i)))"
proof -
  have notin: "a \<notin> set (xs j)" if "j < 251" "j \<noteq> i" for j
    using table_other_bucket [OF t a] that i by blast
  have fin: "finite (dom (cells H))" using t by (simp add: client_table_def)
  have d: "dom (cells H') = dom (cells H) - {a}"
  proof (rule set_eqI)
    fix x show "x \<in> dom (cells H') \<longleftrightarrow> x \<in> dom (cells H) - {a}"
      using same [of x] gone by (cases "x = a"; cases "cells H x"; cases "cells H' x") auto
  qed
  have pos: "0 < card (dom (cells H))" using fin a by (auto simp: card_gt_0_iff)
  then have card: "word_of_nat (card (dom (cells H'))) = client_count M'"
    using t a fin M'(2) by (simp add: d domI client_table_def)
  have dist: "distinct (xs j)" if "j < 251" for j using t that by (simp add: client_table_def)
  show ?thesis
    unfolding client_table_def prod.case
  proof (intro conjI allI impI ballI)
    fix j assume j: "j < YA_CLIENT_HASH_SIZE"
    show "chain (cells H') (buckets M' ! j) ((xs(i := remove1 a (xs i))) j)" using j chains by simp
    show "distinct ((xs(i := remove1 a (xs i))) j)" using j dist by simp
    fix x assume x: "x \<in> set ((xs(i := remove1 a (xs i))) j)"
    then have "x \<in> set (xs j)" "x \<noteq> a"
      using j notin dist by (auto split: if_splits dest: in_set_remove1 [THEN iffD1, rotated])
    with t j same [of x] show "\<exists>c. cells H' x = Some c \<and> hash_uid (c_uid c) = j"
      unfolding client_table_def by (cases "cells H' x") fastforce+
  next
    fix x c assume x: "cells H' x = Some c"
    with gone have "x \<noteq> a" by auto
    with same [of x] x obtain c0 where "cells H x = Some c0" "c_uid c0 = c_uid c" by (cases "cells H x") auto
    with t \<open>x \<noteq> a\<close> show "c_uid c \<noteq> 0" "x \<in> set ((xs(i := remove1 a (xs i))) (hash_uid (c_uid c)))"
      using table_mem [OF t, of x c0] by (auto simp: client_table_def)
  qed (use t M' card fin d in \<open>simp_all add: client_table_def\<close>)
qed

lemma table_unlink:
  assumes t: "client_table (M, H) xs" and a: "cells H a = Some ca"
    and scan: "scan hit None (xs (hash_uid (c_uid ca))) = (prev, Some a)"
  shows "\<exists>M' H'. unlink_free (M, H) (hash_uid (c_uid ca)) prev a = returns (M', H') \<and>
    client_table (M', H') (xs(hash_uid (c_uid ca) := remove1 a (xs (hash_uid (c_uid ca))))) \<and>
    cells H' a = None \<and>
    (\<forall>b. b \<noteq> a \<longrightarrow> map_option (\<lambda>c. c\<lparr>c_next := None\<rparr>) (cells H' b) = map_option (\<lambda>c. c\<lparr>c_next := None\<rparr>) (cells H b)) \<and>
    bevs_freed H' = bevs_freed H @ (case c_bev ca of None \<Rightarrow> [] | Some b \<Rightarrow> [b]) \<and>
    freed_reads H' = freed_reads H \<and> next_uid M' = next_uid M"
proof -
  let ?i = "hash_uid (c_uid ca)"
  from scan_Some [OF scan] obtain us vs where split: "xs ?i = us @ a # vs"
    and q: "prev = (if us = [] then None else Some (last us))" by blast
  have dist: "distinct (us @ a # vs)" and ch: "chain (cells H) (buckets M ! ?i) (us @ a # vs)"
    using t hash_uid_less [of "c_uid ca"] unfolding split [symmetric] by (simp_all add: client_table_def)
  have len: "length (buckets M) = 251" using t by (simp add: client_table_def)
  have chj: "chain (cells H) (buckets M ! j) (xs j)" if "j < 251" for j
    using t that by (simp add: client_table_def)
  have notin: "a \<notin> set (xs j)" if "j < 251" "j \<noteq> ?i" for j
    using table_other_bucket [OF t a that] .
  show ?thesis
  proof (cases us rule: rev_cases)
    case Nil
    let ?H = "free_client H a ca"
    let ?M = "M\<lparr>buckets := (buckets M)[?i := c_next ca], client_count := client_count M - 1\<rparr>"
    have u: "unlink_free (M, H) ?i prev a = returns (?M, ?H)"
      using a q Nil by (simp add: unlink_free_def)
    have "client_table (?M, ?H) (xs(?i := remove1 a (xs ?i)))"
      by (rule table_delete [OF t a refl])
        (use Nil split ch dist a notin chj len in \<open>simp_all add: free_client_def chain_frame\<close>)
    with u show ?thesis by (intro exI [of _ ?M] exI [of _ ?H]) (simp add: free_client_def)
  next
    case (snoc us' b)
    have "b \<noteq> a" using dist snoc by auto
    obtain cb where b: "cells H b = Some cb"
      using chain_allocated [OF ch, of b] snoc by auto
    have "b \<in> set (xs ?i)" using split snoc by simp
    with table_alloc [OF t] b have hb: "hash_uid (c_uid cb) = ?i" by fastforce
    let ?cb = "cb\<lparr>c_next := c_next ca\<rparr>"
    let ?H = "free_client (H\<lparr>cells := (cells H)(b \<mapsto> ?cb)\<rparr>) a ca"
    let ?M = "M\<lparr>client_count := client_count M - 1\<rparr>"
    have u: "unlink_free (M, H) ?i prev a = returns (?M, ?H)"
      using a b q snoc by (simp add: unlink_free_def)
    have cells: "cells ?H = (cells H)(b \<mapsto> ?cb, a := None)" by (simp add: free_client_def)
    have c': "chain (cells ?H) (buckets M ! ?i) (us' @ b # vs)"
      using chain_unlink_mid [of "cells H" "buckets M ! ?i" us' b a vs cb ca] ch dist a b snoc
      by (simp add: cells)
    have notin_b: "b \<notin> set (xs j)" if "j < 251" "j \<noteq> ?i" for j
      using table_other_bucket [OF t b that(1)] that(2) hb by simp
    have r1: "remove1 a (xs ?i) = us' @ b # vs"
      using dist split snoc by (simp add: remove1_append)
    have "client_table (?M, ?H) (xs(?i := remove1 a (xs ?i)))"
      by (rule table_delete [OF t a refl])
        (use c' r1 b notin notin_b chj in \<open>simp_all add: cells chain_frame\<close>)
    with u b \<open>b \<noteq> a\<close> show ?thesis
      by (intro exI [of _ ?M] exI [of _ ?H]) (simp add: free_client_def)
  qed
qed

section \<open>Reference counts\<close>

lemma ref_effect:
  assumes t: "client_table (M, H) xs" and a: "cells H a = Some c"
  shows "ya_client_ref (M, H) (Some a) =
      returns (M, H\<lparr>cells := (cells H)(a \<mapsto> c\<lparr>c_ref_count := c_ref_count c + 1\<rparr>)\<rparr>)"
    and "client_table (M, H\<lparr>cells := (cells H)(a \<mapsto> c\<lparr>c_ref_count := c_ref_count c + 1\<rparr>)\<rparr>) xs"
  using a table_update [OF t a] by (simp_all add: ya_client_ref_def)

lemma scan_find_hit:
  assumes "a \<in> set as" "distinct as"
  shows "\<exists>prev. scan (\<lambda>b. b = a) p as = (prev, Some a)"
  using assms by (induction as arbitrary: p) auto

lemma unref_keep:
  assumes t: "client_table (M, H) xs" and a: "cells H a = Some c"
    and "\<not> (c_ref_count c = 1 \<and> c_state c = YA_CLIENT_DISCONNECTED)"
  defines "c' \<equiv> (if c_ref_count c = 0 then c else c\<lparr>c_ref_count := c_ref_count c - 1\<rparr>)"
  shows "ya_client_unref (M, H) (Some a) = returns (M, H\<lparr>cells := (cells H)(a \<mapsto> c')\<rparr>)"
    and "client_table (M, H\<lparr>cells := (cells H)(a \<mapsto> c')\<rparr>) xs"
proof -
  have z: "c_ref_count c - 1 = 0 \<longleftrightarrow> c_ref_count c = 1" by simp
  show "ya_client_unref (M, H) (Some a) = returns (M, H\<lparr>cells := (cells H)(a \<mapsto> c')\<rparr>)"
    using a assms(3) by (auto simp: ya_client_unref_def c'_def z Let_def fun_upd_idem)
  show "client_table (M, H\<lparr>cells := (cells H)(a \<mapsto> c')\<rparr>) xs"
    using table_update [OF t a, of c'] by (simp add: c'_def)
qed

lemma unref_free:
  assumes t: "client_table (M, H) xs" and a: "cells H a = Some c"
    and last: "c_ref_count c = 1" "c_state c = YA_CLIENT_DISCONNECTED"
  shows "\<exists>M' H'. ya_client_unref (M, H) (Some a) = returns (M', H') \<and> clients_inv (M', H') \<and>
    cells H' a = None \<and>
    (\<forall>b. b \<noteq> a \<longrightarrow> map_option (\<lambda>c. c\<lparr>c_next := None\<rparr>) (cells H' b) = map_option (\<lambda>c. c\<lparr>c_next := None\<rparr>) (cells H b)) \<and>
    bevs_freed H' = bevs_freed H @ (case c_bev c of None \<Rightarrow> [] | Some b \<Rightarrow> [b]) \<and>
    freed_reads H' = freed_reads H @ [a] \<and> next_uid M' = next_uid M"
proof -
  let ?c = "c\<lparr>c_ref_count := 0\<rparr>" and ?i = "hash_uid (c_uid c)"
  let ?H = "H\<lparr>cells := (cells H)(a \<mapsto> ?c)\<rparr>"
  have t': "client_table (M, ?H) xs" by (rule table_update [OF t a]) simp_all
  have a': "cells ?H a = Some ?c" by simp
  have mem: "a \<in> set (xs ?i)" using table_mem [OF t a] .
  have "distinct (xs ?i)" using t by (simp add: client_table_def)
  from scan_find_hit [OF mem this, of None] obtain prev where
    s: "scan (\<lambda>b. b = a) None (xs ?i) = (prev, Some a)" by blast
  have f: "chain_find (\<lambda>b _. b = a) (cells ?H) None (buckets M ! ?i) = returns (prev, Some a)"
    using chain_find_scan [OF table_chain [OF t', of "c_uid c"], of "\<lambda>b _. b = a" None] s by simp
  from table_unlink [OF t' a', of "\<lambda>b. b = a" prev] s obtain M' H' where
    u: "unlink_free (M, ?H) ?i prev a = returns (M', H')"
      "client_table (M', H') (xs(?i := remove1 a (xs ?i)))" "cells H' a = None"
      "\<forall>b. b \<noteq> a \<longrightarrow> map_option (\<lambda>c. c\<lparr>c_next := None\<rparr>) (cells H' b) = map_option (\<lambda>c. c\<lparr>c_next := None\<rparr>) (cells ?H b)"
      "bevs_freed H' = bevs_freed H @ (case c_bev c of None \<Rightarrow> [] | Some b \<Rightarrow> [b])"
      "freed_reads H' = freed_reads H" "next_uid M' = next_uid M"
    by auto
  have "ya_client_unref (M, H) (Some a) = returns (M', H'\<lparr>freed_reads := freed_reads H' @ [a]\<rparr>)"
    using a last f u(1) by (simp add: ya_client_unref_def Let_def)
  moreover have "clients_inv (M', H'\<lparr>freed_reads := freed_reads H' @ [a]\<rparr>)"
    using u(2) table_freed_reads unfolding clients_inv_def by blast
  ultimately show ?thesis using u(3-7)
    by (intro exI [of _ M'] exI [of _ "H'\<lparr>freed_reads := freed_reads H' @ [a]\<rparr>"]) simp
qed

section \<open>Removal\<close>

lemma remove_absent:
  assumes t: "client_table (M, H) xs" and "\<forall>a c. cells H a = Some c \<longrightarrow> c_uid c \<noteq> uid"
  shows "ya_client_remove (M, H) uid = returns (M, H)"
proof (cases "uid = 0")
  case False
  let ?hit = "\<lambda>a. c_uid (the (cells H a)) = uid"
  have "\<forall>a \<in> set (xs (hash_uid uid)). \<not> ?hit a"
    using table_alloc [OF t, of _ uid] assms(2) by (metis option.sel)
  then obtain q where "scan ?hit None (xs (hash_uid uid)) = (q, None)"
    using scan_None [of ?hit None "xs (hash_uid uid)"] by (metis prod.collapse)
  with chain_find_scan [OF table_chain [OF t, of uid], of "\<lambda>_ c. c_uid c = uid" None] False
  show ?thesis by (simp add: ya_client_remove_def Let_def)
qed (simp add: ya_client_remove_def)

text \<open>
  \<open>ya_client_remove\<close> takes the first client of the bucket with the number, marks it and frees it
  when nothing refers to it.
\<close>

lemma remove_present:
  assumes t: "client_table (M, H) xs" and "\<exists>a c. cells H a = Some c \<and> c_uid c = uid"
  shows "\<exists>a c M' H'. cells H a = Some c \<and> c_uid c = uid \<and>
    ya_client_remove (M, H) uid = returns (M', H') \<and> clients_inv (M', H') \<and>
    cells H' a = (if c_ref_count c = 0 then None else Some (c\<lparr>c_state := YA_CLIENT_DISCONNECTED\<rparr>)) \<and>
    (\<forall>b. b \<noteq> a \<longrightarrow> map_option (\<lambda>c. c\<lparr>c_next := None\<rparr>) (cells H' b) = map_option (\<lambda>c. c\<lparr>c_next := None\<rparr>) (cells H b)) \<and>
    freed_reads H' = freed_reads H \<and> next_uid M' = next_uid M"
proof -
  let ?hit = "\<lambda>a. c_uid (the (cells H a)) = uid" and ?i = "hash_uid uid"
  from assms(2) obtain a0 c0 where 0: "cells H a0 = Some c0" "c_uid c0 = uid" by blast
  then have uid: "uid \<noteq> 0" using t by (auto simp: client_table_def)
  have "a0 \<in> set (xs ?i)" using table_mem [OF t 0(1)] 0(2) by simp
  then have "snd (scan ?hit None (xs ?i)) \<noteq> None" using 0 by (auto simp: scan_None intro!: bexI [of _ a0])
  then obtain prev a where s: "scan ?hit None (xs ?i) = (prev, Some a)"
    by (metis not_None_eq prod.collapse)
  from scan_Some [OF s] have hit: "?hit a" and mem: "a \<in> set (xs ?i)" by auto
  from table_alloc [OF t mem] obtain c where a: "cells H a = Some c" by blast
  with hit have cu: "c_uid c = uid" by simp
  let ?c = "c\<lparr>c_state := YA_CLIENT_DISCONNECTED\<rparr>"
  let ?H = "H\<lparr>cells := (cells H)(a \<mapsto> ?c)\<rparr>"
  have f: "chain_find (\<lambda>_ c. c_uid c = uid) (cells H) None (buckets M ! ?i) = returns (prev, Some a)"
    using chain_find_scan [OF table_chain [OF t, of uid]] s by simp
  have t': "client_table (M, ?H) xs" by (rule table_update [OF t a]) simp_all
  show ?thesis
  proof (cases "c_ref_count c = 0")
    case False
    then have "ya_client_remove (M, H) uid = returns (M, ?H)"
      using uid f a by (simp add: ya_client_remove_def Let_def)
    with a cu t' False show ?thesis
      by (intro exI [of _ a] exI [of _ c] exI [of _ M] exI [of _ ?H]) (auto simp: clients_inv_def)
  next
    case True
    have "(\<lambda>b. c_uid (the (cells ?H b)) = uid) = ?hit" using a by (auto simp: fun_eq_iff)
    with table_unlink [OF t', of a ?c ?hit prev] s cu obtain M' H' where
      u: "unlink_free (M, ?H) ?i prev a = returns (M', H')"
        "client_table (M', H') (xs(?i := remove1 a (xs ?i)))" "cells H' a = None"
        "\<forall>b. b \<noteq> a \<longrightarrow> map_option (\<lambda>c. c\<lparr>c_next := None\<rparr>) (cells H' b) = map_option (\<lambda>c. c\<lparr>c_next := None\<rparr>) (cells ?H b)"
        "freed_reads H' = freed_reads H" "next_uid M' = next_uid M"
      by auto
    have "ya_client_remove (M, H) uid = returns (M', H')"
      using uid f a True u(1) by (simp add: ya_client_remove_def Let_def)
    with a cu True u show ?thesis
      by (intro exI [of _ a] exI [of _ c] exI [of _ M'] exI [of _ H']) (auto simp: clients_inv_def)
  qed
qed

section \<open>Cleanup and counting\<close>

lemma chain_free_list:
  "chain (cells H) p as \<Longrightarrow> distinct as \<Longrightarrow>
     \<exists>bs. chain_free H p = returns (H\<lparr>cells := (\<lambda>a. if a \<in> set as then None else cells H a),
       bevs_freed := bevs_freed H @ bs\<rparr>)"
proof (induction as arbitrary: H p)
  case Nil
  then show ?case by (auto simp: chain_free.simps intro!: exI [of _ "[]"])
next
  case (Cons a as)
  then obtain c where p: "p = Some a" and a: "cells H a = Some c" and ch: "chain (cells H) (c_next c) as" by auto
  let ?H = "free_client H a c"
  have "chain (cells ?H) (c_next c) as" using ch Cons.prems(2) by (simp add: free_client_def chain_frame)
  from Cons.IH [OF this] Cons.prems(2) obtain bs where
    "chain_free ?H (c_next c) = returns (?H\<lparr>cells := (\<lambda>x. if x \<in> set as then None else cells ?H x),
       bevs_freed := bevs_freed ?H @ bs\<rparr>)" by auto
  moreover have "(\<lambda>x. if x \<in> set as then None else cells ?H x) = (\<lambda>x. if x \<in> set (a # as) then None else cells H x)"
    by (auto simp: free_client_def)
  ultimately show ?case using p a
    by (intro exI [of _ "(case c_bev c of None \<Rightarrow> [] | Some b \<Rightarrow> [b]) @ bs"])
      (simp add: chain_free.simps [of H] free_client_def)
qed

lemma free_buckets_list:
  "list_all2 (chain (cells H)) ps ass \<Longrightarrow> distinct (concat ass) \<Longrightarrow>
     \<exists>bs. free_buckets H ps = returns (H\<lparr>cells := (\<lambda>a. if a \<in> set (concat ass) then None else cells H a),
       bevs_freed := bevs_freed H @ bs\<rparr>)"
proof (induction ps arbitrary: H ass)
  case Nil
  then show ?case by (auto intro!: exI [of _ "[]"])
next
  case (Cons p ps)
  then obtain as ass' where ass: "ass = as # ass'" and ch: "chain (cells H) p as"
    and chs: "list_all2 (chain (cells H)) ps ass'" by (auto simp: list_all2_Cons1)
  with Cons.prems(2) obtain b1 where 1: "chain_free H p = returns (H\<lparr>cells := (\<lambda>a. if a \<in> set as then None else cells H a),
       bevs_freed := bevs_freed H @ b1\<rparr>)" using chain_free_list [OF ch] by auto
  let ?H = "H\<lparr>cells := (\<lambda>a. if a \<in> set as then None else cells H a), bevs_freed := bevs_freed H @ b1\<rparr>"
  have disj: "set as \<inter> set (concat ass') = {}" "distinct (concat ass')" using Cons.prems(2) ass by auto
  have fr: "chain (cells ?H) q qs" if "chain (cells H) q qs" "set as \<inter> set qs = {}" for q qs
    using that by (induction qs arbitrary: q) auto
  have "list_all2 (chain (cells ?H)) ps ass'"
  proof (rule list.rel_mono_strong [OF chs])
    fix q qs assume "chain (cells H) q qs" "qs \<in> set ass'"
    then show "chain (cells ?H) q qs" using fr disj(1) by auto
  qed
  from Cons.IH [OF this disj(2)] obtain b2 where
    "free_buckets ?H ps = returns (?H\<lparr>cells := (\<lambda>a. if a \<in> set (concat ass') then None else cells ?H a),
       bevs_freed := bevs_freed ?H @ b2\<rparr>)" by blast
  then show ?case using 1 ass
    by (intro exI [of _ "b1 @ b2"]) (auto simp: fun_eq_iff)
qed

lemma table_lists:
  assumes t: "client_table (M, H) xs"
  shows "list_all2 (chain (cells H)) (buckets M) (map xs [0..<251])"
    and "distinct (concat (map xs [0..<251]))"
    and "set (concat (map xs [0..<251])) = dom (cells H)"
proof -
  show "list_all2 (chain (cells H)) (buckets M) (map xs [0..<251])"
    using t by (auto simp: client_table_def list_all2_conv_all_nth)
  have inj: "i = j" if "a \<in> set (xs i)" "a \<in> set (xs j)" "i < 251" "j < 251" for a i j
  proof -
    have al: "\<forall>i < 251. \<forall>a \<in> set (xs i). \<exists>c. cells H a = Some c \<and> hash_uid (c_uid c) = i"
      using t by (simp add: client_table_def)
    from al that(1,3) obtain c where "cells H a = Some c" "hash_uid (c_uid c) = i" by blast
    moreover from al that(2,4) obtain c' where "cells H a = Some c'" "hash_uid (c_uid c') = j" by blast
    ultimately show ?thesis by simp
  qed
  have "distinct (concat (map xs [0..<n]))" if "n \<le> 251" for n
    using that
  proof (induction n)
    case (Suc n)
    then have "distinct (xs n)" using t by (simp add: client_table_def)
    moreover have "set (concat (map xs [0..<n])) \<inter> set (xs n) = {}"
      using inj [of _ _ n] Suc.prems by fastforce
    ultimately show ?case using Suc by simp
  qed simp
  then show "distinct (concat (map xs [0..<251]))" by blast
  show "set (concat (map xs [0..<251])) = dom (cells H)"
    using t hash_uid_less unfolding client_table_def by fastforce
qed

lemma cleanup_empties:
  assumes "client_table (M, H) xs"
  shows "\<exists>M' H'. ya_client_manager_cleanup (M, H) = returns (M', H') \<and> cells H' = Map.empty \<and>
    M' = ya_client_manager_init"
proof -
  from free_buckets_list [OF table_lists(1,2) [OF assms]] obtain bs where
    f: "free_buckets H (buckets M) = returns (H\<lparr>cells := (\<lambda>a. if a \<in> set (concat (map xs [0..<251])) then None
       else cells H a), bevs_freed := bevs_freed H @ bs\<rparr>)" by blast
  have "(\<lambda>a. if a \<in> set (concat (map xs [0..<251])) then None else cells H a) = Map.empty"
    unfolding table_lists(3) [OF assms] by auto
  moreover have "length (buckets M) = 251" using assms by (simp add: client_table_def)
  ultimately show ?thesis using f
    by (auto simp: ya_client_manager_cleanup_def ya_client_manager_init_def)
qed

lemma count_buckets_list:
  "list_all2 (chain h) ps ass \<Longrightarrow> count_buckets h ps n =
     returns (n + word_of_nat (length (filter (\<lambda>a. c_state (the (h a)) = YA_CLIENT_ACTIVE) (concat ass))))"
  by (induction ps ass arbitrary: n rule: list_all2_induct) (simp_all add: chain_count_list)

lemma get_count_card:
  assumes "client_table (M, H) xs"
  shows "ya_client_get_count (M, H) =
    returns (word_of_nat (card {a. \<exists>c. cells H a = Some c \<and> c_state c = YA_CLIENT_ACTIVE}))"
proof -
  let ?as = "concat (map xs [0..<251])" and ?P = "\<lambda>a. c_state (the (cells H a)) = YA_CLIENT_ACTIVE"
  have "length (filter ?P ?as) = card (set (filter ?P ?as))"
    by (intro distinct_card [symmetric] distinct_filter table_lists(2) [OF assms])
  also have "set (filter ?P ?as) = {a \<in> dom (cells H). ?P a}"
    unfolding table_lists(3) [OF assms, symmetric] by auto
  also have "\<dots> = {a. \<exists>c. cells H a = Some c \<and> c_state c = YA_CLIENT_ACTIVE}" by auto
  finally show ?thesis
    using count_buckets_list [OF table_lists(1) [OF assms], of 0] by (simp add: ya_client_get_count_def)
qed

section \<open>The table as a store of clients\<close>

text \<open>
  What the servers rely on: lookups are defined and find active clients only, taking and
  dropping a reference changes the count of one client and nothing else.  Inside this contract,
  a reference held around any operation that keeps the client's count is given back exactly.
\<close>

locale client_store =
  fixes inv :: "'s \<Rightarrow> bool" and look :: "'s \<Rightarrow> addr \<Rightarrow> ya_client option"
    and find :: "'s \<Rightarrow> u32 \<Rightarrow> ptr run"
    and ref :: "'s \<Rightarrow> ptr \<Rightarrow> 's run" and unref :: "'s \<Rightarrow> ptr \<Rightarrow> 's run"
  assumes find_law: "inv s \<Longrightarrow> \<exists>r. find s u = returns r \<and>
      (\<forall>a. r = Some a \<longrightarrow> (\<exists>c. look s a = Some c \<and> c_uid c = u \<and> c_state c = YA_CLIENT_ACTIVE))"
    and ref_law: "inv s \<Longrightarrow> look s a = Some c \<Longrightarrow>
      \<exists>s'. ref s (Some a) = returns s' \<and> inv s' \<and>
        look s' = (look s)(a \<mapsto> c\<lparr>c_ref_count := c_ref_count c + 1\<rparr>)"
    and unref_law: "inv s \<Longrightarrow> look s a = Some c \<Longrightarrow> c_ref_count c \<noteq> 0 \<Longrightarrow>
      \<not> (c_ref_count c = 1 \<and> c_state c = YA_CLIENT_DISCONNECTED) \<Longrightarrow>
      \<exists>s'. unref s (Some a) = returns s' \<and> inv s' \<and>
        look s' = (look s)(a \<mapsto> c\<lparr>c_ref_count := c_ref_count c - 1\<rparr>)"
begin

lemma bracket:
  assumes s: "inv s" "look s a = Some c" "c_ref_count c + 1 \<noteq> 0"
    and f: "\<And>s1. inv s1 \<Longrightarrow> look s1 = (look s)(a \<mapsto> c\<lparr>c_ref_count := c_ref_count c + 1\<rparr>) \<Longrightarrow>
      \<exists>s2 c2. f s1 = returns s2 \<and> inv s2 \<and> look s2 a = Some c2 \<and>
        c_ref_count c2 = c_ref_count c + 1 \<and> c_state c2 = YA_CLIENT_ACTIVE"
  shows "\<exists>s' c'. run_bind (ref s (Some a)) (\<lambda>s1. run_bind (f s1) (\<lambda>s2. unref s2 (Some a))) = returns s' \<and>
    inv s' \<and> look s' a = Some c' \<and> c_ref_count c' = c_ref_count c"
proof -
  from ref_law [OF s(1,2)] obtain s1 where r: "ref s (Some a) = returns s1" "inv s1"
    "look s1 = (look s)(a \<mapsto> c\<lparr>c_ref_count := c_ref_count c + 1\<rparr>)" by blast
  from f [OF r(2,3)] obtain s2 c2 where 2: "f s1 = returns s2" "inv s2" "look s2 a = Some c2"
    "c_ref_count c2 = c_ref_count c + 1" "c_state c2 = YA_CLIENT_ACTIVE" by blast
  from unref_law [OF 2(2,3)] 2(4,5) s(3) obtain s' where
    "unref s2 (Some a) = returns s'" "inv s'" "look s' a = Some (c2\<lparr>c_ref_count := c_ref_count c2 - 1\<rparr>)"
    by auto
  with r(1) 2(1,4) show ?thesis by auto
qed

end

interpretation client_manager: client_store clients_inv "\<lambda>S. cells (snd S)"
  ya_client_find_by_uid ya_client_ref ya_client_unref
proof (unfold_locales, goal_cases)
  case (1 s u)
  then show ?case using find_by_uid_returns [of "fst s" "snd s" u] by auto
next
  case (2 s a c)
  then obtain xs where "client_table (fst s, snd s) xs" by (auto simp: clients_inv_def)
  from ref_effect [OF this 2(2)] show ?case by (auto simp: clients_inv_def)
next
  case (3 s a c)
  then obtain xs where "client_table (fst s, snd s) xs" by (auto simp: clients_inv_def)
  from unref_keep [OF this 3(2)] 3(3,4) show ?case by (auto simp: clients_inv_def)
qed

section \<open>Reachable tables\<close>

text \<open>
  One step of the table's life: any operation of the module on a live client, a creation in a
  fresh block, or a change of a client's own fields by its users.
\<close>

inductive client_step :: "clients \<Rightarrow> clients \<Rightarrow> bool" where
  create: "cells H a = None \<Longrightarrow>
    client_step (M, H) (fst (ya_client_create (Some a) filter_ok now (M, H) fd bev))"
| create_fails: "client_step (M, H) (fst (ya_client_create None filter_ok now (M, H) fd bev))"
| ref: "cells H a = Some c \<Longrightarrow> ya_client_ref (M, H) (Some a) = returns S \<Longrightarrow> client_step (M, H) S"
| unref: "cells H a = Some c \<Longrightarrow> ya_client_unref (M, H) (Some a) = returns S \<Longrightarrow> client_step (M, H) S"
| remove: "ya_client_remove (M, H) uid = returns S \<Longrightarrow> client_step (M, H) S"
| cleanup: "ya_client_manager_cleanup (M, H) = returns S \<Longrightarrow> client_step (M, H) S"
| modify: "cells H a = Some c \<Longrightarrow> c_next c' = c_next c \<Longrightarrow> c_uid c' = c_uid c \<Longrightarrow>
    client_step (M, H) (M, H\<lparr>cells := (cells H)(a \<mapsto> c')\<rparr>)"

inductive_cases client_stepE: "client_step (M, H) S"

inductive client_reachable :: "clients \<Rightarrow> bool" where
  init: "client_reachable (ya_client_manager_init, \<lparr>cells = Map.empty, bevs_freed = [], freed_reads = []\<rparr>)"
| step: "client_reachable S \<Longrightarrow> client_step S S' \<Longrightarrow> client_reachable S'"

lemma create_inv:
  assumes t: "clients_inv (M, H)" and "cells H a = None"
  shows "clients_inv (fst (ya_client_create (Some a) filter_ok now (M, H) fd bev))"
proof (cases "bev \<noteq> None \<and> 0 \<le> sint fd")
  case True
  from t obtain xs where tab: "client_table (M, H) xs" by (auto simp: clients_inv_def)
  from True create_result obtain M' H' c where
    r: "ya_client_create (Some a) filter_ok now (M, H) fd bev = ((M', H'), Some a)"
      "c_uid c = (if next_uid M = 0 then 1 else next_uid M)" "c_next c = buckets M ! hash_uid (c_uid c)"
      "M' = M\<lparr>buckets := (buckets M)[hash_uid (c_uid c) := Some a], client_count := client_count M + 1,
           next_uid := (if c_uid c + 1 = 0 then 1 else c_uid c + 1)\<rparr>"
      "H' = H\<lparr>cells := (cells H)(a \<mapsto> c)\<rparr>" by metis
  have "client_table (M', H') (xs(hash_uid (c_uid c) := a # xs (hash_uid (c_uid c))))"
    unfolding r(4,5) by (rule table_create [OF tab assms(2) _ r(3)]) (simp_all add: r(2))
  with r(1) show ?thesis by (auto simp: clients_inv_def)
next
  case False
  with t show ?thesis by (auto simp: ya_client_create_def)
qed

lemma unref_inv:
  assumes "clients_inv (M, H)" "cells H a = Some c"
  shows "\<exists>S. ya_client_unref (M, H) (Some a) = returns S \<and> clients_inv S"
proof -
  from assms obtain xs where t: "client_table (M, H) xs" by (auto simp: clients_inv_def)
  show ?thesis
    using unref_keep [OF t assms(2)] unref_free [OF t assms(2)] by (auto simp: clients_inv_def)
qed

lemma remove_inv:
  assumes "clients_inv (M, H)"
  shows "\<exists>S. ya_client_remove (M, H) uid = returns S \<and> clients_inv S"
proof -
  from assms obtain xs where t: "client_table (M, H) xs" by (auto simp: clients_inv_def)
  then show ?thesis
    using remove_absent [OF t, of uid] remove_present [OF t, of uid] assms by blast
qed

lemma cleanup_inv:
  assumes "clients_inv (M, H)"
  shows "\<exists>S. ya_client_manager_cleanup (M, H) = returns S \<and> clients_inv S \<and> cells (snd S) = Map.empty"
proof -
  from assms obtain xs where t: "client_table (M, H) xs" by (auto simp: clients_inv_def)
  from cleanup_empties [OF t] obtain M' H' where r: "ya_client_manager_cleanup (M, H) = returns (M', H')"
    "cells H' = Map.empty" "M' = ya_client_manager_init" by blast
  then have "H' = \<lparr>cells = Map.empty, bevs_freed = bevs_freed H', freed_reads = freed_reads H'\<rparr>" by simp
  with r clients_inv_init show ?thesis by (metis snd_conv)
qed

lemma client_step_inv: "client_step S S' \<Longrightarrow> clients_inv S \<Longrightarrow> clients_inv S'"
proof (induction rule: client_step.induct)
  case (ref H a c M S)
  then show ?case using client_manager.ref_law [of "(M, H)" a c] by auto
next
  case (unref H a c M S)
  then show ?case using unref_inv [of M H a c] by auto
next
  case (remove M H uid S)
  then show ?case using remove_inv [of M H uid] by auto
next
  case (cleanup M H S)
  then show ?case using cleanup_inv [of M H] by auto
next
  case (modify H a c c' M)
  then show ?case using table_update [of M H _ a c c'] by (auto simp: clients_inv_def)
next
  case (create H a M filter_ok now fd bev)
  then show ?case by (intro create_inv)
next
  case (create_fails M H filter_ok now fd bev)
  then show ?case by (simp add: ya_client_create_def)
qed

lemma reachable_inv: "client_reachable S \<Longrightarrow> clients_inv S"
  by (induction rule: client_reachable.induct) (auto intro: clients_inv_init client_step_inv)

text \<open>
  Numbers are given out in order: as long as the counter has not wrapped, two clients never
  share one, and no client has a number still to come.
\<close>

definition uids_ok :: "clients \<Rightarrow> bool" where
  "uids_ok = (\<lambda>(M, H).
     (\<forall>a c. cells H a = Some c \<longrightarrow> c_uid c < next_uid M) \<and>
     (\<forall>a b c d. cells H a = Some c \<longrightarrow> cells H b = Some d \<longrightarrow> c_uid c = c_uid d \<longrightarrow> a = b))"

lemma uids_ok_uids:
  assumes "uids_ok (M, H)" and "next_uid M' = next_uid M"
    and "\<And>a c'. cells H' a = Some c' \<Longrightarrow> \<exists>c. cells H a = Some c \<and> c_uid c = c_uid c'"
  shows "uids_ok (M', H')"
  unfolding uids_ok_def prod.case
proof (intro conjI allI impI)
  fix a c assume "cells H' a = Some c"
  with assms(3) obtain c0 where "cells H a = Some c0" "c_uid c0 = c_uid c" by blast
  with assms(1,2) show "c_uid c < next_uid M'" unfolding uids_ok_def by force
next
  fix a b c d assume "cells H' a = Some c" "cells H' b = Some d" "c_uid c = c_uid d"
  with assms(3) obtain c0 d0 where "cells H a = Some c0" "cells H b = Some d0" "c_uid c0 = c_uid d0" by metis
  with assms(1) show "a = b" by (auto simp: uids_ok_def)
qed

lemma uids_ok_create:
  assumes u: "uids_ok (M, H)" and n: "next_uid M \<noteq> 0" "next_uid M \<noteq> 0xFFFFFFFF"
  shows "uids_ok (fst (ya_client_create (Some a) filter_ok now (M, H) fd bev))"
proof (cases "bev \<noteq> None \<and> 0 \<le> sint fd")
  case True
  from True create_result obtain M' H' c where
    r: "ya_client_create (Some a) filter_ok now (M, H) fd bev = ((M', H'), Some a)"
      "c_uid c = (if next_uid M = 0 then 1 else next_uid M)"
      "M' = M\<lparr>buckets := (buckets M)[hash_uid (c_uid c) := Some a], client_count := client_count M + 1,
           next_uid := (if c_uid c + 1 = 0 then 1 else c_uid c + 1)\<rparr>"
      "H' = H\<lparr>cells := (cells H)(a \<mapsto> c)\<rparr>" by metis
  have "unat (next_uid M) + 1 < 2 ^ 32"
    using n(2) unat_u32_bound [of "next_uid M"] by (simp add: word_unat_eq_iff)
  then have "next_uid M + 1 \<noteq> 0" and less: "\<And>v. v < next_uid M \<Longrightarrow> v < next_uid M + 1" "next_uid M < next_uid M + 1"
    by (auto simp: word_less_nat_alt unat_word_ariths word_unat_eq_iff)
  with r(2,3) n(1) have m: "next_uid M' = next_uid M + 1" "c_uid c = next_uid M" by simp_all
  show ?thesis
    using u less unfolding r(1) fst_conv uids_ok_def prod.case m(1) by (auto simp: r(4) m(2)) (metis order_less_irrefl)+
next
  case False
  with u show ?thesis by (auto simp: ya_client_create_def)
qed

lemma same_but_next:
  assumes "map_option (\<lambda>c. c\<lparr>c_next := None\<rparr>) x = map_option (\<lambda>c. c\<lparr>c_next := None\<rparr>) y" "x = Some c"
  shows "\<exists>d. y = Some d \<and> c_uid d = c_uid c \<and> c_state d = c_state c \<and> c_ref_count d = c_ref_count c \<and>
    c_fd d = c_fd c \<and> c_bev d = c_bev c"
proof -
  from assms obtain d where d: "y = Some d" and e: "c\<lparr>c_next := None\<rparr> = d\<lparr>c_next := None\<rparr>" by (cases y) auto
  from e show ?thesis by (cases c; cases d) (simp add: d)
qed

text \<open>What leaves the counter and every client's number alone keeps the numbering.\<close>

lemma uids_ok_step:
  assumes "client_step S S'" "clients_inv S" "uids_ok S" "next_uid (fst S) \<noteq> 0xFFFFFFFF"
  shows "uids_ok S'"
  using assms
proof (induction rule: client_step.induct)
  case (create H a M filter_ok now fd bev)
  then have "next_uid M \<noteq> 0" by (auto simp: clients_inv_def client_table_def)
  with create show ?case by (intro uids_ok_create) simp_all
next
  case (create_fails M H filter_ok now fd bev)
  then show ?case by (simp add: ya_client_create_def)
next
  case (ref H a c M S)
  then show ?case by (auto simp: ya_client_ref_def intro!: uids_ok_uids [OF ref.prems(2)] split: if_splits)
next
  case (unref H a c M S)
  then obtain xs where t: "client_table (M, H) xs" by (auto simp: clients_inv_def)
  show ?case
  proof (cases "c_ref_count c = 1 \<and> c_state c = YA_CLIENT_DISCONNECTED")
    case False
    with unref unref_keep [OF t unref(1)] show ?thesis
      by (auto intro!: uids_ok_uids [OF unref.prems(2)] split: if_splits)
  next
    case True
    with unref_free [OF t unref(1)] unref(2) obtain M' H' where S: "S = (M', H')" and gone: "cells H' a = None"
      and same: "\<forall>b. b \<noteq> a \<longrightarrow> map_option (\<lambda>c. c\<lparr>c_next := None\<rparr>) (cells H' b) = map_option (\<lambda>c. c\<lparr>c_next := None\<rparr>) (cells H b)"
      and n: "next_uid M' = next_uid M" by auto
    show ?thesis unfolding S
    proof (rule uids_ok_uids [OF unref.prems(2) n])
      fix b c' assume b: "cells H' b = Some c'"
      with gone have "b \<noteq> a" by auto
      with same same_but_next [OF _ b] show "\<exists>c. cells H b = Some c \<and> c_uid c = c_uid c'" by blast
    qed
  qed
next
  case (remove M H uid S)
  then obtain xs where t: "client_table (M, H) xs" by (auto simp: clients_inv_def)
  show ?case
  proof (cases "\<exists>a c. cells H a = Some c \<and> c_uid c = uid")
    case False
    with remove_absent [OF t, of uid] remove show ?thesis by auto
  next
    case True
    from remove_present [OF t True] remove(1) obtain a c M' H' where S: "S = (M', H')"
      and a: "cells H a = Some c"
      and here: "cells H' a = (if c_ref_count c = 0 then None else Some (c\<lparr>c_state := YA_CLIENT_DISCONNECTED\<rparr>))"
      and same: "\<forall>b. b \<noteq> a \<longrightarrow> map_option (\<lambda>c. c\<lparr>c_next := None\<rparr>) (cells H' b) = map_option (\<lambda>c. c\<lparr>c_next := None\<rparr>) (cells H b)"
      and n: "next_uid M' = next_uid M" by auto
    show ?thesis unfolding S
    proof (rule uids_ok_uids [OF remove.prems(2) n])
      fix b c' assume b: "cells H' b = Some c'"
      show "\<exists>c. cells H b = Some c \<and> c_uid c = c_uid c'"
      proof (cases "b = a")
        case True
        with a here b show ?thesis by (auto split: if_splits)
      next
        case False
        with same same_but_next [OF _ b] show ?thesis by blast
      qed
    qed
  qed
next
  case (cleanup M H S)
  with cleanup_inv [of M H] show ?case by (cases S) (auto simp: uids_ok_def)
next
  case (modify H a c c' M)
  then show ?case by (intro uids_ok_uids [OF modify.prems(2)]) (auto split: if_splits)
qed

lemma scan_cong:
  "(\<And>a. a \<in> set as \<Longrightarrow> P a = Q a) \<Longrightarrow> scan P prev as = scan Q prev as"
  by (induction as arbitrary: prev) auto

lemma scan_prev: "snd (scan P p as) = snd (scan P q as)"
  by (cases as) auto

lemma find_fd_list:
  "list_all2 (chain h) ps ass \<Longrightarrow> \<exists>r. find_fd_buckets h fd ps = returns r \<and>
     (case r of
        Some a \<Rightarrow> \<exists>c. h a = Some c \<and> c_fd c = fd \<and> c_state c = YA_CLIENT_ACTIVE
      | None \<Rightarrow> \<forall>a \<in> set (concat ass). \<not> (c_fd (the (h a)) = fd \<and> c_state (the (h a)) = YA_CLIENT_ACTIVE))"
proof (induction ps ass rule: list_all2_induct)
  case (Cons p ps as ass)
  let ?hit = "\<lambda>a. c_fd (the (h a)) = fd \<and> c_state (the (h a)) = YA_CLIENT_ACTIVE"
  obtain q r where s: "scan ?hit None as = (q, r)" by fastforce
  have f: "chain_find (\<lambda>_ c. c_fd c = fd \<and> c_state c = YA_CLIENT_ACTIVE) h None p = returns (q, r)"
    using chain_find_scan [OF Cons(1)] s by simp
  show ?case
  proof (cases r)
    case None
    with s scan_None [of ?hit None as] have none: "\<forall>a \<in> set as. \<not> ?hit a" by simp
    from Cons.IH obtain ra where ra: "find_fd_buckets h fd ps = returns ra"
      "case ra of Some a \<Rightarrow> \<exists>c. h a = Some c \<and> c_fd c = fd \<and> c_state c = YA_CLIENT_ACTIVE
       | None \<Rightarrow> \<forall>a \<in> set (concat ass). \<not> ?hit a" by blast
    with f None have "find_fd_buckets h fd (p # ps) = returns ra" by simp
    with ra(2) none show ?thesis by (intro exI [of _ ra]) (auto split: option.splits)
  next
    case (Some a)
    with scan_Some [of ?hit None as q a] s have hit: "?hit a" and mem: "a \<in> set as" by auto
    obtain c where "h a = Some c" using chain_allocated [OF Cons(1) mem] by blast
    with hit f Some show ?thesis by auto
  qed
qed simp

lemma find_by_fd_returns:
  assumes "clients_inv (M, H)"
  shows "\<exists>r. ya_client_find_by_fd (M, H) fd = returns r \<and>
     (\<forall>a. r = Some a \<longrightarrow> (\<exists>c. cells H a = Some c \<and> c_fd c = fd \<and> c_state c = YA_CLIENT_ACTIVE))"
proof -
  obtain xs where t: "client_table (M, H) xs" using assms by (auto simp: clients_inv_def)
  from find_fd_list [OF table_lists(1) [OF t], of fd] show ?thesis
    by (auto simp: ya_client_find_by_fd_def split: option.splits)
qed

section \<open>Properties\<close>


text \<open>A table with one client, connected on descriptor 7.\<close>

definition one_client :: clients where
  "one_client = fst (ya_client_create (Some 0) True 1700000000
     (ya_client_manager_init, \<lparr>cells = Map.empty, bevs_freed = [], freed_reads = []\<rparr>) 7 (Some 3))"

lemma one_client_reachable: "client_reachable one_client"
  unfolding one_client_def
  by (rule client_reachable.step [OF client_reachable.init]) (simp add: client_step.create)

lemma one_client_eq:
  "\<exists>M H c. one_client = (M, H) \<and> cells H = [0 \<mapsto> c] \<and> c_uid c = 1 \<and> c_state c = YA_CLIENT_ACTIVE \<and>
    c_ref_count c = 1 \<and> c_fd c = 7 \<and> next_uid M = 2"
  unfolding one_client_def
  by (simp add: ya_client_create_def ya_client_manager_init_def Let_def) (rule exI, rule conjI, rule refl, simp)


text \<open>C2.
  A created client is found at once under the number it got, whatever else is in its bucket, no
  other number's lookup changes, and the number is never 0.
\<close>

theorem created_client_found:
  assumes "client_reachable (M, H)" and "cells H a = None" and "bev \<noteq> None" "0 \<le> sint fd"
    and "ya_client_create (Some a) filter_ok now (M, H) fd bev = (S', p)"
  shows "\<exists>c. p = Some a \<and> cells (snd S') a = Some c \<and> c_uid c \<noteq> 0 \<and>
    ya_client_find_by_uid S' (c_uid c) = returns (Some a) \<and>
    (\<forall>u. u \<noteq> c_uid c \<longrightarrow> ya_client_find_by_uid S' u = ya_client_find_by_uid (M, H) u)"
proof -
  obtain xs where t: "client_table (M, H) xs"
    using reachable_inv [OF assms(1)] by (auto simp: clients_inv_def)
  from create_result [OF assms(3,4), of a filter_ok now M H] obtain M' H' c where
    eq: "ya_client_create (Some a) filter_ok now (M, H) fd bev = ((M', H'), Some a)" and
    r2: "c_state c = YA_CLIENT_ACTIVE"
      "c_uid c = (if next_uid M = 0 then 1 else next_uid M)" "c_next c = buckets M ! hash_uid (c_uid c)"
      "M' = M\<lparr>buckets := (buckets M)[hash_uid (c_uid c) := Some a], client_count := client_count M + 1,
           next_uid := (if c_uid c + 1 = 0 then 1 else c_uid c + 1)\<rparr>"
      "H' = H\<lparr>cells := (cells H)(a \<mapsto> c)\<rparr>" by blast
  have "S' = (M', H')" "p = Some a" using assms(5) unfolding eq by simp_all
  note r = this r2
  let ?i = "hash_uid (c_uid c)"
  have uid: "c_uid c \<noteq> 0" using r(4) by simp
  have t': "client_table (M', H') (xs(?i := a # xs ?i))"
    unfolding r(6,7) by (rule table_create [OF t assms(2) uid r(5)]) simp
  have new: "ya_client_find_by_uid (M', H') (c_uid c) = returns (Some a)"
    using find_by_uid_scan [OF t' uid] r(3,7) by simp
  have old: "ya_client_find_by_uid (M', H') u = ya_client_find_by_uid (M, H) u" if "u \<noteq> c_uid c" for u
  proof (cases "u = 0")
    case False
    let ?P = "\<lambda>h b. c_uid (the (h b)) = u \<and> c_state (the (h b)) = YA_CLIENT_ACTIVE"
    have "b \<noteq> a" if "b \<in> set (xs (hash_uid u))" for b
      using table_alloc [OF t that] assms(2) by auto
    then have s: "scan (?P (cells H')) p (xs (hash_uid u)) = scan (?P (cells H)) p (xs (hash_uid u))" for p
      by (intro scan_cong) (simp add: r(7))
    have "snd (scan (?P (cells H')) None ((xs(?i := a # xs ?i)) (hash_uid u))) =
        snd (scan (?P (cells H)) None (xs (hash_uid u)))"
      using s [of None] s [of "Some a"] that r(7) scan_prev [of "?P (cells H)" "Some a" "xs (hash_uid u)" None]
      by (cases "hash_uid u = ?i") auto
    then show ?thesis
      by (simp only: find_by_uid_scan [OF t' False] find_by_uid_scan [OF t False])
  qed (simp add: ya_client_find_by_uid_def)
  show ?thesis using r(1,2,7) uid new old by auto
qed

theorem created_client_found_witness:
  "\<exists>c. Some 5 = Some (5 :: addr) \<and>
    cells (snd (fst (ya_client_create (Some 5) True 0 one_client 9 (Some 4)))) 5 = Some c \<and> c_uid c \<noteq> 0 \<and>
    ya_client_find_by_uid (fst (ya_client_create (Some 5) True 0 one_client 9 (Some 4))) (c_uid c) =
      returns (Some 5)"
proof -
  obtain M H c where o: "one_client = (M, H)" "cells H = [0 \<mapsto> c]" using one_client_eq by blast
  have 1: "ya_client_create (Some 5) True 0 (M, H) 9 (Some 4) =
      (fst (ya_client_create (Some 5) True 0 (M, H) 9 (Some 4)), Some 5)"
    by (simp add: ya_client_create_def Let_def)
  show ?thesis
    using created_client_found [OF _ _ _ _ 1] one_client_reachable o by simp blast
qed

text \<open>C3.
  Numbers are unique as long as the 32-bit counter has not been exhausted: on every run of the
  table that creates no client when the counter stands at its last value, no two allocated
  clients share a number, and every client's number is below the next one.
\<close>

theorem client_numbers_unique:
  assumes "(\<lambda>S S'. client_step S S' \<and> next_uid (fst S) \<noteq> 0xFFFFFFFF)\<^sup>*\<^sup>*
      (ya_client_manager_init, \<lparr>cells = Map.empty, bevs_freed = [], freed_reads = []\<rparr>) (M, H)"
    and "cells H a = Some c" "cells H b = Some d"
  shows "c_uid c < next_uid M \<and> (c_uid c = c_uid d \<longrightarrow> a = b)"
proof -
  have "clients_inv S \<and> uids_ok S" if "(\<lambda>S S'. client_step S S' \<and> next_uid (fst S) \<noteq> 0xFFFFFFFF)\<^sup>*\<^sup>*
      (ya_client_manager_init, \<lparr>cells = Map.empty, bevs_freed = [], freed_reads = []\<rparr>) S" for S
    using that
  proof (induction rule: rtranclp_induct)
    case base
    show ?case by (simp add: clients_inv_init uids_ok_def)
  next
    case (step S S')
    then show ?case using client_step_inv uids_ok_step by blast
  qed
  from this [OF assms(1)] assms(2,3) show ?thesis by (auto simp: uids_ok_def)
qed

theorem client_numbers_unique_witness:
  "\<exists>M H c. one_client = (M, H) \<and> cells H 0 = Some c \<and> c_uid c < next_uid M"
proof -
  obtain M H c where o: "one_client = (M, H)" "cells H = [0 \<mapsto> c]" using one_client_eq by blast
  have "(\<lambda>S S'. client_step S S' \<and> next_uid (fst S) \<noteq> 0xFFFFFFFF)\<^sup>*\<^sup>*
      (ya_client_manager_init, \<lparr>cells = Map.empty, bevs_freed = [], freed_reads = []\<rparr>) (M, H)"
    unfolding o(1) [symmetric] one_client_def
    by (rule r_into_rtranclp) (simp add: client_step.create ya_client_manager_init_def)
  from client_numbers_unique [OF this, of 0 c 0 c] o show ?thesis
    by (intro exI [of _ M] exI [of _ H] exI [of _ c]) simp
qed

text \<open>
  Removal: once the client with a number is removed, no lookup of that number succeeds, whether
  the client could be freed at once or is still referenced (numbers being unique).
\<close>

theorem removed_client_not_found:
  assumes "client_reachable (M, H)" and "uids_ok (M, H)"
    and "ya_client_remove (M, H) uid = returns S'"
  shows "ya_client_find_by_uid S' uid = returns None"
proof -
  have inv: "clients_inv (M, H)" using assms(1) by (rule reachable_inv)
  then obtain xs where t: "client_table (M, H) xs" by (auto simp: clients_inv_def)
  have inv': "clients_inv S'" using remove_inv [OF inv, of uid] assms(3) by auto
  have no: "c_state c' \<noteq> YA_CLIENT_ACTIVE" if b: "cells (snd S') b = Some c'" "c_uid c' = uid" for b c'
  proof (cases "\<exists>a c. cells H a = Some c \<and> c_uid c = uid")
    case False
    with remove_absent [OF t, of uid] assms(3) that show ?thesis by auto
  next
    case True
    from remove_present [OF t True] assms(3) obtain a c where a: "cells H a = Some c" "c_uid c = uid"
      and here: "cells (snd S') a = (if c_ref_count c = 0 then None else Some (c\<lparr>c_state := YA_CLIENT_DISCONNECTED\<rparr>))"
      and same: "\<forall>b. b \<noteq> a \<longrightarrow> map_option (\<lambda>c. c\<lparr>c_next := None\<rparr>) (cells (snd S') b) = map_option (\<lambda>c. c\<lparr>c_next := None\<rparr>) (cells H b)"
      by auto
    have "b = a"
    proof (rule ccontr)
      assume "b \<noteq> a"
      with same same_but_next [OF _ b(1)] obtain d where "cells H b = Some d" "c_uid d = uid" using b(2) by blast
      with a assms(2) \<open>b \<noteq> a\<close> show False by (auto simp: uids_ok_def)
    qed
    with here b show ?thesis by (auto split: if_splits)
  qed
  from client_manager.find_law [OF inv', of uid] obtain r where
    r: "ya_client_find_by_uid S' uid = returns r"
      "\<forall>a. r = Some a \<longrightarrow> (\<exists>c. cells (snd S') a = Some c \<and> c_uid c = uid \<and> c_state c = YA_CLIENT_ACTIVE)"
    by blast
  with no show ?thesis by (cases r) auto
qed

lemma one_client_uids_ok: "uids_ok one_client"
proof -
  obtain M H c where o: "one_client = (M, H)" "cells H = [0 \<mapsto> c]" "c_uid c = 1" "next_uid M = 2"
    using one_client_eq by blast
  then show ?thesis unfolding o(1) by (auto simp: uids_ok_def split: if_splits)
qed

theorem removed_client_not_found_witness:
  "\<exists>S'. ya_client_remove one_client 1 = returns S' \<and> ya_client_find_by_uid S' 1 = returns None"
proof -
  obtain M H where o: "one_client = (M, H)" by (cases one_client)
  from remove_inv [of M H 1] reachable_inv one_client_reachable obtain S'
    where "ya_client_remove one_client 1 = returns S'" unfolding o by blast
  with removed_client_not_found [of M H 1 S'] one_client_reachable one_client_uids_ok show ?thesis
    unfolding o by blast
qed

text \<open>
  Dropping the last reference to a removed client unlinks and frees exactly that client and its
  bufferevent; every other client is unchanged but for its link.  The trace message that follows
  reads the number of the freed client: a use after free.
\<close>

theorem last_reference_frees:
  assumes "client_reachable (M, H)" and "cells H a = Some c"
    and "c_ref_count c = 1" "c_state c = YA_CLIENT_DISCONNECTED"
  shows "\<exists>M' H'. ya_client_unref (M, H) (Some a) = returns (M', H') \<and> cells H' a = None \<and>
    (\<forall>b. b \<noteq> a \<longrightarrow> map_option (\<lambda>c. c\<lparr>c_next := None\<rparr>) (cells H' b) =
                  map_option (\<lambda>c. c\<lparr>c_next := None\<rparr>) (cells H b)) \<and>
    bevs_freed H' = bevs_freed H @ (case c_bev c of None \<Rightarrow> [] | Some b \<Rightarrow> [b]) \<and>
    freed_reads H' = freed_reads H @ [a]"
proof -
  obtain xs where "client_table (M, H) xs" using reachable_inv [OF assms(1)] by (auto simp: clients_inv_def)
  from unref_free [OF this assms(2-4)] show ?thesis by blast
qed

theorem last_reference_frees_witness:
  "\<exists>M H c M' H'. ya_client_remove one_client 1 = returns (M, H) \<and> cells H 0 = Some c \<and>
     ya_client_unref (M, H) (Some 0) = returns (M', H') \<and> cells H' 0 = None \<and> freed_reads H' = freed_reads H @ [0]"
proof -
  obtain M H c where o: "one_client = (M, H)" "cells H = [0 \<mapsto> c]" "c_uid c = 1" "c_ref_count c = 1"
    using one_client_eq by blast
  have inv: "clients_inv (M, H)" using reachable_inv [OF one_client_reachable] o by simp
  then obtain xs where t: "client_table (M, H) xs" by (auto simp: clients_inv_def)
  from remove_present [OF t, of 1] o obtain M' H' where
    r: "ya_client_remove (M, H) 1 = returns (M', H')" "cells H' 0 = Some (c\<lparr>c_state := YA_CLIENT_DISCONNECTED\<rparr>)"
    by (fastforce split: if_splits)
  have "client_reachable (M', H')"
    using client_reachable.step [OF one_client_reachable] client_step.remove [OF r(1)] o(1) by simp
  from last_reference_frees [OF this r(2)] o(1,4) r show ?thesis by auto
qed

end
