(* ===== verification/Keys.thy ===== *)
theory Keys
  imports Prelude
begin

text \<open>
  Keys: the enumeration \<open>CKey\<close> of \<open>rs/src/c.rs\<close> (a C enumeration, so an integer here), the
  protocol codes of function keys (\<open>keycode_map.c\<close>), the Linux key codes of \<open>CKey\<close>s and the keys
  the virtual device enables (tables of \<open>linux_uinput.c\<close>).

  The \<open>KEY_\<close> and \<open>BTN_\<close> numbers are those of the kernel's \<open>linux/input-event-codes.h\<close>.
\<close>

type_synonym CKey = int

abbreviation (input) CK_Function :: CKey where "CK_Function \<equiv> 123"

section \<open>Enumerators of CKey that the server names\<close>

abbreviation (input) CK_Num0 :: CKey where "CK_Num0 \<equiv> 0"
abbreviation (input) CK_Num1 :: CKey where "CK_Num1 \<equiv> 1"
abbreviation (input) CK_Num2 :: CKey where "CK_Num2 \<equiv> 2"
abbreviation (input) CK_Num3 :: CKey where "CK_Num3 \<equiv> 3"
abbreviation (input) CK_Num4 :: CKey where "CK_Num4 \<equiv> 4"
abbreviation (input) CK_Num5 :: CKey where "CK_Num5 \<equiv> 5"
abbreviation (input) CK_Num6 :: CKey where "CK_Num6 \<equiv> 6"
abbreviation (input) CK_Num7 :: CKey where "CK_Num7 \<equiv> 7"
abbreviation (input) CK_Num8 :: CKey where "CK_Num8 \<equiv> 8"
abbreviation (input) CK_Num9 :: CKey where "CK_Num9 \<equiv> 9"
abbreviation (input) CK_A :: CKey where "CK_A \<equiv> 10"
abbreviation (input) CK_B :: CKey where "CK_B \<equiv> 11"
abbreviation (input) CK_C :: CKey where "CK_C \<equiv> 12"
abbreviation (input) CK_D :: CKey where "CK_D \<equiv> 13"
abbreviation (input) CK_E :: CKey where "CK_E \<equiv> 14"
abbreviation (input) CK_F :: CKey where "CK_F \<equiv> 15"
abbreviation (input) CK_G :: CKey where "CK_G \<equiv> 16"
abbreviation (input) CK_H :: CKey where "CK_H \<equiv> 17"
abbreviation (input) CK_I :: CKey where "CK_I \<equiv> 18"
abbreviation (input) CK_J :: CKey where "CK_J \<equiv> 19"
abbreviation (input) CK_K :: CKey where "CK_K \<equiv> 20"
abbreviation (input) CK_L :: CKey where "CK_L \<equiv> 21"
abbreviation (input) CK_M :: CKey where "CK_M \<equiv> 22"
abbreviation (input) CK_N :: CKey where "CK_N \<equiv> 23"
abbreviation (input) CK_O :: CKey where "CK_O \<equiv> 24"
abbreviation (input) CK_P :: CKey where "CK_P \<equiv> 25"
abbreviation (input) CK_Q :: CKey where "CK_Q \<equiv> 26"
abbreviation (input) CK_R :: CKey where "CK_R \<equiv> 27"
abbreviation (input) CK_S :: CKey where "CK_S \<equiv> 28"
abbreviation (input) CK_T :: CKey where "CK_T \<equiv> 29"
abbreviation (input) CK_U :: CKey where "CK_U \<equiv> 30"
abbreviation (input) CK_V :: CKey where "CK_V \<equiv> 31"
abbreviation (input) CK_W :: CKey where "CK_W \<equiv> 32"
abbreviation (input) CK_X :: CKey where "CK_X \<equiv> 33"
abbreviation (input) CK_Y :: CKey where "CK_Y \<equiv> 34"
abbreviation (input) CK_Z :: CKey where "CK_Z \<equiv> 35"
abbreviation (input) CK_Add :: CKey where "CK_Add \<equiv> 39"
abbreviation (input) CK_Alt :: CKey where "CK_Alt \<equiv> 40"
abbreviation (input) CK_Apps :: CKey where "CK_Apps \<equiv> 41"
abbreviation (input) CK_Backspace :: CKey where "CK_Backspace \<equiv> 43"
abbreviation (input) CK_Break :: CKey where "CK_Break \<equiv> 44"
abbreviation (input) CK_BrightnessDown :: CKey where "CK_BrightnessDown \<equiv> 46"
abbreviation (input) CK_BrightnessUp :: CKey where "CK_BrightnessUp \<equiv> 47"
abbreviation (input) CK_BrowserBack :: CKey where "CK_BrowserBack \<equiv> 48"
abbreviation (input) CK_BrowserFavorites :: CKey where "CK_BrowserFavorites \<equiv> 49"
abbreviation (input) CK_BrowserForward :: CKey where "CK_BrowserForward \<equiv> 50"
abbreviation (input) CK_BrowserHome :: CKey where "CK_BrowserHome \<equiv> 51"
abbreviation (input) CK_BrowserRefresh :: CKey where "CK_BrowserRefresh \<equiv> 52"
abbreviation (input) CK_BrowserSearch :: CKey where "CK_BrowserSearch \<equiv> 53"
abbreviation (input) CK_BrowserStop :: CKey where "CK_BrowserStop \<equiv> 54"
abbreviation (input) CK_CapsLock :: CKey where "CK_CapsLock \<equiv> 56"
abbreviation (input) CK_Command :: CKey where "CK_Command \<equiv> 58"
abbreviation (input) CK_Control :: CKey where "CK_Control \<equiv> 61"
abbreviation (input) CK_Convert :: CKey where "CK_Convert \<equiv> 62"
abbreviation (input) CK_Decimal :: CKey where "CK_Decimal \<equiv> 78"
abbreviation (input) CK_Delete :: CKey where "CK_Delete \<equiv> 79"
abbreviation (input) CK_Divide :: CKey where "CK_Divide \<equiv> 80"
abbreviation (input) CK_DownArrow :: CKey where "CK_DownArrow \<equiv> 81"
abbreviation (input) CK_Eject :: CKey where "CK_Eject \<equiv> 82"
abbreviation (input) CK_End :: CKey where "CK_End \<equiv> 83"
abbreviation (input) CK_Escape_k :: CKey where "CK_Escape_k \<equiv> 85"
abbreviation (input) CK_Execute :: CKey where "CK_Execute \<equiv> 86"
abbreviation (input) CK_F1 :: CKey where "CK_F1 \<equiv> 88"
abbreviation (input) CK_F2 :: CKey where "CK_F2 \<equiv> 89"
abbreviation (input) CK_F3 :: CKey where "CK_F3 \<equiv> 90"
abbreviation (input) CK_F4 :: CKey where "CK_F4 \<equiv> 91"
abbreviation (input) CK_F5 :: CKey where "CK_F5 \<equiv> 92"
abbreviation (input) CK_F6 :: CKey where "CK_F6 \<equiv> 93"
abbreviation (input) CK_F7 :: CKey where "CK_F7 \<equiv> 94"
abbreviation (input) CK_F8 :: CKey where "CK_F8 \<equiv> 95"
abbreviation (input) CK_F9 :: CKey where "CK_F9 \<equiv> 96"
abbreviation (input) CK_F10 :: CKey where "CK_F10 \<equiv> 97"
abbreviation (input) CK_F11 :: CKey where "CK_F11 \<equiv> 98"
abbreviation (input) CK_F12 :: CKey where "CK_F12 \<equiv> 99"
abbreviation (input) CK_F13 :: CKey where "CK_F13 \<equiv> 100"
abbreviation (input) CK_F14 :: CKey where "CK_F14 \<equiv> 101"
abbreviation (input) CK_F15 :: CKey where "CK_F15 \<equiv> 102"
abbreviation (input) CK_F16 :: CKey where "CK_F16 \<equiv> 103"
abbreviation (input) CK_F17 :: CKey where "CK_F17 \<equiv> 104"
abbreviation (input) CK_F18 :: CKey where "CK_F18 \<equiv> 105"
abbreviation (input) CK_F19 :: CKey where "CK_F19 \<equiv> 106"
abbreviation (input) CK_F20 :: CKey where "CK_F20 \<equiv> 107"
abbreviation (input) CK_F21 :: CKey where "CK_F21 \<equiv> 108"
abbreviation (input) CK_F22 :: CKey where "CK_F22 \<equiv> 109"
abbreviation (input) CK_F23 :: CKey where "CK_F23 \<equiv> 110"
abbreviation (input) CK_F24 :: CKey where "CK_F24 \<equiv> 111"
abbreviation (input) CK_Find :: CKey where "CK_Find \<equiv> 125"
abbreviation (input) CK_Hangeul :: CKey where "CK_Hangeul \<equiv> 150"
abbreviation (input) CK_Hangul :: CKey where "CK_Hangul \<equiv> 151"
abbreviation (input) CK_Hanja :: CKey where "CK_Hanja \<equiv> 152"
abbreviation (input) CK_Help :: CKey where "CK_Help \<equiv> 153"
abbreviation (input) CK_Home :: CKey where "CK_Home \<equiv> 154"
abbreviation (input) CK_Insert :: CKey where "CK_Insert \<equiv> 163"
abbreviation (input) CK_Kana :: CKey where "CK_Kana \<equiv> 165"
abbreviation (input) CK_Kanji :: CKey where "CK_Kanji \<equiv> 166"
abbreviation (input) CK_LaunchApp1 :: CKey where "CK_LaunchApp1 \<equiv> 167"
abbreviation (input) CK_LaunchApp2 :: CKey where "CK_LaunchApp2 \<equiv> 168"
abbreviation (input) CK_LaunchMail :: CKey where "CK_LaunchMail \<equiv> 169"
abbreviation (input) CK_LaunchMediaSelect :: CKey where "CK_LaunchMediaSelect \<equiv> 170"
abbreviation (input) CK_LControl :: CKey where "CK_LControl \<equiv> 174"
abbreviation (input) CK_LeftArrow :: CKey where "CK_LeftArrow \<equiv> 175"
abbreviation (input) CK_LMenu :: CKey where "CK_LMenu \<equiv> 177"
abbreviation (input) CK_LShift :: CKey where "CK_LShift \<equiv> 178"
abbreviation (input) CK_LWin :: CKey where "CK_LWin \<equiv> 179"
abbreviation (input) CK_MediaFast :: CKey where "CK_MediaFast \<equiv> 181"
abbreviation (input) CK_MediaNextTrack :: CKey where "CK_MediaNextTrack \<equiv> 182"
abbreviation (input) CK_MediaPlayPause :: CKey where "CK_MediaPlayPause \<equiv> 183"
abbreviation (input) CK_MediaPrevTrack :: CKey where "CK_MediaPrevTrack \<equiv> 184"
abbreviation (input) CK_MediaRewind :: CKey where "CK_MediaRewind \<equiv> 185"
abbreviation (input) CK_MediaStop :: CKey where "CK_MediaStop \<equiv> 186"
abbreviation (input) CK_Meta :: CKey where "CK_Meta \<equiv> 187"
abbreviation (input) CK_Multiply :: CKey where "CK_Multiply \<equiv> 190"
abbreviation (input) CK_NonConvert :: CKey where "CK_NonConvert \<equiv> 200"
abbreviation (input) CK_Numlock :: CKey where "CK_Numlock \<equiv> 202"
abbreviation (input) CK_Numpad0 :: CKey where "CK_Numpad0 \<equiv> 203"
abbreviation (input) CK_Numpad1 :: CKey where "CK_Numpad1 \<equiv> 204"
abbreviation (input) CK_Numpad2 :: CKey where "CK_Numpad2 \<equiv> 205"
abbreviation (input) CK_Numpad3 :: CKey where "CK_Numpad3 \<equiv> 206"
abbreviation (input) CK_Numpad4 :: CKey where "CK_Numpad4 \<equiv> 207"
abbreviation (input) CK_Numpad5 :: CKey where "CK_Numpad5 \<equiv> 208"
abbreviation (input) CK_Numpad6 :: CKey where "CK_Numpad6 \<equiv> 209"
abbreviation (input) CK_Numpad7 :: CKey where "CK_Numpad7 \<equiv> 210"
abbreviation (input) CK_Numpad8 :: CKey where "CK_Numpad8 \<equiv> 211"
abbreviation (input) CK_Numpad9 :: CKey where "CK_Numpad9 \<equiv> 212"
abbreviation (input) CK_OEM1 :: CKey where "CK_OEM1 \<equiv> 213"
abbreviation (input) CK_OEM2 :: CKey where "CK_OEM2 \<equiv> 215"
abbreviation (input) CK_OEM3 :: CKey where "CK_OEM3 \<equiv> 216"
abbreviation (input) CK_OEM4 :: CKey where "CK_OEM4 \<equiv> 217"
abbreviation (input) CK_OEM5 :: CKey where "CK_OEM5 \<equiv> 218"
abbreviation (input) CK_OEM6 :: CKey where "CK_OEM6 \<equiv> 219"
abbreviation (input) CK_OEM7 :: CKey where "CK_OEM7 \<equiv> 220"
abbreviation (input) CK_OEMComma :: CKey where "CK_OEMComma \<equiv> 227"
abbreviation (input) CK_OEMMinus :: CKey where "CK_OEMMinus \<equiv> 238"
abbreviation (input) CK_OEMPeriod :: CKey where "CK_OEMPeriod \<equiv> 243"
abbreviation (input) CK_OEMPlus :: CKey where "CK_OEMPlus \<equiv> 244"
abbreviation (input) CK_Option :: CKey where "CK_Option \<equiv> 247"
abbreviation (input) CK_PageDown :: CKey where "CK_PageDown \<equiv> 250"
abbreviation (input) CK_PageUp :: CKey where "CK_PageUp \<equiv> 251"
abbreviation (input) CK_Pause :: CKey where "CK_Pause \<equiv> 252"
abbreviation (input) CK_Power :: CKey where "CK_Power \<equiv> 254"
abbreviation (input) CK_PrintScr :: CKey where "CK_PrintScr \<equiv> 255"
abbreviation (input) CK_RCommand :: CKey where "CK_RCommand \<equiv> 258"
abbreviation (input) CK_RControl :: CKey where "CK_RControl \<equiv> 259"
abbreviation (input) CK_Redo :: CKey where "CK_Redo \<equiv> 260"
abbreviation (input) CK_Return :: CKey where "CK_Return \<equiv> 261"
abbreviation (input) CK_RightArrow :: CKey where "CK_RightArrow \<equiv> 262"
abbreviation (input) CK_RMenu :: CKey where "CK_RMenu \<equiv> 263"
abbreviation (input) CK_ROption :: CKey where "CK_ROption \<equiv> 264"
abbreviation (input) CK_RShift :: CKey where "CK_RShift \<equiv> 265"
abbreviation (input) CK_RWin :: CKey where "CK_RWin \<equiv> 266"
abbreviation (input) CK_Scroll :: CKey where "CK_Scroll \<equiv> 267"
abbreviation (input) CK_ScrollLock :: CKey where "CK_ScrollLock \<equiv> 268"
abbreviation (input) CK_Select :: CKey where "CK_Select \<equiv> 269"
abbreviation (input) CK_Separator :: CKey where "CK_Separator \<equiv> 271"
abbreviation (input) CK_Shift :: CKey where "CK_Shift \<equiv> 272"
abbreviation (input) CK_Sleep_k :: CKey where "CK_Sleep_k \<equiv> 274"
abbreviation (input) CK_Space :: CKey where "CK_Space \<equiv> 275"
abbreviation (input) CK_Subtract :: CKey where "CK_Subtract \<equiv> 276"
abbreviation (input) CK_Tab :: CKey where "CK_Tab \<equiv> 277"
abbreviation (input) CK_Undo :: CKey where "CK_Undo \<equiv> 278"
abbreviation (input) CK_UpArrow :: CKey where "CK_UpArrow \<equiv> 279"
abbreviation (input) CK_VolumeDown :: CKey where "CK_VolumeDown \<equiv> 281"
abbreviation (input) CK_VolumeMute :: CKey where "CK_VolumeMute \<equiv> 282"
abbreviation (input) CK_VolumeUp :: CKey where "CK_VolumeUp \<equiv> 283"
abbreviation (input) CK_MicMute :: CKey where "CK_MicMute \<equiv> 284"
abbreviation (input) CK_Zoom :: CKey where "CK_Zoom \<equiv> 287"

text \<open>The number of enumerators.\<close>

definition CKey_count :: nat where
  "CKey_count = 288"

section \<open>Linux key codes\<close>

abbreviation (input) KEY_ESC :: int where "KEY_ESC \<equiv> 1"
abbreviation (input) KEY_1 :: int where "KEY_1 \<equiv> 2"
abbreviation (input) KEY_2 :: int where "KEY_2 \<equiv> 3"
abbreviation (input) KEY_3 :: int where "KEY_3 \<equiv> 4"
abbreviation (input) KEY_4 :: int where "KEY_4 \<equiv> 5"
abbreviation (input) KEY_5 :: int where "KEY_5 \<equiv> 6"
abbreviation (input) KEY_6 :: int where "KEY_6 \<equiv> 7"
abbreviation (input) KEY_7 :: int where "KEY_7 \<equiv> 8"
abbreviation (input) KEY_8 :: int where "KEY_8 \<equiv> 9"
abbreviation (input) KEY_9 :: int where "KEY_9 \<equiv> 10"
abbreviation (input) KEY_0 :: int where "KEY_0 \<equiv> 11"
abbreviation (input) KEY_MINUS :: int where "KEY_MINUS \<equiv> 12"
abbreviation (input) KEY_EQUAL :: int where "KEY_EQUAL \<equiv> 13"
abbreviation (input) KEY_BACKSPACE :: int where "KEY_BACKSPACE \<equiv> 14"
abbreviation (input) KEY_TAB :: int where "KEY_TAB \<equiv> 15"
abbreviation (input) KEY_Q :: int where "KEY_Q \<equiv> 16"
abbreviation (input) KEY_W :: int where "KEY_W \<equiv> 17"
abbreviation (input) KEY_E :: int where "KEY_E \<equiv> 18"
abbreviation (input) KEY_R :: int where "KEY_R \<equiv> 19"
abbreviation (input) KEY_T :: int where "KEY_T \<equiv> 20"
abbreviation (input) KEY_Y :: int where "KEY_Y \<equiv> 21"
abbreviation (input) KEY_U :: int where "KEY_U \<equiv> 22"
abbreviation (input) KEY_I :: int where "KEY_I \<equiv> 23"
abbreviation (input) KEY_O :: int where "KEY_O \<equiv> 24"
abbreviation (input) KEY_P :: int where "KEY_P \<equiv> 25"
abbreviation (input) KEY_LEFTBRACE :: int where "KEY_LEFTBRACE \<equiv> 26"
abbreviation (input) KEY_RIGHTBRACE :: int where "KEY_RIGHTBRACE \<equiv> 27"
abbreviation (input) KEY_ENTER :: int where "KEY_ENTER \<equiv> 28"
abbreviation (input) KEY_LEFTCTRL :: int where "KEY_LEFTCTRL \<equiv> 29"
abbreviation (input) KEY_A :: int where "KEY_A \<equiv> 30"
abbreviation (input) KEY_S :: int where "KEY_S \<equiv> 31"
abbreviation (input) KEY_D :: int where "KEY_D \<equiv> 32"
abbreviation (input) KEY_F :: int where "KEY_F \<equiv> 33"
abbreviation (input) KEY_G :: int where "KEY_G \<equiv> 34"
abbreviation (input) KEY_H :: int where "KEY_H \<equiv> 35"
abbreviation (input) KEY_J :: int where "KEY_J \<equiv> 36"
abbreviation (input) KEY_K :: int where "KEY_K \<equiv> 37"
abbreviation (input) KEY_L :: int where "KEY_L \<equiv> 38"
abbreviation (input) KEY_SEMICOLON :: int where "KEY_SEMICOLON \<equiv> 39"
abbreviation (input) KEY_APOSTROPHE :: int where "KEY_APOSTROPHE \<equiv> 40"
abbreviation (input) KEY_GRAVE :: int where "KEY_GRAVE \<equiv> 41"
abbreviation (input) KEY_LEFTSHIFT :: int where "KEY_LEFTSHIFT \<equiv> 42"
abbreviation (input) KEY_BACKSLASH :: int where "KEY_BACKSLASH \<equiv> 43"
abbreviation (input) KEY_Z :: int where "KEY_Z \<equiv> 44"
abbreviation (input) KEY_X :: int where "KEY_X \<equiv> 45"
abbreviation (input) KEY_C :: int where "KEY_C \<equiv> 46"
abbreviation (input) KEY_V :: int where "KEY_V \<equiv> 47"
abbreviation (input) KEY_B :: int where "KEY_B \<equiv> 48"
abbreviation (input) KEY_N :: int where "KEY_N \<equiv> 49"
abbreviation (input) KEY_M :: int where "KEY_M \<equiv> 50"
abbreviation (input) KEY_COMMA :: int where "KEY_COMMA \<equiv> 51"
abbreviation (input) KEY_DOT :: int where "KEY_DOT \<equiv> 52"
abbreviation (input) KEY_SLASH :: int where "KEY_SLASH \<equiv> 53"
abbreviation (input) KEY_RIGHTSHIFT :: int where "KEY_RIGHTSHIFT \<equiv> 54"
abbreviation (input) KEY_KPASTERISK :: int where "KEY_KPASTERISK \<equiv> 55"
abbreviation (input) KEY_LEFTALT :: int where "KEY_LEFTALT \<equiv> 56"
abbreviation (input) KEY_SPACE :: int where "KEY_SPACE \<equiv> 57"
abbreviation (input) KEY_CAPSLOCK :: int where "KEY_CAPSLOCK \<equiv> 58"
abbreviation (input) KEY_F1 :: int where "KEY_F1 \<equiv> 59"
abbreviation (input) KEY_F2 :: int where "KEY_F2 \<equiv> 60"
abbreviation (input) KEY_F3 :: int where "KEY_F3 \<equiv> 61"
abbreviation (input) KEY_F4 :: int where "KEY_F4 \<equiv> 62"
abbreviation (input) KEY_F5 :: int where "KEY_F5 \<equiv> 63"
abbreviation (input) KEY_F6 :: int where "KEY_F6 \<equiv> 64"
abbreviation (input) KEY_F7 :: int where "KEY_F7 \<equiv> 65"
abbreviation (input) KEY_F8 :: int where "KEY_F8 \<equiv> 66"
abbreviation (input) KEY_F9 :: int where "KEY_F9 \<equiv> 67"
abbreviation (input) KEY_F10 :: int where "KEY_F10 \<equiv> 68"
abbreviation (input) KEY_NUMLOCK :: int where "KEY_NUMLOCK \<equiv> 69"
abbreviation (input) KEY_SCROLLLOCK :: int where "KEY_SCROLLLOCK \<equiv> 70"
abbreviation (input) KEY_KP7 :: int where "KEY_KP7 \<equiv> 71"
abbreviation (input) KEY_KP8 :: int where "KEY_KP8 \<equiv> 72"
abbreviation (input) KEY_KP9 :: int where "KEY_KP9 \<equiv> 73"
abbreviation (input) KEY_KPMINUS :: int where "KEY_KPMINUS \<equiv> 74"
abbreviation (input) KEY_KP4 :: int where "KEY_KP4 \<equiv> 75"
abbreviation (input) KEY_KP5 :: int where "KEY_KP5 \<equiv> 76"
abbreviation (input) KEY_KP6 :: int where "KEY_KP6 \<equiv> 77"
abbreviation (input) KEY_KPPLUS :: int where "KEY_KPPLUS \<equiv> 78"
abbreviation (input) KEY_KP1 :: int where "KEY_KP1 \<equiv> 79"
abbreviation (input) KEY_KP2 :: int where "KEY_KP2 \<equiv> 80"
abbreviation (input) KEY_KP3 :: int where "KEY_KP3 \<equiv> 81"
abbreviation (input) KEY_KP0 :: int where "KEY_KP0 \<equiv> 82"
abbreviation (input) KEY_KPDOT :: int where "KEY_KPDOT \<equiv> 83"
abbreviation (input) KEY_F11 :: int where "KEY_F11 \<equiv> 87"
abbreviation (input) KEY_F12 :: int where "KEY_F12 \<equiv> 88"
abbreviation (input) KEY_KATAKANA :: int where "KEY_KATAKANA \<equiv> 90"
abbreviation (input) KEY_HENKAN :: int where "KEY_HENKAN \<equiv> 92"
abbreviation (input) KEY_MUHENKAN :: int where "KEY_MUHENKAN \<equiv> 94"
abbreviation (input) KEY_KPENTER :: int where "KEY_KPENTER \<equiv> 96"
abbreviation (input) KEY_RIGHTCTRL :: int where "KEY_RIGHTCTRL \<equiv> 97"
abbreviation (input) KEY_KPSLASH :: int where "KEY_KPSLASH \<equiv> 98"
abbreviation (input) KEY_SYSRQ :: int where "KEY_SYSRQ \<equiv> 99"
abbreviation (input) KEY_RIGHTALT :: int where "KEY_RIGHTALT \<equiv> 100"
abbreviation (input) KEY_HOME :: int where "KEY_HOME \<equiv> 102"
abbreviation (input) KEY_UP :: int where "KEY_UP \<equiv> 103"
abbreviation (input) KEY_PAGEUP :: int where "KEY_PAGEUP \<equiv> 104"
abbreviation (input) KEY_LEFT :: int where "KEY_LEFT \<equiv> 105"
abbreviation (input) KEY_RIGHT :: int where "KEY_RIGHT \<equiv> 106"
abbreviation (input) KEY_END :: int where "KEY_END \<equiv> 107"
abbreviation (input) KEY_DOWN :: int where "KEY_DOWN \<equiv> 108"
abbreviation (input) KEY_PAGEDOWN :: int where "KEY_PAGEDOWN \<equiv> 109"
abbreviation (input) KEY_INSERT :: int where "KEY_INSERT \<equiv> 110"
abbreviation (input) KEY_DELETE :: int where "KEY_DELETE \<equiv> 111"
abbreviation (input) KEY_MUTE :: int where "KEY_MUTE \<equiv> 113"
abbreviation (input) KEY_VOLUMEDOWN :: int where "KEY_VOLUMEDOWN \<equiv> 114"
abbreviation (input) KEY_VOLUMEUP :: int where "KEY_VOLUMEUP \<equiv> 115"
abbreviation (input) KEY_POWER :: int where "KEY_POWER \<equiv> 116"
abbreviation (input) KEY_PAUSE :: int where "KEY_PAUSE \<equiv> 119"
abbreviation (input) KEY_KPCOMMA :: int where "KEY_KPCOMMA \<equiv> 121"
abbreviation (input) KEY_HANGEUL :: int where "KEY_HANGEUL \<equiv> 122"
abbreviation (input) KEY_HANJA :: int where "KEY_HANJA \<equiv> 123"
abbreviation (input) KEY_LEFTMETA :: int where "KEY_LEFTMETA \<equiv> 125"
abbreviation (input) KEY_RIGHTMETA :: int where "KEY_RIGHTMETA \<equiv> 126"
abbreviation (input) KEY_COMPOSE :: int where "KEY_COMPOSE \<equiv> 127"
abbreviation (input) KEY_STOP :: int where "KEY_STOP \<equiv> 128"
abbreviation (input) KEY_UNDO :: int where "KEY_UNDO \<equiv> 131"
abbreviation (input) KEY_OPEN :: int where "KEY_OPEN \<equiv> 134"
abbreviation (input) KEY_FIND :: int where "KEY_FIND \<equiv> 136"
abbreviation (input) KEY_HELP :: int where "KEY_HELP \<equiv> 138"
abbreviation (input) KEY_CALC :: int where "KEY_CALC \<equiv> 140"
abbreviation (input) KEY_SLEEP :: int where "KEY_SLEEP \<equiv> 142"
abbreviation (input) KEY_WAKEUP :: int where "KEY_WAKEUP \<equiv> 143"
abbreviation (input) KEY_PROG1 :: int where "KEY_PROG1 \<equiv> 148"
abbreviation (input) KEY_PROG2 :: int where "KEY_PROG2 \<equiv> 149"
abbreviation (input) KEY_MAIL :: int where "KEY_MAIL \<equiv> 155"
abbreviation (input) KEY_BOOKMARKS :: int where "KEY_BOOKMARKS \<equiv> 156"
abbreviation (input) KEY_COMPUTER :: int where "KEY_COMPUTER \<equiv> 157"
abbreviation (input) KEY_BACK :: int where "KEY_BACK \<equiv> 158"
abbreviation (input) KEY_FORWARD :: int where "KEY_FORWARD \<equiv> 159"
abbreviation (input) KEY_EJECTCD :: int where "KEY_EJECTCD \<equiv> 161"
abbreviation (input) KEY_NEXTSONG :: int where "KEY_NEXTSONG \<equiv> 163"
abbreviation (input) KEY_PLAYPAUSE :: int where "KEY_PLAYPAUSE \<equiv> 164"
abbreviation (input) KEY_PREVIOUSSONG :: int where "KEY_PREVIOUSSONG \<equiv> 165"
abbreviation (input) KEY_STOPCD :: int where "KEY_STOPCD \<equiv> 166"
abbreviation (input) KEY_RECORD :: int where "KEY_RECORD \<equiv> 167"
abbreviation (input) KEY_REWIND :: int where "KEY_REWIND \<equiv> 168"
abbreviation (input) KEY_HOMEPAGE :: int where "KEY_HOMEPAGE \<equiv> 172"
abbreviation (input) KEY_REFRESH :: int where "KEY_REFRESH \<equiv> 173"
abbreviation (input) KEY_SCROLLUP :: int where "KEY_SCROLLUP \<equiv> 177"
abbreviation (input) KEY_SCROLLDOWN :: int where "KEY_SCROLLDOWN \<equiv> 178"
abbreviation (input) KEY_KPLEFTPAREN :: int where "KEY_KPLEFTPAREN \<equiv> 179"
abbreviation (input) KEY_KPRIGHTPAREN :: int where "KEY_KPRIGHTPAREN \<equiv> 180"
abbreviation (input) KEY_REDO :: int where "KEY_REDO \<equiv> 182"
abbreviation (input) KEY_F13 :: int where "KEY_F13 \<equiv> 183"
abbreviation (input) KEY_F14 :: int where "KEY_F14 \<equiv> 184"
abbreviation (input) KEY_F15 :: int where "KEY_F15 \<equiv> 185"
abbreviation (input) KEY_F16 :: int where "KEY_F16 \<equiv> 186"
abbreviation (input) KEY_F17 :: int where "KEY_F17 \<equiv> 187"
abbreviation (input) KEY_F18 :: int where "KEY_F18 \<equiv> 188"
abbreviation (input) KEY_F19 :: int where "KEY_F19 \<equiv> 189"
abbreviation (input) KEY_F20 :: int where "KEY_F20 \<equiv> 190"
abbreviation (input) KEY_F21 :: int where "KEY_F21 \<equiv> 191"
abbreviation (input) KEY_F22 :: int where "KEY_F22 \<equiv> 192"
abbreviation (input) KEY_F23 :: int where "KEY_F23 \<equiv> 193"
abbreviation (input) KEY_F24 :: int where "KEY_F24 \<equiv> 194"
abbreviation (input) KEY_FASTFORWARD :: int where "KEY_FASTFORWARD \<equiv> 208"
abbreviation (input) KEY_PRINT :: int where "KEY_PRINT \<equiv> 210"
abbreviation (input) KEY_SEARCH :: int where "KEY_SEARCH \<equiv> 217"
abbreviation (input) KEY_BRIGHTNESSDOWN :: int where "KEY_BRIGHTNESSDOWN \<equiv> 224"
abbreviation (input) KEY_BRIGHTNESSUP :: int where "KEY_BRIGHTNESSUP \<equiv> 225"
abbreviation (input) KEY_MEDIA :: int where "KEY_MEDIA \<equiv> 226"
abbreviation (input) KEY_DISPLAY_OFF :: int where "KEY_DISPLAY_OFF \<equiv> 245"
abbreviation (input) KEY_MICMUTE :: int where "KEY_MICMUTE \<equiv> 248"
abbreviation (input) KEY_SELECT :: int where "KEY_SELECT \<equiv> 353"
abbreviation (input) KEY_ZOOM :: int where "KEY_ZOOM \<equiv> 372"
abbreviation (input) KEY_BREAK :: int where "KEY_BREAK \<equiv> 411"
abbreviation (input) BTN_LEFT :: int where "BTN_LEFT \<equiv> 272"
abbreviation (input) BTN_RIGHT :: int where "BTN_RIGHT \<equiv> 273"
abbreviation (input) BTN_MIDDLE :: int where "BTN_MIDDLE \<equiv> 274"

section \<open>Protocol codes to CKey\<close>

text \<open>The entries of the switches of \<open>map_ya_to_ckey\<close>, by protocol code.\<close>

definition ya_key_table :: "(int \<times> CKey) list" where
  "ya_key_table = [
    (0xE200, CK_Shift), (0xE201, CK_Control), (0xE202, CK_Alt), (0xE203, CK_Meta),
    (0xE204, CK_Apps), (0xE210, CK_LShift), (0xE211, CK_RShift), (0xE212, CK_LControl),
    (0xE213, CK_RControl), (0xE214, CK_LMenu), (0xE215, CK_RMenu), (0xE220, CK_Backspace),
    (0xE221, CK_Tab), (0xE222, CK_Return), (0xE223, CK_Escape_k), (0xE224, CK_Insert),
    (0xE225, CK_Delete), (0xE230, CK_Home), (0xE231, CK_End), (0xE232, CK_PageUp),
    (0xE233, CK_PageDown), (0xE234, CK_LeftArrow), (0xE235, CK_UpArrow),
    (0xE236, CK_RightArrow), (0xE237, CK_DownArrow), (0xE240, CK_CapsLock),
    (0xE241, CK_Numlock), (0xE242, CK_ScrollLock), (0xE243, CK_PrintScr), (0xE244, CK_Pause),
    (0xE40A, CK_Multiply), (0xE40B, CK_Add), (0xE40C, CK_Separator), (0xE40D, CK_Subtract),
    (0xE40E, CK_Decimal), (0xE40F, CK_Divide), (0xE260, CK_BrowserBack),
    (0xE261, CK_BrowserForward), (0xE262, CK_BrowserRefresh), (0xE263, CK_BrowserStop),
    (0xE264, CK_BrowserSearch), (0xE265, CK_BrowserFavorites), (0xE266, CK_BrowserHome),
    (0xE270, CK_MediaNextTrack), (0xE271, CK_MediaPrevTrack), (0xE272, CK_MediaStop),
    (0xE273, CK_MediaPlayPause), (0xE274, CK_VolumeMute), (0xE275, CK_VolumeDown),
    (0xE276, CK_VolumeUp), (0xE280, CK_LaunchMail), (0xE281, CK_LaunchMediaSelect),
    (0xE282, CK_LaunchApp1), (0xE283, CK_LaunchApp2)]"

definition map_ya_to_ckey :: "int \<Rightarrow> CKey option" where
  "map_ya_to_ckey code =
     (if code = 0xE000 then Some CK_Function
      else if 0xE300 \<le> code \<and> code \<le> 0xE317 then Some (CK_F1 + (code - 0xE300))
      else if 0xE400 \<le> code \<and> code \<le> 0xE409 then Some (CK_Numpad0 + (code - 0xE400))
      else map_of ya_key_table code)"

definition ckey_from_protocol :: "int \<Rightarrow> CKey option" where
  "ckey_from_protocol code = map_ya_to_ckey code"

section \<open>CKey to Linux key codes\<close>

text \<open>The switch of \<open>ckey_to_linux_keycode\<close>; every other key gives -1.\<close>

definition linux_keycode_table :: "(CKey \<times> int) list" where
  "linux_keycode_table = [
    (CK_Num0, KEY_0), (CK_Num1, KEY_1), (CK_Num2, KEY_2), (CK_Num3, KEY_3), (CK_Num4, KEY_4),
    (CK_Num5, KEY_5), (CK_Num6, KEY_6), (CK_Num7, KEY_7), (CK_Num8, KEY_8), (CK_Num9, KEY_9),
    (CK_A, KEY_A), (CK_B, KEY_B), (CK_C, KEY_C), (CK_D, KEY_D), (CK_E, KEY_E), (CK_F, KEY_F),
    (CK_G, KEY_G), (CK_H, KEY_H), (CK_I, KEY_I), (CK_J, KEY_J), (CK_K, KEY_K), (CK_L, KEY_L),
    (CK_M, KEY_M), (CK_N, KEY_N), (CK_O, KEY_O), (CK_P, KEY_P), (CK_Q, KEY_Q), (CK_R, KEY_R),
    (CK_S, KEY_S), (CK_T, KEY_T), (CK_U, KEY_U), (CK_V, KEY_V), (CK_W, KEY_W), (CK_X, KEY_X),
    (CK_Y, KEY_Y), (CK_Z, KEY_Z), (CK_Alt, KEY_LEFTALT), (CK_LMenu, KEY_LEFTALT),
    (CK_Control, KEY_LEFTCTRL), (CK_LControl, KEY_LEFTCTRL), (CK_Shift, KEY_LEFTSHIFT),
    (CK_LShift, KEY_LEFTSHIFT), (CK_Meta, KEY_LEFTMETA), (CK_LWin, KEY_LEFTMETA),
    (CK_Command, KEY_LEFTMETA), (CK_RMenu, KEY_RIGHTALT), (CK_RControl, KEY_RIGHTCTRL),
    (CK_RShift, KEY_RIGHTSHIFT), (CK_RWin, KEY_RIGHTMETA), (CK_RCommand, KEY_RIGHTMETA),
    (CK_ROption, KEY_RIGHTMETA), (CK_Option, KEY_LEFTALT), (CK_F1, KEY_F1), (CK_F2, KEY_F2),
    (CK_F3, KEY_F3), (CK_F4, KEY_F4), (CK_F5, KEY_F5), (CK_F6, KEY_F6), (CK_F7, KEY_F7),
    (CK_F8, KEY_F8), (CK_F9, KEY_F9), (CK_F10, KEY_F10), (CK_F11, KEY_F11), (CK_F12, KEY_F12),
    (CK_F13, KEY_F13), (CK_F14, KEY_F14), (CK_F15, KEY_F15), (CK_F16, KEY_F16),
    (CK_F17, KEY_F17), (CK_F18, KEY_F18), (CK_F19, KEY_F19), (CK_F20, KEY_F20),
    (CK_F21, KEY_F21), (CK_F22, KEY_F22), (CK_F23, KEY_F23), (CK_F24, KEY_F24),
    (CK_UpArrow, KEY_UP), (CK_DownArrow, KEY_DOWN), (CK_LeftArrow, KEY_LEFT),
    (CK_RightArrow, KEY_RIGHT), (CK_Home, KEY_HOME), (CK_End, KEY_END),
    (CK_PageUp, KEY_PAGEUP), (CK_PageDown, KEY_PAGEDOWN), (CK_Escape_k, KEY_ESC),
    (CK_Return, KEY_ENTER), (CK_Space, KEY_SPACE), (CK_Tab, KEY_TAB),
    (CK_Backspace, KEY_BACKSPACE), (CK_Delete, KEY_DELETE), (CK_Insert, KEY_INSERT),
    (CK_CapsLock, KEY_CAPSLOCK), (CK_Numlock, KEY_NUMLOCK), (CK_ScrollLock, KEY_SCROLLLOCK),
    (CK_Scroll, KEY_SCROLLLOCK), (CK_Numpad0, KEY_KP0), (CK_Numpad1, KEY_KP1),
    (CK_Numpad2, KEY_KP2), (CK_Numpad3, KEY_KP3), (CK_Numpad4, KEY_KP4), (CK_Numpad5, KEY_KP5),
    (CK_Numpad6, KEY_KP6), (CK_Numpad7, KEY_KP7), (CK_Numpad8, KEY_KP8), (CK_Numpad9, KEY_KP9),
    (CK_Add, KEY_KPPLUS), (CK_Subtract, KEY_KPMINUS), (CK_Multiply, KEY_KPASTERISK),
    (CK_Divide, KEY_KPSLASH), (CK_Decimal, KEY_KPDOT), (CK_Separator, KEY_KPCOMMA),
    (CK_OEMMinus, KEY_MINUS), (CK_OEMPlus, KEY_EQUAL), (CK_OEM4, KEY_LEFTBRACE),
    (CK_OEM6, KEY_RIGHTBRACE), (CK_OEM5, KEY_BACKSLASH), (CK_OEM1, KEY_SEMICOLON),
    (CK_OEM7, KEY_APOSTROPHE), (CK_OEMComma, KEY_COMMA), (CK_OEMPeriod, KEY_DOT),
    (CK_OEM2, KEY_SLASH), (CK_OEM3, KEY_GRAVE), (CK_PrintScr, KEY_SYSRQ),
    (CK_Pause, KEY_PAUSE), (CK_Break, KEY_BREAK), (CK_Apps, KEY_COMPOSE),
    (CK_Power, KEY_POWER), (CK_Sleep_k, KEY_SLEEP), (CK_VolumeUp, KEY_VOLUMEUP),
    (CK_VolumeDown, KEY_VOLUMEDOWN), (CK_VolumeMute, KEY_MUTE), (CK_MicMute, KEY_MICMUTE),
    (CK_MediaPlayPause, KEY_PLAYPAUSE), (CK_MediaStop, KEY_STOPCD),
    (CK_MediaNextTrack, KEY_NEXTSONG), (CK_MediaPrevTrack, KEY_PREVIOUSSONG),
    (CK_MediaFast, KEY_FASTFORWARD), (CK_MediaRewind, KEY_REWIND), (CK_BrowserBack, KEY_BACK),
    (CK_BrowserForward, KEY_FORWARD), (CK_BrowserRefresh, KEY_REFRESH),
    (CK_BrowserStop, KEY_STOP), (CK_BrowserSearch, KEY_SEARCH),
    (CK_BrowserFavorites, KEY_BOOKMARKS), (CK_BrowserHome, KEY_HOMEPAGE),
    (CK_LaunchMail, KEY_MAIL), (CK_LaunchMediaSelect, KEY_MEDIA), (CK_LaunchApp1, KEY_PROG1),
    (CK_LaunchApp2, KEY_PROG2), (CK_BrightnessUp, KEY_BRIGHTNESSUP),
    (CK_BrightnessDown, KEY_BRIGHTNESSDOWN), (CK_Help, KEY_HELP), (CK_Undo, KEY_UNDO),
    (CK_Redo, KEY_REDO), (CK_Find, KEY_FIND), (CK_Select, KEY_SELECT), (CK_Execute, KEY_OPEN),
    (CK_Eject, KEY_EJECTCD), (CK_Zoom, KEY_ZOOM), (CK_Kana, KEY_HANGEUL),
    (CK_Hangeul, KEY_HANGEUL), (CK_Hangul, KEY_HANGEUL), (CK_Hanja, KEY_HANJA),
    (CK_Kanji, KEY_KATAKANA), (CK_Convert, KEY_HENKAN), (CK_NonConvert, KEY_MUHENKAN)]"

definition ckey_to_linux_keycode :: "CKey \<Rightarrow> int" where
  "ckey_to_linux_keycode key = (case map_of linux_keycode_table key of Some c \<Rightarrow> c | None \<Rightarrow> - 1)"

text \<open>The keys \<open>input_linux_init\<close> enables; the kernel drops events of others.\<close>

definition enabled_keys :: "int list" where
  "enabled_keys = [
    KEY_0, KEY_1, KEY_2, KEY_3, KEY_4, KEY_5, KEY_6, KEY_7, KEY_8, KEY_9, KEY_A, KEY_B, KEY_C,
    KEY_D, KEY_E, KEY_F, KEY_G, KEY_H, KEY_I, KEY_J, KEY_K, KEY_L, KEY_M, KEY_N, KEY_O, KEY_P,
    KEY_Q, KEY_R, KEY_S, KEY_T, KEY_U, KEY_V, KEY_W, KEY_X, KEY_Y, KEY_Z, KEY_MINUS, KEY_EQUAL,
    KEY_LEFTBRACE, KEY_RIGHTBRACE, KEY_BACKSLASH, KEY_SEMICOLON, KEY_APOSTROPHE, KEY_GRAVE,
    KEY_COMMA, KEY_DOT, KEY_SLASH, KEY_ESC, KEY_F1, KEY_F2, KEY_F3, KEY_F4, KEY_F5, KEY_F6,
    KEY_F7, KEY_F8, KEY_F9, KEY_F10, KEY_F11, KEY_F12, KEY_F13, KEY_F14, KEY_F15, KEY_F16,
    KEY_F17, KEY_F18, KEY_F19, KEY_F20, KEY_F21, KEY_F22, KEY_F23, KEY_F24, KEY_LEFTSHIFT,
    KEY_RIGHTSHIFT, KEY_LEFTCTRL, KEY_RIGHTCTRL, KEY_LEFTALT, KEY_RIGHTALT, KEY_LEFTMETA,
    KEY_RIGHTMETA, KEY_CAPSLOCK, KEY_NUMLOCK, KEY_SCROLLLOCK, KEY_INSERT, KEY_DELETE, KEY_HOME,
    KEY_END, KEY_PAGEUP, KEY_PAGEDOWN, KEY_UP, KEY_DOWN, KEY_LEFT, KEY_RIGHT, KEY_TAB,
    KEY_ENTER, KEY_SPACE, KEY_BACKSPACE, KEY_KP0, KEY_KP1, KEY_KP2, KEY_KP3, KEY_KP4, KEY_KP5,
    KEY_KP6, KEY_KP7, KEY_KP8, KEY_KP9, KEY_KPPLUS, KEY_KPMINUS, KEY_KPASTERISK, KEY_KPSLASH,
    KEY_KPDOT, KEY_KPENTER, KEY_KPCOMMA, KEY_KPLEFTPAREN, KEY_KPRIGHTPAREN, KEY_PRINT,
    KEY_SYSRQ, KEY_SCROLLUP, KEY_SCROLLDOWN, KEY_PAUSE, KEY_BREAK, KEY_STOP, KEY_MAIL,
    KEY_HOMEPAGE, KEY_FORWARD, KEY_BACK, KEY_REFRESH, KEY_COMPUTER, KEY_CALC, KEY_SLEEP,
    KEY_WAKEUP, KEY_MUTE, KEY_VOLUMEDOWN, KEY_VOLUMEUP, KEY_NEXTSONG, KEY_PREVIOUSSONG,
    KEY_PLAYPAUSE, KEY_STOPCD, KEY_RECORD, KEY_BRIGHTNESSDOWN, KEY_BRIGHTNESSUP,
    KEY_DISPLAY_OFF, KEY_COMPOSE]"

section \<open>The accepted codes\<close>

definition protocol_codes :: "int list" where
  "protocol_codes = 0xE000 # [0xE300..0xE317] @ [0xE400..0xE409] @ map fst ya_key_table"

lemma set_protocol_codes:
  "set protocol_codes = insert 0xE000 ({0xE300..0xE317} \<union> {0xE400..0xE409} \<union> fst ` set ya_key_table)"
  by (simp only: protocol_codes_def list.set set_append set_upto set_map) blast

lemma accepted_code: "ckey_from_protocol code = Some k \<Longrightarrow> code \<in> set protocol_codes"
  unfolding set_protocol_codes ckey_from_protocol_def map_ya_to_ckey_def
  by (auto split: if_splits dest!: map_of_SomeD intro: image_eqI [where x = "(code, k)"])

lemma accepted_codes_all:
  assumes "list_all P protocol_codes" and "ckey_from_protocol code = Some k"
  shows "P code"
  using assms accepted_code by (auto simp: list_all_iff)

text \<open>
  Protocol codes of function keys live in the private range 0xE000 to 0xE40F, so that none of
  them is a code taken for a character, and no two of them stand for the same key.
\<close>

theorem protocol_codes_injective:
  "{code. ckey_from_protocol code \<noteq> None} \<subseteq> {0xE000..0xE40F} \<and>
   inj_on ckey_from_protocol {code. ckey_from_protocol code \<noteq> None}"
proof
  have "list_all (\<lambda>code. 0xE000 \<le> code \<and> code \<le> 0xE40F) protocol_codes" by code_simp
  then show "{code. ckey_from_protocol code \<noteq> None} \<subseteq> {0xE000..0xE40F}"
    by (auto dest: accepted_codes_all)
  have "distinct (map ckey_from_protocol protocol_codes)" by code_simp
  then have "inj_on ckey_from_protocol (set protocol_codes)" by (simp add: distinct_map)
  then show "inj_on ckey_from_protocol {code. ckey_from_protocol code \<noteq> None}"
    using accepted_code by (auto intro: inj_on_subset)
qed

definition emitted_ok :: "int \<Rightarrow> int \<Rightarrow> bool" where
  "emitted_ok code evdev \<longleftrightarrow> (evdev < 0 \<longleftrightarrow> code = 0xE000) \<and>
    (0 \<le> evdev \<longrightarrow> (evdev \<notin> set enabled_keys \<longleftrightarrow> code \<in> {0xE264, 0xE265, 0xE281, 0xE282, 0xE283}))"

definition emitted_code_ok :: "int \<Rightarrow> bool" where
  "emitted_code_ok c \<longleftrightarrow> emitted_ok c (ckey_to_linux_keycode (the (ckey_from_protocol c)))"

lemma emitted_quarters:
  "list_all emitted_code_ok (take 30 protocol_codes)"
  "list_all emitted_code_ok (take 20 (drop 30 protocol_codes))"
  "list_all emitted_code_ok (take 20 (drop 20 (drop 30 protocol_codes)))"
  "list_all emitted_code_ok (drop 20 (drop 20 (drop 30 protocol_codes)))"
  subgoal by code_simp
  subgoal by code_simp
  subgoal by code_simp
  subgoal by code_simp
  done

lemma list_all_quarters:
  "list_all P (take a xs) \<Longrightarrow> list_all P (take b (drop a xs)) \<Longrightarrow>
   list_all P (take c (drop b (drop a xs))) \<Longrightarrow> list_all P (drop c (drop b (drop a xs))) \<Longrightarrow> list_all P xs"
  by (metis append_take_drop_id list_all_append)

text \<open>C15.
  Every accepted protocol code has a Linux key except Fn (0xE000), and the virtual device emits
  it, except for five keys it never enabled (browser search and favourites, media selection and
  the two application keys): their events are written and dropped by the kernel.
\<close>

theorem protocol_keys_emitted:
  assumes "ckey_from_protocol code = Some k"
  shows "(ckey_to_linux_keycode k < 0 \<longleftrightarrow> code = 0xE000) \<and>
    (0 \<le> ckey_to_linux_keycode k \<longrightarrow>
       (ckey_to_linux_keycode k \<notin> set enabled_keys \<longleftrightarrow>
          code \<in> {0xE264, 0xE265, 0xE281, 0xE282, 0xE283}))"
proof -
  have "list_all emitted_code_ok protocol_codes"
    by (rule list_all_quarters [OF emitted_quarters])
  from accepted_codes_all [OF this assms] assms show ?thesis
    by (simp add: emitted_ok_def emitted_code_ok_def)
qed

theorem protocol_keys_emitted_witness:
  "ckey_to_linux_keycode CK_BrowserSearch \<notin> set enabled_keys"
proof -
  have "ckey_from_protocol 0xE264 = Some CK_BrowserSearch" "0 \<le> ckey_to_linux_keycode CK_BrowserSearch"
    by code_simp+
  with protocol_keys_emitted [OF this(1)] show ?thesis by simp
qed

end
