(* ===== verification/Uinput.thy ===== *)
theory Uinput
  imports Keys
begin

text \<open>
  The virtual input device, \<open>input/backend/linux_uinput.c\<close>, and the facade over it,
  \<open>input/facade.c\<close> (the build with \<open>USE_UINPUT\<close>).

  The device keeps the descriptor of \<open>/dev/uinput\<close>, the key bits it enabled and the log of the
  events written.  \<open>write_results\<close> are the outcomes of the coming writes (success when there
  are none left); a write that fails logs nothing.  The operations are polymorphic in the
  record's extension, which the keyboard adds to.
\<close>

section \<open>Types of the Rust interface\<close>

datatype YAError =
  Success | PlatformError | ClipboardError | InvalidInput | UnsupportedOperation | NotFound

datatype CDirection = Press | Release | Click

datatype CButton =
  Left | Middle | Right | Back | Forward | ScrollUp | ScrollDown | ScrollLeft | ScrollRight

section \<open>The device\<close>

datatype input_linux_status =
    INPUT_BACKEND_OK | INPUT_BACKEND_ERROR_INIT | INPUT_BACKEND_ERROR_PERMISSION
  | INPUT_BACKEND_ERROR_NOT_AVAILABLE | INPUT_BACKEND_ERROR_INVALID_PARAM
  | INPUT_BACKEND_ERROR_DEVICE

record input_event =
  ev_type :: u16
  ev_code :: u16
  ev_value :: i32

record input_dev =
  uinput_fd :: i32
  keybits :: "int list"
  ev_log :: "input_event list"
  write_results :: "bool list"

abbreviation (input) EV_SYN :: int where "EV_SYN \<equiv> 0"
abbreviation (input) EV_KEY :: int where "EV_KEY \<equiv> 1"
abbreviation (input) EV_REL :: int where "EV_REL \<equiv> 2"
abbreviation (input) SYN_REPORT :: int where "SYN_REPORT \<equiv> 0"
abbreviation (input) REL_X :: int where "REL_X \<equiv> 0"
abbreviation (input) REL_Y :: int where "REL_Y \<equiv> 1"
abbreviation (input) REL_HWHEEL :: int where "REL_HWHEEL \<equiv> 6"
abbreviation (input) REL_WHEEL :: int where "REL_WHEEL \<equiv> 8"

text \<open>The mouse buttons and scroll directions of the backend are unsigned enumerations.\<close>

type_synonym mouse_button_t = u32
type_synonym scroll_direction_t = u32

definition button_to_linux_code :: "mouse_button_t \<Rightarrow> int" where
  "button_to_linux_code button =
     (if button = 0 then BTN_LEFT else if button = 1 then BTN_RIGHT
      else if button = 2 then BTN_MIDDLE else - 1)"

text \<open>
  \<open>input_linux_init\<close>: the arguments are the result of \<open>open\<close>, the success of the three event
  type requests, of the set up and of the creation.  The requests for single keys are not
  checked.
\<close>

definition input_linux_init ::
  "i32 \<Rightarrow> bool \<Rightarrow> bool \<Rightarrow> bool \<Rightarrow> 'a input_dev_scheme \<Rightarrow> 'a input_dev_scheme \<times> input_linux_status" where
  "input_linux_init open_fd evbits_ok setup_ok create_ok d =
     (if sint open_fd < 0 then (d\<lparr>uinput_fd := open_fd\<rparr>, INPUT_BACKEND_ERROR_DEVICE)
      else if \<not> evbits_ok then (d\<lparr>uinput_fd := - 1\<rparr>, INPUT_BACKEND_ERROR_INIT)
      else if \<not> setup_ok then (d\<lparr>uinput_fd := - 1\<rparr>, INPUT_BACKEND_ERROR_INIT)
      else if \<not> create_ok then (d\<lparr>uinput_fd := - 1\<rparr>, INPUT_BACKEND_ERROR_INIT)
      else (d\<lparr>uinput_fd := open_fd, keybits := [BTN_LEFT, BTN_RIGHT, BTN_MIDDLE] @ enabled_keys\<rparr>,
            INPUT_BACKEND_OK))"

definition input_linux_shutdown :: "'a input_dev_scheme \<Rightarrow> 'a input_dev_scheme" where
  "input_linux_shutdown d = (if 0 \<le> sint (uinput_fd d) then d\<lparr>uinput_fd := - 1\<rparr> else d)"

definition emit_event ::
  "int \<Rightarrow> int \<Rightarrow> i32 \<Rightarrow> 'a input_dev_scheme \<Rightarrow> 'a input_dev_scheme \<times> bool" where
  "emit_event type code value d =
     (let ev = \<lparr>ev_type = word_of_int type, ev_code = word_of_int code, ev_value = value\<rparr> in
      case write_results d of
        [] \<Rightarrow> (d\<lparr>ev_log := ev_log d @ [ev]\<rparr>, True)
      | w # ws \<Rightarrow>
          if w then (d\<lparr>ev_log := ev_log d @ [ev], write_results := ws\<rparr>, True)
          else (d\<lparr>write_results := ws\<rparr>, False))"

definition emit_syn :: "'a input_dev_scheme \<Rightarrow> 'a input_dev_scheme \<times> bool" where
  "emit_syn = emit_event EV_SYN SYN_REPORT 0"

text \<open>
  The shape of every operation: events in order, each followed by a synchronisation where the
  code has one, up to the first that cannot be written.
\<close>

fun emit_seq ::
  "(int \<times> int \<times> i32) list \<Rightarrow> 'a input_dev_scheme \<Rightarrow> 'a input_dev_scheme \<times> input_linux_status" where
  "emit_seq [] d = (d, INPUT_BACKEND_OK)"
| "emit_seq ((type, code, value) # es) d =
     (case emit_event type code value d of (d', ok) \<Rightarrow>
        if ok then emit_seq es d' else (d', INPUT_BACKEND_ERROR_DEVICE))"

abbreviation (input) syn_event :: "int \<times> int \<times> i32" where
  "syn_event \<equiv> (EV_SYN, SYN_REPORT, 0)"

definition input_linux_mouse_move ::
  "i32 \<Rightarrow> i32 \<Rightarrow> 'a input_dev_scheme \<Rightarrow> 'a input_dev_scheme \<times> input_linux_status" where
  "input_linux_mouse_move dx dy d =
     (if sint (uinput_fd d) < 0 then (d, INPUT_BACKEND_ERROR_INIT)
      else emit_seq ((if dx \<noteq> 0 then [(EV_REL, REL_X, dx)] else []) @
                     (if dy \<noteq> 0 then [(EV_REL, REL_Y, dy)] else []) @ [syn_event]) d)"

definition input_linux_mouse_press ::
  "mouse_button_t \<Rightarrow> 'a input_dev_scheme \<Rightarrow> 'a input_dev_scheme \<times> input_linux_status" where
  "input_linux_mouse_press button d =
     (if sint (uinput_fd d) < 0 then (d, INPUT_BACKEND_ERROR_INIT)
      else if button_to_linux_code button < 0 then (d, INPUT_BACKEND_ERROR_INVALID_PARAM)
      else emit_seq [(EV_KEY, button_to_linux_code button, 1), syn_event] d)"

definition input_linux_mouse_release ::
  "mouse_button_t \<Rightarrow> 'a input_dev_scheme \<Rightarrow> 'a input_dev_scheme \<times> input_linux_status" where
  "input_linux_mouse_release button d =
     (if sint (uinput_fd d) < 0 then (d, INPUT_BACKEND_ERROR_INIT)
      else if button_to_linux_code button < 0 then (d, INPUT_BACKEND_ERROR_INVALID_PARAM)
      else emit_seq [(EV_KEY, button_to_linux_code button, 0), syn_event] d)"

definition input_linux_mouse_click ::
  "mouse_button_t \<Rightarrow> 'a input_dev_scheme \<Rightarrow> 'a input_dev_scheme \<times> input_linux_status" where
  "input_linux_mouse_click button d =
     (case input_linux_mouse_press button d of (d1, result) \<Rightarrow>
        if result \<noteq> INPUT_BACKEND_OK then (d1, result)
        else case input_linux_mouse_release button d1 of (d2, result2) \<Rightarrow>
          if result2 \<noteq> INPUT_BACKEND_OK then (d2, result2) else (d2, INPUT_BACKEND_OK))"

definition input_linux_mouse_scroll ::
  "scroll_direction_t \<Rightarrow> i32 \<Rightarrow> 'a input_dev_scheme \<Rightarrow> 'a input_dev_scheme \<times> input_linux_status" where
  "input_linux_mouse_scroll direction amount d =
     (if sint (uinput_fd d) < 0 then (d, INPUT_BACKEND_ERROR_INIT)
      else if sint amount \<le> 0 then (d, INPUT_BACKEND_ERROR_INVALID_PARAM)
      else if direction = 0 then emit_seq [(EV_REL, REL_WHEEL, amount), syn_event] d
      else if direction = 1 then emit_seq [(EV_REL, REL_WHEEL, - amount), syn_event] d
      else if direction = 2 then emit_seq [(EV_REL, REL_HWHEEL, - amount), syn_event] d
      else if direction = 3 then emit_seq [(EV_REL, REL_HWHEEL, amount), syn_event] d
      else (d, INPUT_BACKEND_ERROR_INVALID_PARAM))"

definition input_linux_key_press ::
  "int \<Rightarrow> 'a input_dev_scheme \<Rightarrow> 'a input_dev_scheme \<times> input_linux_status" where
  "input_linux_key_press keycode d =
     (if sint (uinput_fd d) < 0 then (d, INPUT_BACKEND_ERROR_INIT)
      else emit_seq [(EV_KEY, keycode, 1), syn_event, (EV_KEY, keycode, 0), syn_event] d)"

text \<open>The three directions, shared by the two key functions.\<close>

fun key_events :: "int \<Rightarrow> CDirection \<Rightarrow> (int \<times> int \<times> i32) list" where
  "key_events key Press = [(EV_KEY, key, 1), syn_event]"
| "key_events key Release = [(EV_KEY, key, 0), syn_event]"
| "key_events key Click = [(EV_KEY, key, 1), syn_event, (EV_KEY, key, 0), syn_event]"

definition input_linux_key_action ::
  "CKey \<Rightarrow> CDirection \<Rightarrow> 'a input_dev_scheme \<Rightarrow> 'a input_dev_scheme \<times> input_linux_status" where
  "input_linux_key_action key direction d =
     (if sint (uinput_fd d) < 0 then (d, INPUT_BACKEND_ERROR_INIT)
      else if ckey_to_linux_keycode key < 0 then (d, INPUT_BACKEND_ERROR_INVALID_PARAM)
      else emit_seq (key_events (ckey_to_linux_keycode key) direction) d)"

definition input_linux_key_action_raw ::
  "int \<Rightarrow> CDirection \<Rightarrow> 'a input_dev_scheme \<Rightarrow> 'a input_dev_scheme \<times> input_linux_status" where
  "input_linux_key_action_raw evdev_key direction d =
     (if sint (uinput_fd d) < 0 then (d, INPUT_BACKEND_ERROR_INIT)
      else emit_seq (key_events evdev_key direction) d)"

section \<open>The facade\<close>

text \<open>The default -1 of an unsigned enumeration is its largest value, and never negative.\<close>

definition map_button_to_backend :: "CButton \<Rightarrow> mouse_button_t" where
  "map_button_to_backend btn = (case btn of Left \<Rightarrow> 0 | Right \<Rightarrow> 1 | Middle \<Rightarrow> 2 | _ \<Rightarrow> - 1)"

definition map_scroll_dir_to_backend :: "i32 \<Rightarrow> scroll_direction_t" where
  "map_scroll_dir_to_backend dir =
     (if dir = 0 then 0 else if dir = 1 then 1 else if dir = 2 then 2 else if dir = 3 then 3 else - 1)"

fun translate_backend_status :: "input_linux_status \<Rightarrow> YAError" where
  "translate_backend_status INPUT_BACKEND_OK = Success"
| "translate_backend_status INPUT_BACKEND_ERROR_INVALID_PARAM = InvalidInput"
| "translate_backend_status _ = PlatformError"

definition translated :: "'d \<times> input_linux_status \<Rightarrow> 'd \<times> YAError" where
  "translated r = (fst r, translate_backend_status (snd r))"

definition input_mouse_move ::
  "i32 \<Rightarrow> i32 \<Rightarrow> 'a input_dev_scheme \<Rightarrow> 'a input_dev_scheme \<times> YAError" where
  "input_mouse_move dx dy d = translated (input_linux_mouse_move dx dy d)"

definition input_mouse_button ::
  "CButton \<Rightarrow> CDirection \<Rightarrow> 'a input_dev_scheme \<Rightarrow> 'a input_dev_scheme \<times> YAError" where
  "input_mouse_button btn dir d =
     (let backend_btn = map_button_to_backend btn in
      if dir = Press then translated (input_linux_mouse_press backend_btn d)
      else if dir = Release then translated (input_linux_mouse_release backend_btn d)
      else translated (input_linux_mouse_click backend_btn d))"

definition input_mouse_scroll ::
  "i32 \<Rightarrow> i32 \<Rightarrow> 'a input_dev_scheme \<Rightarrow> 'a input_dev_scheme \<times> YAError" where
  "input_mouse_scroll amount dir d =
     (if sint amount \<le> 0 then (d, InvalidInput)
      else translated (input_linux_mouse_scroll (map_scroll_dir_to_backend dir) amount d))"

definition input_key_action ::
  "CKey \<Rightarrow> CDirection \<Rightarrow> 'a input_dev_scheme \<Rightarrow> 'a input_dev_scheme \<times> YAError" where
  "input_key_action key dir d = translated (input_linux_key_action key dir d)"

section \<open>Reading the log\<close>

text \<open>
  What the kernel makes of the log: the displacement along a relative axis, and the keys and
  buttons held down.
\<close>

definition rel_sum :: "int \<Rightarrow> input_event list \<Rightarrow> int" where
  "rel_sum axis evs = (\<Sum>e\<leftarrow>evs. if ev_type e = 2 \<and> ev_code e = word_of_int axis then sint (ev_value e) else 0)"

fun held_after :: "u16 set \<Rightarrow> input_event list \<Rightarrow> u16 set" where
  "held_after S [] = S"
| "held_after S (e # es) =
     held_after (if ev_type e = 1 then (if ev_value e = 0 then S - {ev_code e} else insert (ev_code e) S) else S) es"

definition held :: "'a input_dev_scheme \<Rightarrow> u16 set" where
  "held d = held_after {} (ev_log d)"

lemma held_after_append [simp]: "held_after S (xs @ ys) = held_after (held_after S xs) ys"
  by (induction xs arbitrary: S) auto

lemma rel_sum_append [simp]: "rel_sum axis (xs @ ys) = rel_sum axis xs + rel_sum axis ys"
  by (simp add: rel_sum_def)

lemma rel_sum_simps [simp]:
  "rel_sum axis [] = 0"
  "rel_sum axis (e # es) =
     (if ev_type e = 2 \<and> ev_code e = word_of_int axis then sint (ev_value e) else 0) + rel_sum axis es"
  by (simp_all add: rel_sum_def)

section \<open>When every write succeeds\<close>

definition writable :: "'a input_dev_scheme \<Rightarrow> bool" where
  "writable d \<longleftrightarrow> 0 \<le> sint (uinput_fd d) \<and> list_all id (write_results d)"

definition event_of :: "int \<times> int \<times> i32 \<Rightarrow> input_event" where
  "event_of = (\<lambda>(type, code, value).
     \<lparr>ev_type = word_of_int type, ev_code = word_of_int code, ev_value = value\<rparr>)"

definition logged :: "(int \<times> int \<times> i32) list \<Rightarrow> 'a input_dev_scheme \<Rightarrow> 'a input_dev_scheme" where
  "logged es d = d\<lparr>ev_log := ev_log d @ map event_of es, write_results := drop (length es) (write_results d)\<rparr>"

lemma logged_simps [simp]:
  "uinput_fd (logged es d) = uinput_fd d"
  "keybits (logged es d) = keybits d"
  "ev_log (logged es d) = ev_log d @ map event_of es"
  "write_results (logged es d) = drop (length es) (write_results d)"
  "input_dev.more (logged es d) = input_dev.more d"
  by (simp_all add: logged_def)

lemma logged_Nil [simp]: "logged [] d = d"
  by (simp add: logged_def)

lemma logged_logged [simp]: "logged fs (logged es d) = logged (es @ fs) d"
  by (simp add: logged_def drop_drop add.commute)

lemma writable_logged [simp]: "writable d \<Longrightarrow> writable (logged es d)"
  by (auto simp: writable_def list_all_iff dest: in_set_dropD)

lemma emit_event_ok: "list_all id (write_results d) \<Longrightarrow> emit_event t c v d = (logged [(t, c, v)] d, True)"
  by (cases "write_results d") (auto simp: emit_event_def logged_def event_of_def)

lemma emit_seq_ok: "writable d \<Longrightarrow> emit_seq es d = (logged es d, INPUT_BACKEND_OK)"
proof (induction es arbitrary: d)
  case (Cons e es)
  obtain t c v where e: "e = (t, c, v)" by (cases e)
  with Cons show ?case by (simp add: emit_event_ok writable_def [of d])
qed simp

declare emit_seq.simps [simp del]

lemma writable_fd [simp]: "writable d \<Longrightarrow> \<not> sint (uinput_fd d) < 0"
  by (simp add: writable_def)

lemma key_action_raw_ok:
  "writable d \<Longrightarrow> input_linux_key_action_raw key dir d = (logged (key_events key dir) d, INPUT_BACKEND_OK)"
  by (simp add: input_linux_key_action_raw_def emit_seq_ok)

lemma key_action_ok:
  "writable d \<Longrightarrow> 0 \<le> ckey_to_linux_keycode key \<Longrightarrow>
     input_key_action key dir d = (logged (key_events (ckey_to_linux_keycode key) dir) d, Success)"
  by (simp add: input_key_action_def translated_def input_linux_key_action_def emit_seq_ok)

lemma held_logged_events [simp]:
  "held_after S (map event_of (key_events key Press)) = insert (word_of_int key) S"
  "held_after S (map event_of (key_events key Release)) = S - {word_of_int key}"
  "held_after S (map event_of (key_events key Click)) = S - {word_of_int key}"
  by (auto simp: event_of_def)

section \<open>Properties\<close>

text \<open>
  A relative move reaches the device whole: on a device that accepts writes it displaces the
  pointer by exactly \<open>dx\<close> and \<open>dy\<close>, holds no key and releases none.
\<close>

theorem mouse_move_exact:
  assumes "writable d"
  shows "\<exists>d'. input_mouse_move dx dy d = (d', Success) \<and>
    rel_sum REL_X (ev_log d') = rel_sum REL_X (ev_log d) + sint dx \<and>
    rel_sum REL_Y (ev_log d') = rel_sum REL_Y (ev_log d) + sint dy \<and> held d' = held d"
  using assms
  by (auto simp: input_mouse_move_def translated_def input_linux_mouse_move_def emit_seq_ok
      event_of_def held_def)

definition open_dev :: input_dev where
  "open_dev = \<lparr>uinput_fd = 5, keybits = [], ev_log = [], write_results = []\<rparr>"

lemma writable_open_dev [simp]: "writable open_dev"
  by (simp add: writable_def open_dev_def)

theorem mouse_move_exact_witness:
  "\<exists>d'. input_mouse_move 4 (- 7) open_dev = (d', Success) \<and> rel_sum REL_Y (ev_log d') = - 7"
  using mouse_move_exact [OF writable_open_dev, of 4 "- 7"]
  by (auto simp: open_dev_def)

text \<open>
  Only the left, right and middle buttons exist on the device: any other button is refused as
  invalid input and writes nothing; a click of one of the three, on a device that accepts
  writes, leaves exactly the buttons held that were held before, without that one.
\<close>

theorem mouse_button_supported:
  assumes "writable d"
  shows "\<exists>d'. (if btn \<in> {Left, Right, Middle}
      then input_mouse_button btn Click d = (d', Success) \<and>
        held d' = held d - {word_of_int (button_to_linux_code (map_button_to_backend btn))}
      else input_mouse_button btn dir d = (d', InvalidInput) \<and> d' = d)"
proof (cases "btn \<in> {Left, Right, Middle}")
  case True
  then have code: "0 \<le> button_to_linux_code (map_button_to_backend btn)"
    by (auto simp: map_button_to_backend_def button_to_linux_code_def)
  with True assms show ?thesis
    by (auto simp: input_mouse_button_def translated_def input_linux_mouse_click_def
        input_linux_mouse_press_def input_linux_mouse_release_def emit_seq_ok held_def event_of_def Let_def)
next
  case False
  then have "button_to_linux_code (map_button_to_backend btn) = - 1"
    by (cases btn) (auto simp: map_button_to_backend_def button_to_linux_code_def)
  with False assms show ?thesis
    by (auto simp: input_mouse_button_def translated_def input_linux_mouse_click_def
        input_linux_mouse_press_def input_linux_mouse_release_def Let_def)
qed

theorem mouse_button_supported_witness:
  "input_mouse_button Forward Press open_dev = (open_dev, InvalidInput)"
  using mouse_button_supported [OF writable_open_dev, of Forward Press] by simp

text \<open>
  Scrolling: a positive amount in one of the four directions turns the vertical wheel up or
  down, or the horizontal wheel left or right, by exactly that amount; any other amount or
  direction is invalid input and writes nothing.
\<close>

theorem mouse_scroll_exact:
  assumes "writable d"
  shows "\<exists>d'. (if 0 < sint amount \<and> dir \<in> {0, 1, 2, 3}
      then input_mouse_scroll amount dir d = (d', Success) \<and>
        rel_sum REL_WHEEL (ev_log d') = rel_sum REL_WHEEL (ev_log d) +
          (if dir = 0 then sint amount else if dir = 1 then - sint amount else 0) \<and>
        rel_sum REL_HWHEEL (ev_log d') = rel_sum REL_HWHEEL (ev_log d) +
          (if dir = 3 then sint amount else if dir = 2 then - sint amount else 0)
      else input_mouse_scroll amount dir d = (d', InvalidInput) \<and> d' = d)"
proof -
  have neg: "sint (- amount) = - sint amount" if "0 < sint amount"
    using that neg_i32_sint [of amount "- amount"] by (simp add: neg_i32_def)
  show ?thesis
    using assms neg
    by (auto simp: input_mouse_scroll_def translated_def input_linux_mouse_scroll_def emit_seq_ok
        map_scroll_dir_to_backend_def event_of_def)
qed

theorem mouse_scroll_exact_witness:
  "\<exists>d'. input_mouse_scroll 3 1 open_dev = (d', Success) \<and> rel_sum REL_WHEEL (ev_log d') = - 3"
  using mouse_scroll_exact [OF writable_open_dev, of 3 1]
  by (auto simp: open_dev_def)

end
