(* ===== verification/Xkb.thy ===== *)
theory Xkb
  imports Uinput
begin

text \<open>
  From characters to keys: the UTF-8 encoder of \<open>input/keyboard/mapper.c\<close> and the reverse key
  map of \<open>input/backend/xkb_mapper.c\<close> (build with libxkbcommon).

  The keymap itself belongs to libxkbcommon and is the record \<open>xkb_keymap\<close>, an argument: its
  range of key codes, the index of a modifier, the symbol a key gives under a modifier mask,
  and the character of a symbol.
\<close>

section \<open>UTF-8\<close>

text \<open>
  The five byte buffer starts zeroed.  \<open>(char)\<close> keeps the low eight bits; right shifts of a
  negative \<open>int32_t\<close> are arithmetic.
\<close>

definition encode_codepoint_to_utf8 :: "i32 \<Rightarrow> u8 list" where
  "encode_codepoint_to_utf8 codepoint =
     (if 0 < sint codepoint \<and> sint codepoint < 0x80 then [ucast codepoint, 0, 0, 0, 0]
      else if sint codepoint < 0x800 then
        [ucast (0xC0 OR signed_drop_bit 6 codepoint), ucast (0x80 OR (codepoint AND 0x3F)), 0, 0, 0]
      else if sint codepoint < 0x10000 then
        [ucast (0xE0 OR signed_drop_bit 12 codepoint),
         ucast (0x80 OR (signed_drop_bit 6 codepoint AND 0x3F)), ucast (0x80 OR (codepoint AND 0x3F)), 0, 0]
      else if sint codepoint < 0x110000 then
        [ucast (0xF0 OR signed_drop_bit 18 codepoint),
         ucast (0x80 OR (signed_drop_bit 12 codepoint AND 0x3F)),
         ucast (0x80 OR (signed_drop_bit 6 codepoint AND 0x3F)), ucast (0x80 OR (codepoint AND 0x3F)), 0]
      else [0, 0, 0, 0, 0])"

definition decode_utf8 :: "u8 list \<Rightarrow> u32 option" where
  "decode_utf8 u =
     (let b = \<lambda>i. ucast (u ! i) :: u32 in
      if u ! 0 AND 0x80 = 0 then Some (b 0)
      else if u ! 0 AND 0xE0 = 0xC0 then Some (push_bit 6 (b 0 AND 0x1F) OR (b 1 AND 0x3F))
      else if u ! 0 AND 0xF0 = 0xE0 then
        Some (push_bit 12 (b 0 AND 0x0F) OR push_bit 6 (b 1 AND 0x3F) OR (b 2 AND 0x3F))
      else if u ! 0 AND 0xF8 = 0xF0 then
        Some (push_bit 18 (b 0 AND 0x07) OR push_bit 12 (b 1 AND 0x3F) OR
              push_bit 6 (b 2 AND 0x3F) OR (b 3 AND 0x3F))
      else None)"

section \<open>The reverse map\<close>

record xkb_cache_entry =
  e_codepoint :: u32
  e_evdev_key :: int
  e_mods_mask :: u32

record xkb_keymap =
  min_keycode :: u32
  max_keycode :: u32
  mod_get_index :: "string \<Rightarrow> u32"
  key_get_one_sym :: "u32 \<Rightarrow> u32 \<Rightarrow> u32"  \<comment> \<open>modifier mask, key code\<close>
  keysym_to_utf32 :: "u32 \<Rightarrow> u32"

definition XKB_MOD_INVALID :: u32 where "XKB_MOD_INVALID = 0xFFFFFFFF"
definition XKB_KEY_NoSymbol :: u32 where "XKB_KEY_NoSymbol = 0"
definition cache_capacity :: nat where "cache_capacity = 512"

definition xkb_mod_mask :: "xkb_keymap \<Rightarrow> u32 \<Rightarrow> u32" where
  "xkb_mod_mask km mods =
     (let shift_idx = mod_get_index km ''Shift'';
          m1 = (if mods AND 1 \<noteq> 0 \<and> shift_idx \<noteq> XKB_MOD_INVALID then push_bit (unat shift_idx) 1 else 0);
          level3 = mod_get_index km ''ISO_Level3_Shift'';
          level3_idx = (if level3 = XKB_MOD_INVALID then mod_get_index km ''Mode_switch'' else level3);
          m2 = (if mods AND 2 \<noteq> 0 \<and> level3_idx \<noteq> XKB_MOD_INVALID then push_bit (unat level3_idx) 1 else 0)
      in m1 OR m2)"

text \<open>The body of the inner loop of \<open>build_cache\<close>, for one key code and modifier combination.\<close>

definition cache_step :: "xkb_keymap \<Rightarrow> u32 \<Rightarrow> u32 \<Rightarrow> xkb_cache_entry list \<Rightarrow> xkb_cache_entry list" where
  "cache_step km kc mods cache =
     (let keysym = key_get_one_sym km (xkb_mod_mask km mods) kc in
      if keysym = XKB_KEY_NoSymbol then cache
      else
        let cp = keysym_to_utf32 km keysym in
        if 0 < cp \<and> cp < 0x110000 then
          let found = (\<exists>e \<in> set cache. e_codepoint e = cp) in
          if \<not> found \<and> length cache < cache_capacity then
            cache @ [\<lparr>e_codepoint = cp, e_evdev_key = int (unat kc) - 8, e_mods_mask = mods\<rparr>]
          else cache
        else cache)"

definition build_cache :: "xkb_keymap \<Rightarrow> xkb_cache_entry list" where
  "build_cache km =
     fold (\<lambda>kc cache. fold (cache_step km (word_of_nat kc)) [0, 1, 2, 3] cache)
       [unat (min_keycode km)..<unat (max_keycode km) + 1] []"

text \<open>
  \<open>g_xkb\<close>: whether it is initialised, where the layout came from, and the cache.  The three
  sources are given by the keymaps the library finds for them.
\<close>

record xkb_global =
  xkb_initialized :: bool
  layout_source :: string
  xkb_cache :: "xkb_cache_entry list"

definition xkb_global_init :: xkb_global where
  "xkb_global_init = \<lparr>xkb_initialized = False, layout_source = [], xkb_cache = []\<rparr>"

text \<open>\<open>snprintf\<close> into the 64 bytes of \<open>layout_source\<close>.\<close>

definition layout_label :: "string \<Rightarrow> string" where
  "layout_label s = take 63 s"

definition try_init_from_env ::
  "string option \<Rightarrow> string option \<Rightarrow> xkb_keymap option \<Rightarrow> (xkb_keymap \<times> string) option" where
  "try_init_from_env layout variant env_keymap =
     (case layout of
        None \<Rightarrow> None
      | Some l \<Rightarrow>
          if l = [] then None
          else map_option (\<lambda>km. (km, layout_label (''env:'' @ l @
                 (case variant of None \<Rightarrow> [] | Some v \<Rightarrow> '','' @ v)))) env_keymap)"

definition xkbmap_init_auto ::
  "bool \<Rightarrow> xkb_keymap option \<Rightarrow> string option \<Rightarrow> string option \<Rightarrow> xkb_keymap option \<Rightarrow> xkb_keymap option \<Rightarrow>
   bool \<Rightarrow> bool \<Rightarrow> xkb_global \<Rightarrow> xkb_global \<times> int" where
  "xkbmap_init_auto ctx_ok x11_keymap layout variant env_keymap us_keymap state_ok cache_ok g =
     (if xkb_initialized g then (g, 0)
      else if \<not> ctx_ok then (g, - 1)
      else
        let found = (case x11_keymap of
              Some km \<Rightarrow> Some (km, ''X11'')
            | None \<Rightarrow> (case try_init_from_env layout variant env_keymap of
                Some r \<Rightarrow> Some r
              | None \<Rightarrow> map_option (\<lambda>km. (km, ''fallback:us'')) us_keymap))
        in case found of
          None \<Rightarrow> (g, - 1)
        | Some (km, source) \<Rightarrow>
            let g1 = g\<lparr>layout_source := source\<rparr> in
            if \<not> state_ok then (g1, - 1)
            else (g1\<lparr>xkb_cache := (if cache_ok then build_cache km else []), xkb_initialized := True\<rparr>, 0))"

definition xkbmap_free :: "xkb_global \<Rightarrow> xkb_global" where
  "xkbmap_free g = (if xkb_initialized g then g\<lparr>xkb_cache := [], xkb_initialized := False\<rparr> else g)"

definition xkbmap_get_layout_source :: "xkb_global \<Rightarrow> string" where
  "xkbmap_get_layout_source g = (if layout_source g \<noteq> [] then layout_source g else ''uninitialized'')"

definition xkbmap_map_utf8_to_evdev :: "xkb_global \<Rightarrow> u8 list \<Rightarrow> (int \<times> u32) option" where
  "xkbmap_map_utf8_to_evdev g utf8 =
     (if \<not> xkb_initialized g then None
      else case decode_utf8 utf8 of
        None \<Rightarrow> None
      | Some cp \<Rightarrow>
          map_option (\<lambda>e. (e_evdev_key e, e_mods_mask e)) (List.find (\<lambda>e. e_codepoint e = cp) (xkb_cache g)))"

definition map_char_to_evdev_linux :: "xkb_global \<Rightarrow> i32 \<Rightarrow> YAError \<times> (int \<times> u32) option" where
  "map_char_to_evdev_linux g codepoint =
     (let utf8 = encode_codepoint_to_utf8 codepoint in
      if utf8 ! 0 = 0 then (InvalidInput, None)
      else case xkbmap_map_utf8_to_evdev g utf8 of
        Some r \<Rightarrow> (Success, Some r)
      | None \<Rightarrow> (NotFound, None))"

section \<open>Characters survive the encoding\<close>

lemma high_bits_clear:
  assumes "0 \<le> sint (c :: i32)" "sint c < 2 ^ m" "m \<le> k"
  shows "\<not> bit c k"
proof
  assume b: "bit c k"
  then have k: "k < 32" using bit_imp_le_length by fastforce
  have "int (unat c) < 2 ^ m" using sint_nonneg_unat [OF assms(1)] assms(2) by simp
  then have "unat c < 2 ^ m" using of_nat_less_iff by fastforce
  then have "unat c < 2 ^ k" using assms(3) by (meson less_le_trans one_le_numeral power_increasing)
  moreover have "bit (unat c) k" using b k by (simp add: bit_unsigned_iff)
  ultimately show False by (simp add: bit_nat_def)
qed

lemma bits8:
  assumes "list_all (\<lambda>n. bit (a :: u8) n = bit b n) [0, 1, 2, 3, 4, 5, 6, 7]"
  shows "a = b"
proof (rule bit_word_eqI)
  fix n assume "n < LENGTH(8)"
  then have "n = 0 \<or> n = 1 \<or> n = 2 \<or> n = 3 \<or> n = 4 \<or> n = 5 \<or> n = 6 \<or> n = 7" by simp linarith
  with assms show "bit a n = bit b n" by (elim disjE) simp_all
qed

lemma bits32:
  assumes "list_all (\<lambda>n. bit (a :: u32) n = bit b n) [0, 1, 2, 3, 4, 5, 6, 7, 8, 9, 10, 11, 12, 13, 14, 15,
    16, 17, 18, 19, 20, 21, 22, 23, 24, 25, 26, 27, 28, 29, 30, 31]"
  shows "a = b"
proof (rule bit_word_eqI)
  have u: "[0..<32] = [0, 1, 2, 3, 4, 5, 6, 7, 8, 9, 10, 11, 12, 13, 14, 15,
    16, 17, 18, 19, 20, 21, 22, 23, 24, 25, 26, 27, 28, 29, 30, 31]" by code_simp
  fix n assume "n < LENGTH(32)"
  then have "n \<in> set [0..<32]" by simp
  with assms show "bit a n = bit b n" unfolding u by (simp only: list_all_iff)
qed

text \<open>The encoded forms of one to four bytes, from the bits that are clear.\<close>

lemma decode_one:
  assumes "\<And>k. 7 \<le> k \<Longrightarrow> \<not> bit (c :: i32) k"
  shows "(ucast c :: u8) AND 0x80 = 0" and "(ucast (ucast c :: u8) :: u32) = c"
  subgoal by (rule bits8) (simp add: bit_simps assms)
  subgoal by (rule bits32) (simp add: bit_simps assms)
  done

lemma decode_two:
  assumes "\<And>k. 11 \<le> k \<Longrightarrow> \<not> bit (c :: i32) k"
  shows "(ucast (0xC0 OR signed_drop_bit 6 c) :: u8) AND 0xE0 = 0xC0"
    and "(ucast (0xC0 OR signed_drop_bit 6 c) :: u8) AND 0x80 = 0x80"
    and "push_bit 6 (ucast (ucast (0xC0 OR signed_drop_bit 6 c) :: u8) AND 0x1F) OR
      (ucast (ucast (0x80 OR (c AND 0x3F)) :: u8) AND 0x3F) = c"
  subgoal by (rule bits8) (simp add: bit_simps assms)
  subgoal by (rule bits8) (simp add: bit_simps assms)
  subgoal by (rule bits32) (simp add: bit_simps assms)
  done

lemma decode_three:
  assumes "\<And>k. 16 \<le> k \<Longrightarrow> \<not> bit (c :: i32) k"
  shows "(ucast (0xE0 OR signed_drop_bit 12 c) :: u8) AND 0xF0 = 0xE0"
    and "(ucast (0xE0 OR signed_drop_bit 12 c) :: u8) AND 0xE0 = 0xE0"
    and "(ucast (0xE0 OR signed_drop_bit 12 c) :: u8) AND 0x80 = 0x80"
    and "push_bit 12 (ucast (ucast (0xE0 OR signed_drop_bit 12 c) :: u8) AND 0x0F) OR
      push_bit 6 (ucast (ucast (0x80 OR (signed_drop_bit 6 c AND 0x3F)) :: u8) AND 0x3F) OR
      (ucast (ucast (0x80 OR (c AND 0x3F)) :: u8) AND 0x3F) = c"
  subgoal by (rule bits8) (simp add: bit_simps assms)
  subgoal by (rule bits8) (simp add: bit_simps assms)
  subgoal by (rule bits8) (simp add: bit_simps assms)
  subgoal by (rule bits32) (simp add: bit_simps assms)
  done

lemma decode_four:
  assumes "\<And>k. 21 \<le> k \<Longrightarrow> \<not> bit (c :: i32) k"
  shows "(ucast (0xF0 OR signed_drop_bit 18 c) :: u8) AND 0xF8 = 0xF0"
    and "(ucast (0xF0 OR signed_drop_bit 18 c) :: u8) AND 0xF0 = 0xF0"
    and "(ucast (0xF0 OR signed_drop_bit 18 c) :: u8) AND 0xE0 = 0xE0"
    and "(ucast (0xF0 OR signed_drop_bit 18 c) :: u8) AND 0x80 = 0x80"
    and "push_bit 18 (ucast (ucast (0xF0 OR signed_drop_bit 18 c) :: u8) AND 0x07) OR
      push_bit 12 (ucast (ucast (0x80 OR (signed_drop_bit 12 c AND 0x3F)) :: u8) AND 0x3F) OR
      push_bit 6 (ucast (ucast (0x80 OR (signed_drop_bit 6 c AND 0x3F)) :: u8) AND 0x3F) OR
      (ucast (ucast (0x80 OR (c AND 0x3F)) :: u8) AND 0x3F) = c"
  subgoal by (rule bits8) (simp add: bit_simps assms)
  subgoal by (rule bits8) (simp add: bit_simps assms)
  subgoal by (rule bits8) (simp add: bit_simps assms)
  subgoal by (rule bits8) (simp add: bit_simps assms)
  subgoal by (rule bits32) (simp add: bit_simps assms)
  done

lemma decode_encode:
  assumes "0 < sint c" "sint c < 0x110000"
  shows "decode_utf8 (encode_codepoint_to_utf8 c) = Some c"
proof -
  have clear: "\<not> bit c k" if "sint c < 2 ^ m" "m \<le> k" for m k
    using high_bits_clear [of c m k] assms(1) that by simp
  consider "sint c < 0x80" | "0x80 \<le> sint c" "sint c < 0x800"
    | "0x800 \<le> sint c" "sint c < 0x10000" | "0x10000 \<le> sint c" using assms(1) by linarith
  then show ?thesis
  proof cases
    case 1
    with decode_one [of c] clear [of 7] assms(1) show ?thesis
      by (simp add: encode_codepoint_to_utf8_def decode_utf8_def Let_def)
  next
    case 2
    with decode_two [of c] clear [of 11] assms(1) show ?thesis
      by (simp add: encode_codepoint_to_utf8_def decode_utf8_def Let_def)
  next
    case 3
    with decode_three [of c] clear [of 16] assms(1) show ?thesis
      by (simp add: encode_codepoint_to_utf8_def decode_utf8_def Let_def)
  next
    case 4
    with decode_four [of c] clear [of 21] assms show ?thesis
      by (simp add: encode_codepoint_to_utf8_def decode_utf8_def Let_def)
  qed
qed

lemma encode_nonzero:
  assumes "0 < sint c" "sint c < 0x110000"
  shows "encode_codepoint_to_utf8 c ! 0 \<noteq> 0"
proof
  assume z: "encode_codepoint_to_utf8 c ! 0 = 0"
  then have "decode_utf8 (encode_codepoint_to_utf8 c) = Some 0" by (simp add: decode_utf8_def)
  with decode_encode [OF assms] assms(1) show False by simp
qed

section \<open>What the cache says is what the keymap does\<close>

definition entry_ok :: "xkb_keymap \<Rightarrow> xkb_cache_entry \<Rightarrow> bool" where
  "entry_ok km e \<longleftrightarrow> (\<exists>kc. min_keycode km \<le> kc \<and> kc \<le> max_keycode km \<and>
     e_evdev_key e = int (unat kc) - 8 \<and> e_mods_mask e \<in> {0, 1, 2, 3} \<and>
     keysym_to_utf32 km (key_get_one_sym km (xkb_mod_mask km (e_mods_mask e)) kc) = e_codepoint e \<and>
     0 < e_codepoint e \<and> e_codepoint e < 0x110000)"

definition cache_ok :: "xkb_keymap \<Rightarrow> xkb_cache_entry list \<Rightarrow> bool" where
  "cache_ok km cache \<longleftrightarrow> length cache \<le> cache_capacity \<and> distinct (map e_codepoint cache) \<and>
     list_all (entry_ok km) cache"

lemma cache_ok_step [inv_intros]:
  assumes "cache_ok km cache" "min_keycode km \<le> kc" "kc \<le> max_keycode km" "m \<in> {0, 1, 2, 3}"
  shows "cache_ok km (cache_step km kc m cache)"
proof -
  let ?cp = "keysym_to_utf32 km (key_get_one_sym km (xkb_mod_mask km m) kc)"
  have "entry_ok km \<lparr>e_codepoint = ?cp, e_evdev_key = int (unat kc) - 8, e_mods_mask = m\<rparr>"
    if "0 < ?cp" "?cp < 0x110000"
    using that assms(2-4) by (auto simp: entry_ok_def)
  with assms(1) show ?thesis
    by (auto simp: cache_step_def cache_ok_def Let_def)
qed

lemma cache_ok_fold:
  "cache_ok km cache \<Longrightarrow> (\<And>x c. x \<in> set xs \<Longrightarrow> cache_ok km c \<Longrightarrow> cache_ok km (f x c)) \<Longrightarrow>
     cache_ok km (fold f xs cache)"
  by (induction xs arbitrary: cache) auto

lemma build_cache_ok: "cache_ok km (build_cache km)"
  unfolding build_cache_def
proof (rule cache_ok_fold)
  show "cache_ok km []" by (simp add: cache_ok_def)
  fix n cache assume n: "n \<in> set [unat (min_keycode km)..<unat (max_keycode km) + 1]" and c: "cache_ok km cache"
  let ?kc = "word_of_nat n :: u32"
  have "n < 2 ^ 32" using n unat_u32_bound [of "max_keycode km"] by auto
  then have "unat ?kc = n" by (simp add: unat_of_nat take_bit_nat_eq_self)
  with n have "min_keycode km \<le> ?kc" "?kc \<le> max_keycode km" by (auto simp: word_le_nat_alt)
  with c show "cache_ok km (fold (cache_step km ?kc) [0, 1, 2, 3] cache)"
    by (intro cache_ok_fold cache_ok_step) auto
qed

lemma find_distinct_codepoint:
  "List.find (\<lambda>e. e_codepoint e = cp) cache = Some e \<Longrightarrow> e \<in> set cache \<and> e_codepoint e = cp"
  by (rule find_Some_set)

section \<open>Properties\<close>

text \<open>
  The two halves of the character lookup are inverse: for every code point the UTF-8 bytes the
  mapper makes of it are decoded by the reverse map into the same code point.
\<close>

theorem utf8_roundtrip:
  assumes "0 < sint c" "sint c < 0x110000"
  shows "decode_utf8 (encode_codepoint_to_utf8 c) = Some c"
  using assms by (rule decode_encode)

theorem utf8_roundtrip_witness: "decode_utf8 (encode_codepoint_to_utf8 0x20AC) = Some 0x20AC"
  by (rule utf8_roundtrip) simp_all

text \<open>C16.
  Looking up a character gives, when it gives a key, a key and modifiers under which the keymap
  produces exactly that character; and it fails only when no key in the map produces it.  The
  map is the one built at initialisation, of at most 512 characters, each once.
\<close>

theorem char_mapping_correct:
  assumes "0 < sint c" "sint c < 0x110000"
    and "xkb_initialized g" "xkb_cache g = build_cache km"
  shows "case map_char_to_evdev_linux g c of
      (Success, Some (evdev, mods)) \<Rightarrow>
        \<exists>kc. min_keycode km \<le> kc \<and> kc \<le> max_keycode km \<and> evdev = int (unat kc) - 8 \<and>
          mods \<in> {0, 1, 2, 3} \<and>
          keysym_to_utf32 km (key_get_one_sym km (xkb_mod_mask km mods) kc) = c
    | (NotFound, None) \<Rightarrow> c \<notin> e_codepoint ` set (build_cache km)
    | _ \<Rightarrow> False"
proof (cases "List.find (\<lambda>e. e_codepoint e = c) (build_cache km)")
  case None
  then have "map_char_to_evdev_linux g c = (NotFound, None)"
    using assms encode_nonzero [OF assms(1,2)]
    by (simp add: map_char_to_evdev_linux_def xkbmap_map_utf8_to_evdev_def decode_encode)
  with None show ?thesis by (auto simp: find_None_all)
next
  case (Some e)
  then have "map_char_to_evdev_linux g c = (Success, Some (e_evdev_key e, e_mods_mask e))"
    using assms encode_nonzero [OF assms(1,2)]
    by (simp add: map_char_to_evdev_linux_def xkbmap_map_utf8_to_evdev_def decode_encode)
  moreover have "e \<in> set (build_cache km)" "e_codepoint e = c" using find_distinct_codepoint [OF Some] by auto
  moreover have "entry_ok km e" using build_cache_ok [of km] \<open>e \<in> set _\<close> by (auto simp: cache_ok_def list_all_iff)
  ultimately show ?thesis by (auto simp: entry_ok_def)
qed

text \<open>A keymap of one key, code 38, that gives \<open>a\<close> and with Shift \<open>A\<close>.\<close>

definition tiny_keymap :: xkb_keymap where
  "tiny_keymap = \<lparr>min_keycode = 38, max_keycode = 38,
     mod_get_index = (\<lambda>s. if s = ''Shift'' then 0 else 0xFFFFFFFF),
     key_get_one_sym = (\<lambda>m kc. if kc = 38 then (if m AND 1 \<noteq> 0 then 0x41 else 0x61) else 0),
     keysym_to_utf32 = (\<lambda>s. s)\<rparr>"

theorem char_mapping_correct_witness:
  "\<exists>g. case map_char_to_evdev_linux g 0x41 of
      (Success, Some (evdev, mods)) \<Rightarrow> mods \<in> {0, 1, 2, 3}
    | (NotFound, None) \<Rightarrow> 0x41 \<notin> e_codepoint ` set (build_cache tiny_keymap)
    | _ \<Rightarrow> False"
proof -
  let ?g = "\<lparr>xkb_initialized = True, layout_source = ''X11'', xkb_cache = build_cache tiny_keymap\<rparr>"
  from char_mapping_correct [of "0x41" ?g tiny_keymap]
  show ?thesis by (intro exI [of _ ?g]) (auto split: prod.splits YAError.splits option.splits)
qed

end
