(* ===== verification/Keyboard.thy ===== *)
theory Keyboard
  imports Xkb MPackWriter
begin

text \<open>
  Keyboard input: the paste fallback of \<open>input/keyboard/clipboard.c\<close> and the chords of
  \<open>input/keyboard/handler.c\<close> (Linux build), over the device of \<open>Uinput\<close> and the maps of \<open>Xkb\<close>.

  \<open>input_world\<close> extends the device by the paste configuration, the key map and the system
  clipboard.  The clipboard belongs to the Rust library's \<open>arboard\<close> crate: \<open>sys_clip\<close> is the
  text it would return (\<open>None\<close> when there is none), \<open>set_results\<close> are the outcomes of the coming
  writes to it (success when there are none left), \<open>clip_log\<close> the texts written.  Waiting and
  the mutex that serialises injections do not show in the sequential model.
\<close>

record input_world = input_dev +
  clip_enabled :: bool
  use_ctrl_v :: bool
  xkb :: xkb_global
  sys_clip :: "u8 list option"
  set_results :: "bool list"
  clip_log :: "u8 list list"

section \<open>Clipboard\<close>

text \<open>Rust's \<open>CStr::to_str\<close> accepts well-formed UTF-8 only.\<close>

definition continuation :: "u8 \<Rightarrow> bool" where
  "continuation b \<longleftrightarrow> 0x80 \<le> b \<and> b \<le> 0xBF"

fun valid_utf8 :: "u8 list \<Rightarrow> bool" where
  "valid_utf8 [] = True"
| "valid_utf8 (a # s) =
     (if a \<le> 0x7F then valid_utf8 s
      else case s of
        [] \<Rightarrow> False
      | b # s2 \<Rightarrow>
          if 0xC2 \<le> a \<and> a \<le> 0xDF then continuation b \<and> valid_utf8 s2
          else (case s2 of
            [] \<Rightarrow> False
          | c # s3 \<Rightarrow>
              if 0xE0 \<le> a \<and> a \<le> 0xEF then
                continuation b \<and> (a = 0xE0 \<longrightarrow> 0xA0 \<le> b) \<and> (a = 0xED \<longrightarrow> b \<le> 0x9F) \<and>
                continuation c \<and> valid_utf8 s3
              else (case s3 of
                [] \<Rightarrow> False
              | d # s4 \<Rightarrow>
                  0xF0 \<le> a \<and> a \<le> 0xF4 \<and> continuation b \<and> (a = 0xF0 \<longrightarrow> 0x90 \<le> b) \<and>
                  (a = 0xF4 \<longrightarrow> b \<le> 0x8F) \<and> continuation c \<and> continuation d \<and> valid_utf8 s4)))"

text \<open>\<open>clipboard_get\<close> and \<open>clipboard_set\<close> of \<open>rs/src/lib.rs\<close>.\<close>

definition clipboard_get :: "'a input_world_scheme \<Rightarrow> u8 list option" where
  "clipboard_get w =
     (case sys_clip w of None \<Rightarrow> None | Some t \<Rightarrow> if 0 \<in> set t then None else Some t)"

definition clipboard_set :: "u8 list \<Rightarrow> 'a input_world_scheme \<Rightarrow> 'a input_world_scheme \<times> YAError" where
  "clipboard_set text w =
     (let s = cstr text in
      if \<not> valid_utf8 s then (w, InvalidInput)
      else case set_results w of
        [] \<Rightarrow> (w\<lparr>sys_clip := Some s, clip_log := clip_log w @ [s]\<rparr>, Success)
      | ok # rest \<Rightarrow>
          if ok then (w\<lparr>sys_clip := Some s, clip_log := clip_log w @ [s], set_results := rest\<rparr>, Success)
          else (w\<lparr>set_results := rest\<rparr>, ClipboardError))"

text \<open>\<open>clipboard_helper_init\<close>, from the values of the two configuration keys.\<close>

definition clipboard_helper_init ::
  "string option \<Rightarrow> string option \<Rightarrow> 'a input_world_scheme \<Rightarrow> 'a input_world_scheme" where
  "clipboard_helper_init fallback_str paste_key w =
     (let w1 = (case fallback_str of
            None \<Rightarrow> w
          | Some s \<Rightarrow> w\<lparr>clip_enabled := s \<in> {''1'', ''true'', ''on'', ''yes''}\<rparr>)
      in case paste_key of None \<Rightarrow> w1 | Some s \<Rightarrow> w1\<lparr>use_ctrl_v := (s = ''ctrl_v'')\<rparr>)"

text \<open>The paste shortcut: each step only when the one before succeeded.\<close>

definition paste_keys :: "CKey \<Rightarrow> CKey \<Rightarrow> 'a input_world_scheme \<Rightarrow> 'a input_world_scheme \<times> YAError" where
  "paste_keys modifier key w =
     (case input_key_action modifier Press w of (w1, e1) \<Rightarrow>
        if e1 \<noteq> Success then (w1, e1)
        else case input_key_action key Click w1 of (w2, e2) \<Rightarrow>
          if e2 \<noteq> Success then (w2, e2) else input_key_action modifier Release w2)"

definition clipboard_paste_text ::
  "u8 list \<Rightarrow> 'a input_world_scheme \<Rightarrow> 'a input_world_scheme \<times> YAError" where
  "clipboard_paste_text text w =
     (if cstr text = [] then (w, InvalidInput)
      else if \<not> clip_enabled w then (w, UnsupportedOperation)
      else
        let backup = clipboard_get w in
        case clipboard_set text w of (w1, set_err) \<Rightarrow>
        if set_err \<noteq> Success then (w1, set_err)
        else case (if use_ctrl_v w1 then paste_keys CK_Control CK_V w1
                   else paste_keys CK_Shift CK_Insert w1) of (w2, key_err) \<Rightarrow>
          case backup of
            None \<Rightarrow> (w2, key_err)
          | Some b \<Rightarrow> (fst (clipboard_set b w2), key_err))"

section \<open>Modifiers\<close>

abbreviation (input) CHORD_MOD_SHIFT :: u32 where "CHORD_MOD_SHIFT \<equiv> 1"
abbreviation (input) CHORD_MOD_CTRL :: u32 where "CHORD_MOD_CTRL \<equiv> 2"
abbreviation (input) CHORD_MOD_ALT :: u32 where "CHORD_MOD_ALT \<equiv> 4"
abbreviation (input) CHORD_MOD_META :: u32 where "CHORD_MOD_META \<equiv> 8"

definition merge_modifiers :: "u32 \<Rightarrow> u32 \<Rightarrow> u32" where
  "merge_modifiers user_mods xkb_mods =
     (let m0 = (if user_mods AND CHORD_MOD_SHIFT \<noteq> 0 \<or> xkb_mods AND 1 \<noteq> 0 then 1 else 0);
          m1 = (if xkb_mods AND 2 \<noteq> 0 then m0 OR 2 else m0);
          m2 = (if user_mods AND CHORD_MOD_CTRL \<noteq> 0 \<or> xkb_mods AND 4 \<noteq> 0 then m1 OR 4 else m1)
      in if user_mods AND CHORD_MOD_META \<noteq> 0 \<or> xkb_mods AND 8 \<noteq> 0 then m2 OR 8 else m2)"

datatype modifier = ModShift | ModAltGr | ModCtrl | ModMeta | ModAlt

fun modifier_code :: "modifier \<Rightarrow> int" where
  "modifier_code ModShift = KEY_LEFTSHIFT"
| "modifier_code ModAltGr = KEY_RIGHTALT"
| "modifier_code ModCtrl = KEY_LEFTCTRL"
| "modifier_code ModMeta = KEY_LEFTMETA"
| "modifier_code ModAlt = KEY_LEFTALT"

text \<open>AltGr is the raw key RightAlt, whose failure counts as a platform error.\<close>

fun modifier_action ::
  "modifier \<Rightarrow> CDirection \<Rightarrow> 'a input_world_scheme \<Rightarrow> 'a input_world_scheme \<times> YAError" where
  "modifier_action ModShift dir w = input_key_action CK_Shift dir w"
| "modifier_action ModAltGr dir w =
     (case input_linux_key_action_raw KEY_RIGHTALT dir w of (w', result) \<Rightarrow>
        (w', if result \<noteq> INPUT_BACKEND_OK then PlatformError else Success))"
| "modifier_action ModCtrl dir w = input_key_action CK_Control dir w"
| "modifier_action ModMeta dir w = input_key_action CK_Meta dir w"
| "modifier_action ModAlt dir w = input_key_action CK_Alt dir w"

text \<open>The modifiers of a mask, in the order they are pressed; Alt is the user's only.\<close>

definition wanted_modifiers :: "u32 \<Rightarrow> bool \<Rightarrow> modifier list" where
  "wanted_modifiers mods_mask user_alt =
     (if mods_mask AND 1 \<noteq> 0 then [ModShift] else []) @
     (if mods_mask AND 2 \<noteq> 0 then [ModAltGr] else []) @
     (if mods_mask AND 4 \<noteq> 0 then [ModCtrl] else []) @
     (if mods_mask AND 8 \<noteq> 0 then [ModMeta] else []) @
     (if user_alt then [ModAlt] else [])"

text \<open>
  \<open>pressed\<close> is \<open>pressed_state\<close>: the modifiers pressed, the latest first, which is the order in
  which both the error paths and \<open>release_modifiers_unified\<close> release them.
\<close>

fun release_modifiers_unified :: "modifier list \<Rightarrow> 'a input_world_scheme \<Rightarrow> 'a input_world_scheme" where
  "release_modifiers_unified [] w = w"
| "release_modifiers_unified (m # ms) w =
     release_modifiers_unified ms (fst (modifier_action m Release w))"

fun press_from ::
  "modifier list \<Rightarrow> modifier list \<Rightarrow> 'a input_world_scheme \<Rightarrow>
   'a input_world_scheme \<times> YAError \<times> modifier list" where
  "press_from [] pressed w = (w, Success, pressed)"
| "press_from (m # ms) pressed w =
     (case modifier_action m Press w of (w', err) \<Rightarrow>
        if err \<noteq> Success then (release_modifiers_unified pressed w', err, pressed)
        else press_from ms (m # pressed) w')"

definition press_modifiers_unified ::
  "u32 \<Rightarrow> bool \<Rightarrow> 'a input_world_scheme \<Rightarrow> 'a input_world_scheme \<times> YAError \<times> modifier list" where
  "press_modifiers_unified mods_mask user_alt w = press_from (wanted_modifiers mods_mask user_alt) [] w"

section \<open>Characters and function keys\<close>

definition inject_main_key ::
  "int \<Rightarrow> u32 \<Rightarrow> CDirection \<Rightarrow> 'a input_world_scheme \<Rightarrow> 'a input_world_scheme \<times> input_linux_status" where
  "inject_main_key evdev final_mods dir w =
     (if dir = Click \<and> final_mods \<noteq> 0 then
        case input_linux_key_action_raw evdev Press w of (w1, result) \<Rightarrow>
          if result = INPUT_BACKEND_OK then input_linux_key_action_raw evdev Release w1 else (w1, result)
      else input_linux_key_action_raw evdev dir w)"

definition input_char_linux_unified ::
  "i32 \<Rightarrow> u32 \<Rightarrow> CDirection \<Rightarrow> 'a input_world_scheme \<Rightarrow> 'a input_world_scheme \<times> YAError" where
  "input_char_linux_unified codepoint user_mods dir w =
     (case map_char_to_evdev_linux (xkb w) codepoint of
        (Success, Some (evdev, xkb_mods)) \<Rightarrow>
          let final_mods = merge_modifiers user_mods xkb_mods;
              user_alt = (user_mods AND CHORD_MOD_ALT \<noteq> 0)
          in case press_modifiers_unified final_mods user_alt w of (w1, err, pressed) \<Rightarrow>
             if err \<noteq> Success then clipboard_paste_text (encode_codepoint_to_utf8 codepoint) w1
             else case inject_main_key evdev final_mods dir w1 of (w2, result) \<Rightarrow>
               let w3 = release_modifiers_unified pressed w2 in
               if result \<noteq> INPUT_BACKEND_OK
               then clipboard_paste_text (encode_codepoint_to_utf8 codepoint) w3
               else (w3, Success)
      | _ \<Rightarrow> clipboard_paste_text (encode_codepoint_to_utf8 codepoint) w)"

definition input_function_key_linux ::
  "CKey \<Rightarrow> u32 \<Rightarrow> CDirection \<Rightarrow> 'a input_world_scheme \<Rightarrow> 'a input_world_scheme \<times> YAError" where
  "input_function_key_linux key user_mods dir w =
     (let user_alt = (user_mods AND CHORD_MOD_ALT \<noteq> 0);
          m0 = (if user_mods AND CHORD_MOD_SHIFT \<noteq> 0 then 1 else 0);
          m1 = (if user_mods AND CHORD_MOD_CTRL \<noteq> 0 then m0 OR 4 else m0);
          mods_mask = (if user_mods AND CHORD_MOD_META \<noteq> 0 then m1 OR 8 else m1)
      in case press_modifiers_unified mods_mask user_alt w of (w1, err, pressed) \<Rightarrow>
         if err \<noteq> Success then (w1, err)
         else case input_key_action key dir w1 of (w2, err2) \<Rightarrow>
           (release_modifiers_unified pressed w2, err2))"

definition keyboard_char ::
  "i32 \<Rightarrow> u32 \<Rightarrow> CDirection \<Rightarrow> 'a input_world_scheme \<Rightarrow> 'a input_world_scheme \<times> YAError" where
  "keyboard_char codepoint mods dir w = input_char_linux_unified codepoint mods dir w"

definition keyboard_function_key ::
  "CKey \<Rightarrow> u32 \<Rightarrow> CDirection \<Rightarrow> 'a input_world_scheme \<Rightarrow> 'a input_world_scheme \<times> YAError" where
  "keyboard_function_key key mods dir w = input_function_key_linux key mods dir w"

section \<open>Chords on a device that accepts writes\<close>

definition presses :: "modifier list \<Rightarrow> (int \<times> int \<times> i32) list" where
  "presses ms = concat (map (\<lambda>m. key_events (modifier_code m) Press) ms)"

definition releases :: "modifier list \<Rightarrow> (int \<times> int \<times> i32) list" where
  "releases ms = concat (map (\<lambda>m. key_events (modifier_code m) Release) ms)"

definition chord_events :: "modifier list \<Rightarrow> int \<Rightarrow> CDirection \<Rightarrow> (int \<times> int \<times> i32) list" where
  "chord_events ms key dir = presses ms @ key_events key dir @ releases (rev ms)"

definition modifier_keys :: "modifier list \<Rightarrow> u16 set" where
  "modifier_keys ms = (\<lambda>m. word_of_int (modifier_code m)) ` set ms"

lemma presses_simps [simp]:
  "presses [] = []" "presses (m # ms) = key_events (modifier_code m) Press @ presses ms"
  "releases [] = []" "releases (m # ms) = key_events (modifier_code m) Release @ releases ms"
  by (simp_all add: presses_def releases_def)

lemma modifier_keys_simps [simp]:
  "modifier_keys [] = {}" "modifier_keys (m # ms) = insert (word_of_int (modifier_code m)) (modifier_keys ms)"
  "modifier_keys (rev ms) = modifier_keys ms"
  by (simp_all add: modifier_keys_def)

lemma length_presses [simp]: "length (presses ms) = 2 * length ms" "length (releases ms) = 2 * length ms"
  by (induction ms) auto

lemma held_presses [simp]:
  "held_after S (map event_of (presses ms)) = S \<union> modifier_keys ms"
  "held_after S (map event_of (releases ms)) = S - modifier_keys ms"
  by (induction ms arbitrary: S) (auto simp del: key_events.simps)

lemma modifier_keycodes [simp]:
  "ckey_to_linux_keycode CK_Shift = KEY_LEFTSHIFT" "ckey_to_linux_keycode CK_Control = KEY_LEFTCTRL"
  "ckey_to_linux_keycode CK_Meta = KEY_LEFTMETA" "ckey_to_linux_keycode CK_Alt = KEY_LEFTALT"
  "ckey_to_linux_keycode CK_V = KEY_V" "ckey_to_linux_keycode CK_Insert = KEY_INSERT"
  by code_simp+

lemma modifier_action_ok:
  "writable w \<Longrightarrow> modifier_action m dir w = (logged (key_events (modifier_code m) dir) w, Success)"
  by (cases m) (simp_all add: key_action_ok key_action_raw_ok)

lemma release_modifiers_ok:
  "writable w \<Longrightarrow> release_modifiers_unified ms w = logged (releases ms) w"
  by (induction ms arbitrary: w) (auto simp: modifier_action_ok)

lemma press_from_ok:
  "writable w \<Longrightarrow> press_from ms pressed w = (logged (presses ms) w, Success, rev ms @ pressed)"
  by (induction ms arbitrary: w pressed) (auto simp: modifier_action_ok)

lemma inject_main_key_ok:
  "writable w \<Longrightarrow> inject_main_key key m dir w = (logged (key_events key dir) w, INPUT_BACKEND_OK)"
  by (cases dir) (auto simp: inject_main_key_def key_action_raw_ok)

lemma held_chord:
  "held_after S (map event_of (chord_events ms key dir)) =
     (if dir = Press then insert (word_of_int key) S - modifier_keys ms
      else S - modifier_keys ms - {word_of_int key})"
  by (cases dir) (auto simp: chord_events_def simp del: key_events.simps)

section \<open>When one write fails\<close>

lemma emit_seq_status: "snd (emit_seq es w) \<in> {INPUT_BACKEND_OK, INPUT_BACKEND_ERROR_DEVICE}"
proof (induction es arbitrary: w)
  case (Cons e es)
  obtain t c v where e: "e = (t, c, v)" by (cases e)
  with Cons show ?case by (auto simp: emit_seq.simps split: prod.splits)
qed (simp add: emit_seq.simps)

lemma modifier_action_emit:
  assumes "0 \<le> sint (uinput_fd w)"
  shows "modifier_action m Press w =
    (case emit_seq (key_events (modifier_code m) Press) w of (w', r) \<Rightarrow>
       (w', if r = INPUT_BACKEND_OK then Success else PlatformError))"
  using assms emit_seq_status [of "key_events (modifier_code m) Press" w]
  by (cases m) (auto simp: input_key_action_def translated_def input_linux_key_action_def
      input_linux_key_action_raw_def split: prod.splits simp del: key_events.simps)

lemma emit_seq_first_failure:
  assumes "write_results w = replicate n True @ [False]" "n < length es"
  shows "emit_seq es w = ((logged (take n es) w)\<lparr>write_results := []\<rparr>, INPUT_BACKEND_ERROR_DEVICE)"
  using assms
proof (induction es arbitrary: w n)
  case (Cons e es)
  obtain t c v where e: "e = (t, c, v)" by (cases e)
  show ?case
  proof (cases n)
    case 0
    with Cons.prems e show ?thesis by (simp add: emit_seq.simps emit_event_def)
  next
    case (Suc k)
    let ?w = "logged [e] w"
    have "emit_event t c v w = (?w, True)"
      using Cons.prems e Suc by (simp add: emit_event_def logged_def event_of_def)
    moreover have "emit_seq es ?w = ((logged (take k es) ?w)\<lparr>write_results := []\<rparr>, INPUT_BACKEND_ERROR_DEVICE)"
      using Cons.prems Suc by (intro Cons.IH) auto
    ultimately show ?thesis using e Suc by (simp add: emit_seq.simps)
  qed
qed simp

lemma emit_seq_before_failure:
  assumes "write_results w = replicate n True @ r" "length es \<le> n"
  shows "emit_seq es w = (logged es w, INPUT_BACKEND_OK)"
  using assms
proof (induction es arbitrary: w n)
  case (Cons e es)
  obtain t c v k where e: "e = (t, c, v)" and k: "n = Suc k" using Cons.prems(2) by (cases e, cases n) auto
  have "emit_event t c v w = (logged [e] w, True)"
    using Cons.prems e k by (simp add: emit_event_def logged_def event_of_def)
  moreover have "emit_seq es (logged [e] w) = (logged es (logged [e] w), INPUT_BACKEND_OK)"
    using Cons.prems k by (intro Cons.IH [of _ k]) auto
  ultimately show ?case using e by (simp add: emit_seq.simps)
qed (simp add: emit_seq.simps)

text \<open>The state in which a press fails at write number \<open>n\<close>, before and after the roll back.\<close>

lemma press_from_failure:
  assumes "write_results w = replicate n True @ [False]" "n < 2 * length ms" "0 \<le> sint (uinput_fd w)"
  shows "press_from ms pressed w =
    (logged (releases (rev (take (n div 2) ms) @ pressed))
       ((logged (take n (presses ms)) w)\<lparr>write_results := []\<rparr>), PlatformError, rev (take (n div 2) ms) @ pressed)"
  using assms
proof (induction ms arbitrary: w n pressed)
  case (Cons m ms)
  let ?es = "key_events (modifier_code m) Press"
  have two: "length ?es = 2" by simp
  show ?case
  proof (cases "n < 2")
    case True
    let ?w = "(logged (take n ?es) w)\<lparr>write_results := []\<rparr>"
    have w: "writable ?w" using Cons.prems(3) by (simp add: writable_def)
    have "modifier_action m Press w = (?w, PlatformError)"
      using emit_seq_first_failure [OF Cons.prems(1), of ?es] True two Cons.prems(3)
      by (simp add: modifier_action_emit del: key_events.simps)
    with True w two show ?thesis
      by (simp add: release_modifiers_ok take_append del: key_events.simps)
  next
    case False
    then obtain k where n: "n = Suc (Suc k)" by (cases n; cases "n - 1") auto
    let ?w = "logged ?es w"
    have "modifier_action m Press w = (?w, Success)"
      using emit_seq_before_failure [OF Cons.prems(1), of ?es] False two Cons.prems(3)
      by (simp add: modifier_action_emit del: key_events.simps)
    moreover have "press_from ms (m # pressed) ?w =
      (logged (releases (rev (take (k div 2) ms) @ m # pressed))
         ((logged (take k (presses ms)) ?w)\<lparr>write_results := []\<rparr>), PlatformError,
       rev (take (k div 2) ms) @ m # pressed)"
      using Cons.prems n by (intro Cons.IH) auto
    moreover have "take n (presses (m # ms)) = ?es @ take k (presses ms)"
      using n by simp
    moreover have "take (n div 2) (m # ms) = m # take (k div 2) ms" using n by simp
    ultimately show ?thesis by (simp del: key_events.simps presses_simps)
  qed
qed simp

lemma take_presses:
  assumes "n < 2 * length ms"
  shows "take n (presses ms) = presses (take (n div 2) ms) @
     (if even n then [] else [(EV_KEY, modifier_code (ms ! (n div 2)), 1)])"
  using assms
proof (induction ms arbitrary: n)
  case (Cons m ms)
  show ?case
  proof (cases "n < 2")
    case True
    then consider "n = 0" | "n = 1" by linarith
    then show ?thesis by cases simp_all
  next
    case False
    then obtain k where n: "n = Suc (Suc k)" by (cases n; cases "n - 1") auto
    with Cons show ?thesis by simp
  qed
qed simp

lemma held_key_down: "held_after S [event_of (EV_KEY, key, 1)] = insert (word_of_int key) S"
  by (simp add: event_of_def)

lemma distinct_wanted [simp]: "distinct (wanted_modifiers mods_mask alt)"
  by (simp add: wanted_modifiers_def)

lemma modifier_code_inj: "word_of_int (modifier_code m) = (word_of_int (modifier_code m') :: u16) \<longleftrightarrow> m = m'"
  by (cases m; cases m') simp_all

lemma nth_not_in_take:
  assumes "distinct xs" "k < length xs"
  shows "xs ! k \<notin> set (take k xs)"
proof
  assume "xs ! k \<in> set (take k xs)"
  then obtain j where "j < k" "take k xs ! j = xs ! k" using assms(2) by (auto simp: in_set_conv_nth)
  with assms show False by (simp add: nth_eq_iff_index_eq)
qed

section \<open>The paste fallback when everything succeeds\<close>

lemma logged_clipboard [simp]:
  "clip_log (logged es v) = clip_log v" "set_results (logged es v) = set_results v"
  "sys_clip (logged es v) = sys_clip v" "use_ctrl_v (logged es v) = use_ctrl_v v"
  by (simp_all add: logged_def)

lemma clipboard_set_ok:
  assumes "valid_utf8 (cstr u)" "list_all id (set_results v)"
  shows "\<exists>w'. clipboard_set u v = (w', Success) \<and> sys_clip w' = Some (cstr u) \<and> clip_log w' = clip_log v @ [cstr u] \<and>
    list_all id (set_results w') \<and> ev_log w' = ev_log v \<and> uinput_fd w' = uinput_fd v \<and>
    write_results w' = write_results v \<and> use_ctrl_v w' = use_ctrl_v v"
  using assms by (cases "set_results v") (auto simp: clipboard_set_def Let_def)

lemma paste_keys_ok:
  "writable v \<Longrightarrow> 0 \<le> ckey_to_linux_keycode modifier \<Longrightarrow> 0 \<le> ckey_to_linux_keycode key \<Longrightarrow>
   paste_keys modifier key v = (logged (key_events (ckey_to_linux_keycode modifier) Press @
     key_events (ckey_to_linux_keycode key) Click @ key_events (ckey_to_linux_keycode modifier) Release) v, Success)"
  by (simp add: paste_keys_def key_action_ok del: key_events.simps)

lemma clipboard_set_log: "\<exists>ts. clip_log (fst (clipboard_set u v)) = clip_log v @ ts"
  by (auto simp: clipboard_set_def Let_def split: list.splits)

lemma clipboard_paste_ok:
  assumes "writable w" "clip_enabled w" "list_all id (set_results w)" "cstr t \<noteq> []" "valid_utf8 (cstr t)"
  shows "\<exists>w' ts. clipboard_paste_text t w = (w', Success) \<and> clip_log w' = clip_log w @ cstr t # ts"
proof -
  obtain w1 where w1: "clipboard_set t w = (w1, Success)" "clip_log w1 = clip_log w @ [cstr t]" "writable w1"
    using clipboard_set_ok [OF assms(5,3)] assms(1) by (auto simp: writable_def)
  obtain es where p: "(if use_ctrl_v w1 then paste_keys CK_Control CK_V w1 else paste_keys CK_Shift CK_Insert w1)
      = (logged es w1, Success)"
    using w1(3) by (cases "use_ctrl_v w1") (auto simp: paste_keys_ok simp del: key_events.simps)
  then show ?thesis
    using assms(2,4) w1 p clipboard_set_log [of _ "logged es w1"]
    by (fastforce simp: clipboard_paste_text_def Let_def split: option.splits)
qed

section \<open>Properties\<close>

text \<open>C12.
  A character the layout can type is typed as one chord: on a device that accepts writes, the
  log grows by the presses of the modifiers (those of the request joined with those of the
  layout), the key, and the releases of the modifiers in reverse order, and nothing else.
  Afterwards no modifier of the chord is held, and the key is held only after a Press.
\<close>

theorem typed_char_is_chord:
  assumes "writable w" and "map_char_to_evdev_linux (xkb w) codepoint = (Success, Some (key, xkb_mods))"
    and "ms = wanted_modifiers (merge_modifiers mods xkb_mods) (mods AND 4 \<noteq> 0)"
  shows "\<exists>w'. keyboard_char codepoint mods dir w = (w', Success) \<and>
    ev_log w' = ev_log w @ map event_of (chord_events ms key dir) \<and>
    held w' = (if dir = Press then insert (word_of_int key) (held w) - modifier_keys ms
               else held w - modifier_keys ms - {word_of_int key}) \<and> clip_log w' = clip_log w"
proof -
  have "keyboard_char codepoint mods dir w = (logged (chord_events ms key dir) w, Success)"
    using assms by (simp add: keyboard_char_def input_char_linux_unified_def press_modifiers_unified_def
        press_from_ok inject_main_key_ok release_modifiers_ok chord_events_def Let_def del: key_events.simps)
  then show ?thesis by (simp add: held_def held_chord)
qed

text \<open>
  A function key with modifiers is the same kind of chord: exactly the requested modifiers are
  pressed around the key and none of them is held afterwards.
\<close>

theorem function_key_is_chord:
  assumes "writable w" and "0 \<le> ckey_to_linux_keycode key"
  shows "\<exists>w' ms. keyboard_function_key key mods dir w = (w', Success) \<and>
    set ms = {m. (m = ModShift \<and> mods AND 1 \<noteq> 0) \<or> (m = ModCtrl \<and> mods AND 2 \<noteq> 0) \<or>
                 (m = ModAlt \<and> mods AND 4 \<noteq> 0) \<or> (m = ModMeta \<and> mods AND 8 \<noteq> 0)} \<and>
    ev_log w' = ev_log w @ map event_of (chord_events ms (ckey_to_linux_keycode key) dir) \<and>
    held w' \<inter> modifier_keys ms = {}"
proof -
  let ?m0 = "(if mods AND 1 \<noteq> 0 then 1 else 0) :: u32"
  let ?m1 = "if mods AND 2 \<noteq> 0 then ?m0 OR 4 else ?m0"
  let ?mm = "if mods AND 8 \<noteq> 0 then ?m1 OR 8 else ?m1"
  let ?ms = "wanted_modifiers ?mm (mods AND 4 \<noteq> 0)"
  have f: "keyboard_function_key key mods dir w =
      (logged (chord_events ?ms (ckey_to_linux_keycode key) dir) w, Success)"
    using assms by (simp add: keyboard_function_key_def input_function_key_linux_def press_modifiers_unified_def
        press_from_ok key_action_ok release_modifiers_ok chord_events_def Let_def del: key_events.simps)
  have ms: "set ?ms = {m. (m = ModShift \<and> mods AND 1 \<noteq> 0) \<or> (m = ModCtrl \<and> mods AND 2 \<noteq> 0) \<or>
                 (m = ModAlt \<and> mods AND 4 \<noteq> 0) \<or> (m = ModMeta \<and> mods AND 8 \<noteq> 0)}"
    by (cases "mods AND 1 = 0"; cases "mods AND 2 = 0"; cases "mods AND 4 = 0"; cases "mods AND 8 = 0")
      (auto simp: wanted_modifiers_def)
  show ?thesis
    by (rule exI, rule exI [of _ ?ms], intro conjI, rule f, rule ms)
      (auto simp: held_def held_chord)
qed

text \<open>C13.
  When the device refuses a write while modifiers are being pressed, the chord fails and every
  modifier already pressed is released.  If the refused write is a key event nothing of the
  chord stays held; if it is the synchronisation after a key event, that modifier stays held:
  its press was written, but it is not among those released.
\<close>

theorem failed_modifiers_rolled_back:
  assumes "write_results w = replicate n True @ [False]" and "0 \<le> sint (uinput_fd w)"
    and "ms = wanted_modifiers mods_mask alt" and "n < 2 * length ms"
  shows "\<exists>w' pressed. press_modifiers_unified mods_mask alt w = (w', PlatformError, pressed) \<and>
    held w' = (if even n then held w - modifier_keys (take (n div 2) ms)
      else insert (word_of_int (modifier_code (ms ! (n div 2)))) (held w - modifier_keys (take (n div 2) ms)))"
proof -
  let ?k = "n div 2"
  have "word_of_int (modifier_code (ms ! ?k)) \<notin> modifier_keys (take ?k ms)"
    using nth_not_in_take [of ms ?k] less_mult_imp_div_less [of n "length ms" 2] assms(3,4)
    by (auto simp: modifier_keys_def modifier_code_inj)
  then have eq: "held_after S (map event_of (take n (presses ms))) - modifier_keys (take ?k ms) =
    (if even n then S - modifier_keys (take ?k ms)
     else insert (word_of_int (modifier_code (ms ! ?k))) (S - modifier_keys (take ?k ms)))" for S
    using assms(4) by (auto simp: take_presses held_key_down simp del: held_after.simps(2))
  show ?thesis
    using press_from_failure [OF assms(1,4,2), of "[]"] assms(3)
    by (simp add: press_modifiers_unified_def held_def eq [unfolded assms(3)])
qed

text \<open>C14.
  Typing through the clipboard restores it: when the text is well-formed, every write to the
  clipboard and the device succeeds and the clipboard held some text, the text is put on the
  clipboard, exactly the configured paste chord is sent, and the old text is put back.
\<close>

theorem paste_restores_clipboard:
  assumes "writable w" "clip_enabled w" "list_all id (set_results w)"
    and "cstr t \<noteq> []" "valid_utf8 (cstr t)" "sys_clip w = Some b" "0 \<notin> set b" "valid_utf8 b"
  shows "\<exists>w'. clipboard_paste_text t w = (w', Success) \<and> sys_clip w' = Some b \<and>
    clip_log w' = clip_log w @ [cstr t, b] \<and>
    ev_log w' = ev_log w @ map event_of (if use_ctrl_v w then chord_events [ModCtrl] KEY_V Click
                                         else chord_events [ModShift] KEY_INSERT Click)"
proof -
  have b: "cstr b = b" using assms(7) by (auto simp: cstr_def takeWhile_eq_all_conv)
  obtain w1 where w1: "clipboard_set t w = (w1, Success)" "clip_log w1 = clip_log w @ [cstr t]"
      "list_all id (set_results w1)" "ev_log w1 = ev_log w" "writable w1" "use_ctrl_v w1 = use_ctrl_v w"
    using clipboard_set_ok [OF assms(5,3)] assms(1) by (auto simp: writable_def)
  let ?es = "if use_ctrl_v w then chord_events [ModCtrl] KEY_V Click else chord_events [ModShift] KEY_INSERT Click"
  have p: "(if use_ctrl_v w1 then paste_keys CK_Control CK_V w1 else paste_keys CK_Shift CK_Insert w1) = (logged ?es w1, Success)"
    using w1(5,6) by (simp add: paste_keys_ok chord_events_def del: key_events.simps)
  obtain w2 where w2: "clipboard_set b (logged ?es w1) = (w2, Success)" "sys_clip w2 = Some b"
      "clip_log w2 = clip_log w1 @ [b]" "ev_log w2 = ev_log w1 @ map event_of ?es"
    using clipboard_set_ok [of b "logged ?es w1"] assms(8) w1(3) b by (auto simp only: logged_clipboard logged_simps)
  have "clipboard_paste_text t w = (w2, Success)"
    using assms(2,4,6,7) w1(1) p w2(1) by (simp add: clipboard_paste_text_def clipboard_get_def Let_def)
  with w1 w2 show ?thesis by simp
qed

section \<open>The encoder makes well-formed UTF-8, except for surrogates\<close>

lemma uint_or_add:
  assumes "uint (y :: 'a::len word) < 2 ^ n" and "m AND mask n = 0"
  shows "uint (m OR y) = uint m + uint y"
proof -
  have y: "take_bit n y = y"
    using assms(1) by (simp add: word_uint_eq_iff unsigned_take_bit_eq take_bit_int_eq_self)
  have "m AND y = 0"
    by (metis assms(2) y take_bit_eq_mask and.assoc and.commute and_zero_eq)
  then have "uint m AND uint y = 0" by (metis unsigned_0 unsigned_and_eq)
  then show ?thesis by (simp add: unsigned_or_eq disjunctive_add_eq_or)
qed

lemma uint_i32: "0 \<le> sint (c :: i32) \<Longrightarrow> uint c = sint c"
  using sint_nonneg_unat [of c] by (simp only: uint_nat)

lemma uint_shift:
  assumes "0 \<le> sint (c :: i32)"
  shows "uint (signed_drop_bit k c) = sint c div 2 ^ k"
proof -
  have "sint (signed_drop_bit k c) = sint c div 2 ^ k"
    by (simp add: sint_signed_drop_bit_eq drop_bit_eq_div)
  moreover from this assms have "0 \<le> sint (signed_drop_bit k c)" by (simp add: pos_imp_zdiv_nonneg_iff)
  ultimately show ?thesis by (simp add: uint_i32)
qed

lemma uint_byte: "uint (x :: i32) < 256 \<Longrightarrow> uint (ucast x :: u8) = uint x"
  by (simp add: unsigned_ucast_eq take_bit_int_eq_self)

lemma tail_byte:
  assumes "0 \<le> sint (c :: i32)"
  shows "uint (ucast (0x80 OR (signed_drop_bit k c AND 0x3F)) :: u8) = 128 + sint c div 2 ^ k mod 64"
proof -
  have m: "(63 :: int) = mask 6" "(63 :: i32) = mask 6" by (simp_all add: mask_eq_exp_minus_1)
  have y: "uint (signed_drop_bit k c AND 0x3F) = sint c div 2 ^ k mod 64"
    by (simp add: unsigned_and_eq uint_shift [OF assms] m(1) take_bit_eq_mask [symmetric] take_bit_eq_mod)
  then have "uint (0x80 OR (signed_drop_bit k c AND 0x3F)) = 128 + sint c div 2 ^ k mod 64"
    by (subst uint_or_add [where n = 6]) (simp_all add: mask_eq_exp_minus_1)
  then show ?thesis by (subst uint_byte) simp_all
qed

lemmas tail_byte0 = tail_byte [where k = 0, simplified]

lemma lead_byte:
  assumes "0 \<le> sint (c :: i32)" "sint c div 2 ^ k < 2 ^ n" "m AND mask n = 0" "uint m + sint c div 2 ^ k < 256"
  shows "uint (ucast (m OR signed_drop_bit k c) :: u8) = uint m + sint c div 2 ^ k"
proof -
  have "uint (m OR signed_drop_bit k c) = uint m + sint c div 2 ^ k"
    using uint_or_add [of "signed_drop_bit k c" n m] assms by (simp add: uint_shift)
  with assms(4) show ?thesis by (subst uint_byte) simp_all
qed

lemma base64_digits:
  "(x :: int) = x div 2 ^ 18 * 2 ^ 18 + x div 2 ^ 12 mod 64 * 2 ^ 12 + x div 2 ^ 6 mod 64 * 2 ^ 6 + x mod 64"
proof -
  have "x div 2 ^ 12 = x div 64 div 64" "x div 2 ^ 18 = x div 64 div 64 div 64"
    by (simp_all add: div_mult2_eq [symmetric])
  moreover have "x = a * 64 + t \<Longrightarrow> a = b * 64 + r \<Longrightarrow> b = d * 64 + q \<Longrightarrow>
      x = d * 2 ^ 18 + q * 2 ^ 12 + r * 2 ^ 6 + t" for a b d q r t :: int
    by simp
  from this [OF div_mult_mod_eq [symmetric] div_mult_mod_eq [symmetric] div_mult_mod_eq [symmetric]]
  have "x = x div 64 div 64 div 64 * 2 ^ 18 + x div 64 div 64 mod 64 * 2 ^ 12 + x div 64 mod 64 * 2 ^ 6 + x mod 64" .
  ultimately show ?thesis by (simp only: power_one_right) simp
qed

lemma encode_valid_utf8:
  assumes "0 < sint c" "sint c < 0x110000"
  shows "valid_utf8 (cstr (encode_codepoint_to_utf8 c)) \<longleftrightarrow> \<not> (0xD800 \<le> sint c \<and> sint c \<le> 0xDFFF)"
proof -
  have n: "0 \<le> sint c" using assms by simp
  define p where "p = sint c div 2 ^ 18"
  define q where "q = sint c div 2 ^ 12 mod 64"
  define r where "r = sint c div 2 ^ 6 mod 64"
  define t where "t = sint c mod 64"
  have c: "sint c = p * 2 ^ 18 + q * 2 ^ 12 + r * 2 ^ 6 + t"
    and rng: "0 \<le> q" "q < 64" "0 \<le> r" "r < 64" "0 \<le> t" "t < 64" "0 \<le> p"
    subgoal unfolding p_def q_def r_def t_def by (rule base64_digits)
    using n by (simp_all add: p_def q_def r_def t_def pos_imp_zdiv_nonneg_iff)
  note tails = tail_byte0 [OF n] tail_byte [OF n, of 6] tail_byte [OF n, of 12]
  note byte = word_le_def continuation_def word_uint_eq_iff [where 'a = 8]
  have bytes: "uint (ucast (0x80 OR (c AND 0x3F)) :: u8) = 128 + t"
    "uint (ucast (0x80 OR (signed_drop_bit 6 c AND 0x3F)) :: u8) = 128 + r"
    "uint (ucast (0x80 OR (signed_drop_bit 12 c AND 0x3F)) :: u8) = 128 + q"
    using tails by (simp_all add: q_def r_def t_def)
  consider (one) "sint c < 0x80" | (two) "0x80 \<le> sint c" "sint c < 0x800"
    | (three) "0x800 \<le> sint c" "sint c < 0x10000" | (four) "0x10000 \<le> sint c" by linarith
  then show ?thesis
  proof cases
    case one
    have "uint (ucast c :: u8) = sint c"
      using one n by (subst uint_byte) (simp_all add: uint_i32)
    with one assms show ?thesis by (simp add: encode_codepoint_to_utf8_def cstr_def byte)
  next
    case two
    have "p = 0" using two rng c by simp
    have "q = 0" using two rng c by simp
    with \<open>p = 0\<close> c rng have "sint c div 2 ^ 6 = r" by simp
    then have b: "uint (ucast (0xC0 OR signed_drop_bit 6 c) :: u8) = 0xC0 + r"
      using two rng c \<open>p = 0\<close> \<open>q = 0\<close> by (subst lead_byte [OF n, where n = 5]) (simp_all add: mask_eq_exp_minus_1)
    have form: "cstr (encode_codepoint_to_utf8 c) =
        [ucast (0xC0 OR signed_drop_bit 6 c), ucast (0x80 OR (c AND 0x3F))]"
      using two rng b bytes by (simp add: encode_codepoint_to_utf8_def cstr_def byte)
    have "2 \<le> r" "r < 32" using two rng c \<open>p = 0\<close> \<open>q = 0\<close> by simp_all
    then show ?thesis using two rng b bytes by (simp add: form byte)
  next
    case three
    have "p = 0" using three rng c by simp
    then have "sint c = q * 2 ^ 12 + (r * 2 ^ 6 + t)" using c by simp
    moreover have "0 \<le> r * 2 ^ 6 + t" "r * 2 ^ 6 + t < 2 ^ 12" using rng by simp_all
    ultimately have d: "sint c div 2 ^ 12 = q" by simp
    have "q < 16" using three rng c \<open>p = 0\<close> by simp
    with d have b: "uint (ucast (0xE0 OR signed_drop_bit 12 c) :: u8) = 0xE0 + q"
      by (subst lead_byte [OF n, where n = 4]) (simp_all add: mask_eq_exp_minus_1)
    have form: "cstr (encode_codepoint_to_utf8 c) =
        [ucast (0xE0 OR signed_drop_bit 12 c), ucast (0x80 OR (signed_drop_bit 6 c AND 0x3F)),
         ucast (0x80 OR (c AND 0x3F))]"
      using three rng b bytes by (simp add: encode_codepoint_to_utf8_def cstr_def byte)
    have "q = 13 \<and> \<not> r \<le> 31 \<longleftrightarrow> 0xD800 \<le> sint c \<and> sint c \<le> 0xDFFF"
    proof
      assume s: "0xD800 \<le> sint c \<and> sint c \<le> 0xDFFF"
      then have "q = 13" using c rng \<open>p = 0\<close> by simp
      with s show "q = 13 \<and> \<not> r \<le> 31" using c rng \<open>p = 0\<close> by simp
    qed (use c rng \<open>p = 0\<close> in simp)
    moreover have "q = 0 \<longrightarrow> 32 \<le> r" using three c rng \<open>p = 0\<close> by simp
    ultimately show ?thesis using rng b bytes \<open>q < 16\<close> by (auto simp: form byte)
  next
    case four
    have "p \<le> 4" using assms(2) c rng by simp
    have b: "uint (ucast (0xF0 OR signed_drop_bit 18 c) :: u8) = 0xF0 + p"
      using \<open>p \<le> 4\<close> by (subst lead_byte [OF n, where n = 3]) (simp_all add: mask_eq_exp_minus_1 p_def)
    have form: "cstr (encode_codepoint_to_utf8 c) =
        [ucast (0xF0 OR signed_drop_bit 18 c), ucast (0x80 OR (signed_drop_bit 12 c AND 0x3F)),
         ucast (0x80 OR (signed_drop_bit 6 c AND 0x3F)), ucast (0x80 OR (c AND 0x3F))]"
      using four assms(2) rng b bytes by (simp add: encode_codepoint_to_utf8_def cstr_def byte)
    have "p = 0 \<longrightarrow> 16 \<le> q" "p = 4 \<longrightarrow> q \<le> 15"
      using four assms(2) c rng by simp_all
    then show ?thesis using four rng b bytes \<open>p \<le> 4\<close> by (auto simp: form byte)
  qed
qed

text \<open>
  A character the layout cannot type goes through the clipboard, unless it is a surrogate: the
  encoder makes ill-formed UTF-8 of surrogates, the clipboard refuses it as invalid input and
  nothing is changed; every other character (with clipboard and device accepting writes) is
  put on the clipboard, as its UTF-8 form, and pasted.
\<close>

theorem unmapped_char_pasted:
  assumes "snd (map_char_to_evdev_linux (xkb w) codepoint) = None" "0 < sint codepoint" "sint codepoint < 0x110000"
    and "clip_enabled w" "writable w" "list_all id (set_results w)"
  shows "\<exists>w' ts. (if 0xD800 \<le> sint codepoint \<and> sint codepoint \<le> 0xDFFF
      then keyboard_char codepoint mods dir w = (w, InvalidInput)
      else keyboard_char codepoint mods dir w = (w', Success) \<and>
        clip_log w' = clip_log w @ cstr (encode_codepoint_to_utf8 codepoint) # ts)"
proof -
  let ?t = "encode_codepoint_to_utf8 codepoint"
  have k: "keyboard_char codepoint mods dir w = clipboard_paste_text ?t w"
    using assms(1) by (cases "map_char_to_evdev_linux (xkb w) codepoint")
      (auto simp: keyboard_char_def input_char_linux_unified_def split: YAError.splits)
  have ne: "cstr ?t \<noteq> []"
    using encode_nonzero [OF assms(2,3)] by (cases ?t) (auto simp: cstr_def encode_codepoint_to_utf8_def split: if_splits)
  show ?thesis
  proof (cases "0xD800 \<le> sint codepoint \<and> sint codepoint \<le> 0xDFFF")
    case True
    then have "\<not> valid_utf8 (cstr ?t)" using encode_valid_utf8 [OF assms(2,3)] by simp
    with True ne assms(4) show ?thesis
      by (simp add: k clipboard_paste_text_def clipboard_set_def Let_def)
  next
    case False
    with clipboard_paste_ok [OF assms(5,4,6) ne] encode_valid_utf8 [OF assms(2,3)] show ?thesis
      by (simp add: k) blast
  qed
qed

section \<open>Witnesses\<close>

text \<open>A device that accepts every write, with a key map that types nothing.\<close>

definition open_world :: input_world where
  "open_world = input_dev.extend open_dev
     \<lparr>clip_enabled = True, use_ctrl_v = True, xkb = xkb_global_init, sys_clip = Some [0x78], set_results = [],
      clip_log = []\<rparr>"

lemma open_world_simps [simp]:
  "writable open_world" "clip_enabled open_world" "set_results open_world = []" "use_ctrl_v open_world"
  "sys_clip open_world = Some [0x78]" "clip_log open_world = []" "ev_log open_world = []" "write_results open_world = []"
  "uinput_fd open_world = 5" "xkb open_world = xkb_global_init"
  by (simp_all add: open_world_def open_dev_def input_dev.defs writable_def)

text \<open>The same device with the key map of \<open>tiny_keymap\<close>.\<close>

definition typing_world :: input_world where
  "typing_world = open_world\<lparr>xkb := \<lparr>xkb_initialized = True, layout_source = ''X11'',
     xkb_cache = [\<lparr>e_codepoint = 0x41, e_evdev_key = KEY_A, e_mods_mask = 1\<rparr>]\<rparr>\<rparr>"

theorem typed_char_is_chord_witness:
  "\<exists>w'. keyboard_char 0x41 2 Click typing_world = (w', Success) \<and> length (ev_log w') = 12"
proof -
  have w: "writable typing_world" by (simp add: typing_world_def writable_def)
  have m: "map_char_to_evdev_linux (xkb typing_world) 0x41 = (Success, Some (KEY_A, 1))"
    by code_simp
  have ms: "wanted_modifiers (merge_modifiers 2 1) (2 AND 4 \<noteq> (0 :: u32)) = [ModShift, ModCtrl]"
    by code_simp
  show ?thesis
    using typed_char_is_chord [OF w m ms [symmetric], of Click]
    by (auto simp: typing_world_def chord_events_def)
qed

theorem function_key_is_chord_witness:
  "\<exists>w' ms. keyboard_function_key CK_V 6 Click open_world = (w', Success) \<and> set ms = {ModCtrl, ModAlt}"
proof -
  have "{m. (m = ModShift \<and> 6 AND 1 \<noteq> (0 :: u32)) \<or> (m = ModCtrl \<and> 6 AND 2 \<noteq> (0 :: u32)) \<or>
      (m = ModAlt \<and> 6 AND 4 \<noteq> (0 :: u32)) \<or> (m = ModMeta \<and> 6 AND 8 \<noteq> (0 :: u32))} = {ModCtrl, ModAlt}"
    by auto
  then show ?thesis
    using function_key_is_chord [of open_world CK_V 6 Click] by auto
qed

text \<open>Control and Alt, with the synchronisation after Alt refused.\<close>

definition faulty_world :: input_world where
  "faulty_world = open_world\<lparr>write_results := [True, True, True, False]\<rparr>"

theorem failed_modifiers_rolled_back_witness:
  "\<exists>w' pressed. press_modifiers_unified 4 True faulty_world = (w', PlatformError, pressed) \<and>
     held w' = {56}"
proof -
  have ms: "wanted_modifiers 4 True = [ModCtrl, ModAlt]" by code_simp
  have "write_results faulty_world = replicate 3 True @ [False]" "0 \<le> sint (uinput_fd faulty_world)"
    "ev_log faulty_world = []"
    by (simp_all add: faulty_world_def numeral_eq_Suc)
  from failed_modifiers_rolled_back [OF this(1,2) ms [symmetric]] this(3)
  show ?thesis by (auto simp: held_def)
qed

theorem paste_restores_clipboard_witness:
  "\<exists>w'. clipboard_paste_text [0x61, 0] open_world = (w', Success) \<and> sys_clip w' = Some [0x78]"
  using paste_restores_clipboard [of open_world "[0x61, 0]" "[0x78]"] by (auto simp: cstr_def)

theorem unmapped_char_pasted_witness:
  "keyboard_char 0xD834 0 Click open_world = (open_world, InvalidInput) \<and>
   (\<exists>w'. keyboard_char 0xE9 0 Click open_world = (w', Success) \<and> hd (clip_log w') = [0xC3, 0xA9])"
proof
  have m: "snd (map_char_to_evdev_linux xkb_global_init 0xD834) = None"
    "snd (map_char_to_evdev_linux xkb_global_init 0xE9) = None" by code_simp+
  have s: "cstr (encode_codepoint_to_utf8 0xE9) = [0xC3, 0xA9]" by code_simp
  show "keyboard_char 0xD834 0 Click open_world = (open_world, InvalidInput)"
    using unmapped_char_pasted [of open_world "0xD834" 0 Click] m by simp
  show "\<exists>w'. keyboard_char 0xE9 0 Click open_world = (w', Success) \<and> hd (clip_log w') = [0xC3, 0xA9]"
    using unmapped_char_pasted [of open_world "0xE9" 0 Click] m s by auto
qed

end
