(* ===== verification/Handler.thy ===== *)
theory Handler
  imports Event ClientManager MouseThrottle Keyboard
begin

text \<open>
  The event handlers of \<open>ya_server_handler.c\<close> (Linux build), with \<open>ya_authorize.c\<close> and
  \<open>ya_power_scripts.c\<close>, over the state of the whole server.

  \<open>server\<close> extends the input devices by the client table, the throttle and what the handlers
  read from the environment: the clock, the ports and hardware addresses, the descriptor of each
  connection, the outcome of the allocation of a response (\<open>malloc_ok\<close>), of the coming shell
  commands (\<open>system_results\<close>, success when there are none left) and of the coming calls of the Rust
  library that do not go through the virtual device (\<open>rust_results\<close>).

  A handler returns the state and the response, if any.  Its result is a \<open>run\<close>: a lookup in a
  damaged table may not end, and a null pointer is undefined behaviour.
\<close>

datatype rust_call = KeyWithCode char CDirection | MouseButton CButton CDirection

record server = input_world +
  svr_clients :: clients
  svr_throttle :: YAMouseThrottleState
  mono_now :: timespec
  session_sin_port :: u16
  command_sin_port :: u16
  macs_csv :: "u8 list option"
  primary_scale :: u32
  bev_fd :: "nat \<Rightarrow> i32"
  malloc_ok :: bool
  authorize_error :: "string option"
  exe_link :: "string option"
  script_exists :: "string \<Rightarrow> bool"
  system_results :: "int list"
  system_log :: "string list"
  rust_results :: "YAError list"
  rust_log :: "rust_call list"

type_synonym handler_result = "(server \<times> YAEvent option) run"
type_synonym handler_fn = "nat option \<Rightarrow> YAEvent \<Rightarrow> server \<Rightarrow> handler_result"

section \<open>Authorization\<close>

text \<open>The result and the thread's error text.\<close>

definition authorize :: "YAAuthorizeEventRequest option \<Rightarrow> bool \<times> string option" where
  "authorize request =
     (case request of
        None \<Rightarrow> (False, Some ''Unknown error'')
      | Some req \<Rightarrow>
          if version req < 1 then (False, Some ''Client version too low, upgrade please.'')
          else if client_type req \<noteq> 1 \<and> client_type req \<noteq> 2 then (False, Some ''Invalid client type'')
          else (True, None))"

section \<open>Power scripts\<close>

text \<open>
  \<open>dirname\<close> is the loop that cuts a path at its last slash, and leaves one without a slash as it
  is.  Buffers are \<open>PATH_MAX\<close> bytes; \<open>snprintf\<close> cuts what does not fit.
\<close>

definition PATH_MAX :: nat where "PATH_MAX = 4096"

definition dirname :: "string \<Rightarrow> string" where
  "dirname path =
     (if CHR ''/'' \<in> set path then rev (tl (dropWhile (\<lambda>c. c \<noteq> CHR ''/'') (rev path))) else path)"

definition ya_get_exe_dir :: "string option \<Rightarrow> string" where
  "ya_get_exe_dir link =
     (case link of
        Some path \<Rightarrow> if path = [] then ''.'' else dirname (take (PATH_MAX - 1) path)
      | None \<Rightarrow> ''.'')"

definition power_command :: "string option \<Rightarrow> (string \<Rightarrow> bool) \<Rightarrow> string \<Rightarrow> string" where
  "power_command link exists_file basename =
     (let exe_dir = ya_get_exe_dir link;
          path1 = take (PATH_MAX - 1) (exe_dir @ ''/scripts/'' @ basename @ ''.sh'');
          path2 = take (PATH_MAX - 1) (exe_dir @ ''/scripts/linux/'' @ basename @ ''.sh'');
          script_path = (if exists_file path1 then path1 else path2)
      in take (2 * PATH_MAX - 1) (''/bin/sh '' @ [CHR 0x22] @ script_path @ [CHR 0x22]))"

definition run_system :: "string \<Rightarrow> server \<Rightarrow> server \<times> int" where
  "run_system cmd s =
     (let s' = s\<lparr>system_log := system_log s @ [cmd], system_results := tl (system_results s)\<rparr>
      in (s', case system_results s of [] \<Rightarrow> 0 | r # _ \<Rightarrow> r))"

definition ya_run_power_script :: "string \<Rightarrow> server \<Rightarrow> server \<times> int" where
  "ya_run_power_script basename s = run_system (power_command (exe_link s) (script_exists s) basename) s"

section \<open>Access to clients\<close>

definition client_at :: "server \<Rightarrow> addr \<Rightarrow> ya_client run" where
  "client_at s a = (case cells (snd (svr_clients s)) a of None \<Rightarrow> Some UB | Some c \<Rightarrow> returns c)"

definition modify_client :: "addr \<Rightarrow> (ya_client \<Rightarrow> ya_client) \<Rightarrow> server \<Rightarrow> server run" where
  "modify_client a f s =
     (case svr_clients s of (M, H) \<Rightarrow>
        run_bind (update_client H a f) (\<lambda>H'. returns (s\<lparr>svr_clients := (M, H')\<rparr>)))"

text \<open>The code of a handler that needs the client of the event's number.\<close>

definition with_client :: "YAEvent \<Rightarrow> server \<Rightarrow> (addr \<Rightarrow> ya_client \<Rightarrow> handler_result) \<Rightarrow> handler_result" where
  "with_client event s body =
     run_bind (ya_client_find_by_uid (svr_clients s) (uid (header event))) (\<lambda>client.
       case client of
         None \<Rightarrow> returns (s, None)
       | Some a \<Rightarrow> run_bind (client_at s a) (\<lambda>c. body a c))"

section \<open>Responses\<close>

definition assign_response :: "server \<Rightarrow> YAEvent \<Rightarrow> ya_param option \<Rightarrow> YAEvent option" where
  "assign_response s request_event response_param =
     (if \<not> malloc_ok s then None
      else Some \<lparr>header = \<lparr>h_type = h_type (header request_event), direction = RESPONSE,
                           index = index (header request_event), uid = uid (header request_event)\<rparr>,
                 param = response_param\<rparr>)"

text \<open>The network's byte order is the opposite of the machine's.\<close>

definition ntohs :: "u16 \<Rightarrow> u16" where
  "ntohs w = push_bit 8 w OR drop_bit 8 w"

text \<open>The parameter structures' sizes, for the handlers that compare them.\<close>

fun param_size :: "ya_param \<Rightarrow> nat" where
  "param_size (CommonReq _) = 8"
| "param_size (KeyboardReq _) = 12"
| "param_size (TextInputReq _) = 8"
| "param_size (InputGetResp _) = 8"
| "param_size (AuthorizeReq _) = 8"
| "param_size (AuthorizeResp _) = 32"
| "param_size (SessionOptionReq _) = 4"
| "param_size (DiscoverReq _) = 4"
| "param_size (DiscoverResp _) = 8"

section \<open>Session handlers\<close>

definition handle_authorize :: handler_fn where
  "handle_authorize bev event s =
     (case param event of
        None \<Rightarrow> returns (s, None)
      | Some (AuthorizeReq req) \<Rightarrow>
          (case assign_response s event None of
             None \<Rightarrow> returns (s, None)
           | Some response_event \<Rightarrow>
               (case authorize (Some req) of (ok, err) \<Rightarrow>
                  let s1 = s\<lparr>authorize_error := err\<rparr>;
                      resp = \<lparr>success = ok, os_type = 3, r_uid = 0, session_port = 0, command_port = 0,
                              macs = None, display_scale = 0, client_version = version req\<rparr>
                  in if ok then
                       (case bev of
                          None \<Rightarrow> Some UB
                        | Some b \<Rightarrow>
                            run_bind (ya_client_find_by_fd (svr_clients s1) (bev_fd s1 b)) (\<lambda>client.
                              case client of
                                None \<Rightarrow>
                                  (case svr_clients s1 of (M, H) \<Rightarrow>
                                     returns (s1\<lparr>svr_clients := (M, H\<lparr>bevs_freed := bevs_freed H @ [b]\<rparr>)\<rparr>, None))
                              | Some a \<Rightarrow>
                                  run_bind (client_at s1 a) (\<lambda>c.
                                  run_bind (modify_client a (\<lambda>c. c\<lparr>c_bev := Some b, c_protocol_version := version req,
                                      c_mouse_filter := map_option
                                        (\<lambda>f. ya_mouse_filter_set_algorithms_enabled f True) (c_mouse_filter c)\<rparr>) s1) (\<lambda>s2.
                                  returns (s2, Some (response_event\<lparr>param := Some (AuthorizeResp
                                    (resp\<lparr>r_uid := c_uid c, session_port := ntohs (session_sin_port s1),
                                          command_port := ntohs (command_sin_port s1),
                                          macs := Some (case macs_csv s1 of Some m \<Rightarrow> cstr m | None \<Rightarrow> []),
                                          display_scale := primary_scale s1\<rparr>))\<rparr>))))))
                     else returns (s1, Some (response_event\<lparr>param := Some (AuthorizeResp
                            (resp\<lparr>macs := Some [], display_scale := 0x3F800000\<rparr>))\<rparr>))))
      | _ \<Rightarrow> Some UB)"

definition handle_session_option :: handler_fn where
  "handle_session_option bev event s =
     (case param event of
        None \<Rightarrow> returns (s, None)
      | Some p \<Rightarrow>
          with_client event s (\<lambda>a c.
            case p of
              SessionOptionReq scale \<Rightarrow>
                if c_mouse_filter c = None then returns (s, None)
                else
                  let scale' = (if fp_le scale (Fin 0) then Fin 1 else scale) in
                  run_bind (modify_client a (\<lambda>c. c\<lparr>c_mouse_filter := map_option
                      (\<lambda>f. ya_mouse_filter_set_pointer_scale f scale') (c_mouse_filter c)\<rparr>) s)
                    (\<lambda>s'. returns (s', None))
            | _ \<Rightarrow> Some UB))"

definition handle_heartbeat :: handler_fn where
  "handle_heartbeat bev event s = returns (s, assign_response s event None)"

section \<open>Pointer handlers\<close>

text \<open>Relative moves of a list of steps; failures are only logged.\<close>

fun emit_steps :: "ya_mouse_step list \<Rightarrow> server \<Rightarrow> server" where
  "emit_steps [] s = s"
| "emit_steps (st # sts) s =
     emit_steps sts (if step_dx st = 0 \<and> step_dy st = 0 then s
                     else fst (input_mouse_move (step_dx st) (step_dy st) s))"

text \<open>A displacement in hundredths of a pixel, as a double.\<close>

definition recv_scaled :: "i32 \<Rightarrow> fp" where
  "recv_scaled r = round64 (of_int (sint r) / 100)"

text \<open>\<open>acc += d\<close> for a float \<open>acc\<close> and a double \<open>d\<close>: the sum is a double, converted back.\<close>

definition add_double :: "fp \<Rightarrow> fp \<Rightarrow> fp" where
  "add_double acc d = fp_convert round32 (fp_add round64 acc d)"

text \<open>Clients since version 3: the fraction of each axis is accumulated and quantised.\<close>

definition move_v3 :: "addr \<Rightarrow> ya_mouse_filter \<Rightarrow> fp \<Rightarrow> fp \<Rightarrow> server \<Rightarrow> handler_result" where
  "move_v3 a ctx fdx fdy s =
     run_bind (Some (quantize (add_double (frac_x ctx) fdx))) (\<lambda>(dx, fx).
     run_bind (Some (quantize (add_double (frac_y ctx) fdy))) (\<lambda>(dy, fy).
     run_bind (modify_client a (\<lambda>c. c\<lparr>c_mouse_filter := Some (ctx\<lparr>frac_x := fx, frac_y := fy\<rparr>)\<rparr>) s) (\<lambda>s'.
       returns (if dx \<noteq> 0 \<or> dy \<noteq> 0 then fst (input_mouse_move dx dy s') else s', None))))"

text \<open>Older clients: whole pixels, rounded away from zero, through the throttle and the filter.\<close>

definition round_px :: "fp \<Rightarrow> i32 ub" where
  "round_px d = fp_to_int (if fp_le (Fin 0) d then fp_add round64 d (Fin (1 / 2)) else fp_sub round64 d (Fin (1 / 2)))"

definition filtered_steps :: "addr \<Rightarrow> ya_client \<Rightarrow> i32 \<Rightarrow> i32 \<Rightarrow> server \<Rightarrow> server run" where
  "filtered_steps a c dx dy s =
     (case c_mouse_filter c of
        None \<Rightarrow> returns (emit_steps [\<lparr>step_dx = dx, step_dy = dy\<rparr>] s)
      | Some ctx \<Rightarrow>
          run_bind (Some (ya_mouse_filter_process (Some ctx) dx dy 128)) (\<lambda>(ok, ctx', steps).
          run_bind (modify_client a (\<lambda>c. c\<lparr>c_mouse_filter := ctx'\<rparr>) s) (\<lambda>s'.
            returns (emit_steps steps s'))))"

definition move_v2 :: "addr \<Rightarrow> ya_client \<Rightarrow> fp \<Rightarrow> fp \<Rightarrow> server \<Rightarrow> handler_result" where
  "move_v2 a c fdx fdy s =
     run_bind (Some (round_px fdx)) (\<lambda>dx_px.
     run_bind (Some (round_px fdy)) (\<lambda>dy_px.
     run_bind (Some (ya_mouse_throttle_collect (svr_throttle s) (mono_now s) dx_px dy_px False)) (\<lambda>(g, r).
       let s1 = s\<lparr>svr_throttle := g\<rparr> in
       case r of
         None \<Rightarrow> returns (s1, None)
       | Some (out_dx, out_dy) \<Rightarrow>
           run_bind (filtered_steps a c out_dx out_dy s1) (\<lambda>s2. returns (s2, None)))))"

definition handle_mouse_move :: handler_fn where
  "handle_mouse_move bev event s =
     (case param event of
        None \<Rightarrow> returns (s, None)
      | Some p \<Rightarrow>
          if param_size p \<noteq> 8 then returns (s, None)
          else with_client event s (\<lambda>a c.
            case p of
              CommonReq request \<Rightarrow>
                let fdx = recv_scaled (lparam request); fdy = recv_scaled (rparam request) in
                if 3 \<le> c_protocol_version c then
                  (case c_mouse_filter c of
                     None \<Rightarrow> returns (s, None)
                   | Some ctx \<Rightarrow> move_v3 a ctx fdx fdy s)
                else move_v2 a c fdx fdy s
            | _ \<Rightarrow> Some UB))"

definition handle_mouse_stop :: handler_fn where
  "handle_mouse_stop bev event s =
     with_client event s (\<lambda>a c.
       if 3 \<le> c_protocol_version c then
         run_bind (modify_client a (\<lambda>c. c\<lparr>c_mouse_filter := map_option ya_mouse_filter_reset_state (c_mouse_filter c)\<rparr>) s)
           (\<lambda>s'. returns (s', None))
       else
         case ya_mouse_throttle_flush (svr_throttle s) (mono_now s) of (g, r) \<Rightarrow>
           let s1 = s\<lparr>svr_throttle := g\<rparr> in
           run_bind (case r of None \<Rightarrow> returns s1 | Some (dx, dy) \<Rightarrow> filtered_steps a c dx dy s1) (\<lambda>s2.
           run_bind (modify_client a (\<lambda>c. c\<lparr>c_mouse_filter := map_option ya_mouse_filter_reset_state (c_mouse_filter c)\<rparr>) s2)
             (\<lambda>s3. returns (s3\<lparr>svr_throttle := ya_mouse_throttle_reset (svr_throttle s3)\<rparr>, None))))"

definition click_button :: "i32 \<Rightarrow> CButton option" where
  "click_button l = (if l = 0 then Some Left else if l = 1 then Some Right else if l = 2 then Some Middle else None)"

definition click_direction :: "i32 \<Rightarrow> CDirection option" where
  "click_direction r =
     (if r = 0 then Some Press else if r = 1 then Some Release else if r = 2 \<or> r = 3 then Some Click else None)"

definition handle_mouse_click :: handler_fn where
  "handle_mouse_click bev event s =
     (case param event of
        None \<Rightarrow> returns (s, None)
      | Some p \<Rightarrow>
          if param_size p \<noteq> 8 then returns (s, None)
          else case p of
            CommonReq request \<Rightarrow>
              (case click_button (lparam request) of
                 None \<Rightarrow> returns (s, None)
               | Some btn \<Rightarrow>
                   (case click_direction (rparam request) of
                      None \<Rightarrow> returns (s, None)
                    | Some dir \<Rightarrow>
                        if rparam request = 3 then
                          (case input_mouse_button btn Click s of (s1, err) \<Rightarrow>
                             returns (if err = Success then fst (input_mouse_button btn Click s1) else s1, None))
                        else returns (fst (input_mouse_button btn dir s), None)))
          | _ \<Rightarrow> Some UB)"

definition handle_mouse_scroll :: handler_fn where
  "handle_mouse_scroll bev event s =
     (case param event of
        None \<Rightarrow> returns (s, None)
      | Some p \<Rightarrow>
          if param_size p \<noteq> 8 then returns (s, None)
          else case p of
            CommonReq request \<Rightarrow>
              if sint (lparam request) \<le> 0 then returns (s, None)
              else returns (fst (input_mouse_scroll
                     (if 1000 < sint (lparam request) then 1000 else lparam request) (rparam request) s), None)
          | _ \<Rightarrow> Some UB)"

section \<open>Keyboard and text handlers\<close>

definition is_char_code :: "i32 \<Rightarrow> bool" where
  "is_char_code c \<longleftrightarrow> (0x20 \<le> sint c \<and> sint c \<le> 0x7E) \<or> (0x80 \<le> sint c \<and> sint c < 0xE000)"

definition key_direction :: "i32 \<Rightarrow> CDirection option" where
  "key_direction r = (if r = 0 then Some Press else if r = 1 then Some Release else if r = 2 then Some Click else None)"

definition handle_keyboard :: handler_fn where
  "handle_keyboard bev event s =
     (case param event of
        None \<Rightarrow> returns (s, None)
      | Some p \<Rightarrow>
          if param_size p \<noteq> 12 then returns (s, None)
          else case p of
            KeyboardReq req \<Rightarrow>
              (case key_direction (op req) of
                 None \<Rightarrow> returns (s, None)
               | Some dir \<Rightarrow>
                   if is_char_code (code req) then returns (fst (keyboard_char (code req) (mods req) dir s), None)
                   else case ckey_from_protocol (sint (code req)) of
                     None \<Rightarrow> returns (s, None)
                   | Some key \<Rightarrow> returns (fst (keyboard_function_key key (mods req) dir s), None))
          | _ \<Rightarrow> Some UB)"

definition handle_input_text :: handler_fn where
  "handle_input_text bev event s =
     (case param event of
        Some (TextInputReq text) \<Rightarrow> returns (fst (clipboard_paste_text text s), None)
      | _ \<Rightarrow> Some UB)"

definition rust_key :: "rust_call \<Rightarrow> server \<Rightarrow> server \<times> YAError" where
  "rust_key call s =
     (s\<lparr>rust_log := rust_log s @ [call], rust_results := tl (rust_results s)\<rparr>,
      case rust_results s of [] \<Rightarrow> Success | e # _ \<Rightarrow> e)"

text \<open>Select all, copy, and read the clipboard; each step only after the one before succeeded.\<close>

definition handle_input_get :: handler_fn where
  "handle_input_get bev event s =
     (case assign_response s event (Some (InputGetResp [])) of
        None \<Rightarrow> Some UB
      | Some response_event \<Rightarrow>
          (case input_key_action CK_Control Press s of (s1, e1) \<Rightarrow>
             if e1 \<noteq> Success then returns (s1, None)
             else case rust_key (KeyWithCode (CHR ''a'') Click) s1 of (s2, e2) \<Rightarrow>
               if e2 \<noteq> Success then returns (fst (input_key_action CK_Control Release s2), None)
               else case rust_key (KeyWithCode (CHR ''c'') Click) s2 of (s3, e3) \<Rightarrow>
                 if e3 \<noteq> Success then returns (fst (input_key_action CK_Control Release s3), None)
                 else case input_key_action CK_Control Release s3 of (s4, e4) \<Rightarrow>
                   if e4 \<noteq> Success then returns (s4, None)
                   else case rust_key (MouseButton Left Click) s4 of (s5, e5) \<Rightarrow>
                     if e5 \<noteq> Success then returns (s5, None)
                     else case clipboard_get s5 of
                       None \<Rightarrow> returns (s5, None)
                     | Some text \<Rightarrow> returns (s5, Some (response_event\<lparr>param := Some (InputGetResp text)\<rparr>))))"

section \<open>Power and discovery handlers\<close>

definition power_action :: "string \<Rightarrow> string \<Rightarrow> handler_fn" where
  "power_action script command bev event s =
     (case assign_response s event None of
        None \<Rightarrow> returns (s, None)
      | Some response \<Rightarrow>
          (case ya_run_power_script script s of (s1, ret) \<Rightarrow>
             returns (if ret \<noteq> 0 then fst (run_system command s1) else s1, Some response)))"

definition handle_poweroff :: handler_fn where
  "handle_poweroff = power_action ''poweroff'' ''shutdown -h now''"

definition handle_restart :: handler_fn where
  "handle_restart = power_action ''restart'' ''reboot''"

definition handle_sleep :: handler_fn where
  "handle_sleep = power_action ''sleep'' ''systemctl suspend''"

definition handle_control :: handler_fn where
  "handle_control bev event s =
     (case param event of
        None \<Rightarrow> returns (s, None)
      | Some (CommonReq req) \<Rightarrow>
          if lparam req = 1 then handle_poweroff bev event s
          else if lparam req = 2 then handle_restart bev event s
          else if lparam req = 3 then handle_sleep bev event s
          else returns (s, assign_response s event None)
      | _ \<Rightarrow> Some UB)"

definition handle_discover :: handler_fn where
  "handle_discover bev event s =
     (case param event of
        Some (DiscoverReq magic) \<Rightarrow>
          if magic \<noteq> DISCOVERY_MAGIC then returns (s, None)
          else case assign_response s event (Some (DiscoverResp (ntohs (session_sin_port s)))) of
            None \<Rightarrow> Some UB
          | Some response \<Rightarrow> returns (s, Some response)
      | _ \<Rightarrow> Some UB)"

section \<open>Dispatch\<close>

definition event_handlers :: "(YAEventType \<times> handler_fn) list" where
  "event_handlers =
     [(MOUSE_MOVE, handle_mouse_move), (MOUSE_STOP, handle_mouse_stop), (MOUSE_CLICK, handle_mouse_click),
      (MOUSE_WHEEL, handle_mouse_scroll), (KEYBOARD, handle_keyboard), (TEXT_INPUT, handle_input_text),
      (TEXT_GET, handle_input_get), (DISCOVER, handle_discover), (AUTHORIZE, handle_authorize),
      (HEARTBEAT, handle_heartbeat), (SESSION_OPTION, handle_session_option), (CONTROL, handle_control)]"

definition find_event_handler :: "YAEventType \<Rightarrow> handler_fn option" where
  "find_event_handler type = map_of event_handlers type"

definition need_command_index_check :: "YAEventType \<Rightarrow> bool" where
  "need_command_index_check type \<longleftrightarrow> type \<noteq> DISCOVER \<and> type \<noteq> AUTHORIZE \<and> type \<noteq> HEARTBEAT"

text \<open>
  \<open>index\<close> is unsigned and \<open>command_index\<close> an \<open>int\<close>: the comparison converts it to unsigned, and
  the assignment keeps the bits.
\<close>

definition validate_command_index :: "ptr \<Rightarrow> YAEvent \<Rightarrow> server \<Rightarrow> (server \<times> bool) run" where
  "validate_command_index client event s =
     (case client of
        None \<Rightarrow> returns (s, True)
      | Some a \<Rightarrow>
          if direction (header event) \<noteq> REQUEST \<or> \<not> need_command_index_check (h_type (header event))
          then returns (s, True)
          else run_bind (client_at s a) (\<lambda>c.
            if index (header event) \<le> c_command_index c then returns (s, False)
            else run_bind (modify_client a (\<lambda>c. c\<lparr>c_command_index := index (header event)\<rparr>) s)
                   (\<lambda>s'. returns (s', True))))"

definition process_server_event :: "nat option \<Rightarrow> YAEvent \<Rightarrow> ptr \<Rightarrow> server \<Rightarrow> handler_result" where
  "process_server_event bev event client s =
     (case find_event_handler (h_type (header event)) of
        None \<Rightarrow> returns (s, None)
      | Some handler \<Rightarrow>
          (case client of
             None \<Rightarrow> handler bev event s
           | Some a \<Rightarrow>
               if direction (header event) = REQUEST \<and> need_command_index_check (h_type (header event))
               then run_bind (client_at s a) (\<lambda>c.
                 if index (header event) \<le> c_command_index c then returns (s, None)
                 else run_bind (modify_client a (\<lambda>c. c\<lparr>c_command_index := index (header event)\<rparr>) s)
                        (\<lambda>s'. handler bev event s'))
               else handler bev event s))"

section \<open>What the input devices leave alone\<close>

text \<open>Nothing an input operation does shows in the server's own fields.\<close>

definition own_fields :: "server \<Rightarrow> clients \<times> YAMouseThrottleState \<times> bool \<times> u16 \<times> u16" where
  "own_fields s = (svr_clients s, svr_throttle s, malloc_ok s, session_sin_port s, command_sin_port s)"

lemma own_emit_event [frame_simps]: "own_fields (fst (emit_event t c v s)) = own_fields s"
  by (simp add: emit_event_def own_fields_def Let_def split: list.splits)

lemma own_emit_seq [frame_simps]: "own_fields (fst (emit_seq es s)) = own_fields s"
proof (induction es arbitrary: s)
  case (Cons e es)
  obtain t c v where e: "e = (t, c, v)" by (cases e)
  obtain s' ok where r: "emit_event t c v s = (s', ok)" by fastforce
  with own_emit_event [of t c v s] have "own_fields s' = own_fields s" by simp
  with Cons e r show ?case by (simp add: emit_seq.simps)
qed (simp add: emit_seq.simps)

lemma own_mouse_press [frame_simps]: "own_fields (fst (input_linux_mouse_press b s)) = own_fields s"
  by (simp add: input_linux_mouse_press_def frame_simps)

lemma own_mouse_release [frame_simps]: "own_fields (fst (input_linux_mouse_release b s)) = own_fields s"
  by (simp add: input_linux_mouse_release_def frame_simps)

lemma own_mouse_click [frame_simps]: "own_fields (fst (input_linux_mouse_click b s)) = own_fields s"
  using own_mouse_press [of b s] own_mouse_release [of b "fst (input_linux_mouse_press b s)"]
  by (auto simp: input_linux_mouse_click_def split: prod.splits)

lemma own_raw_key [frame_simps]: "own_fields (fst (input_linux_key_action_raw k d s)) = own_fields s"
  by (simp add: input_linux_key_action_raw_def frame_simps)

lemma own_inputs [frame_simps]:
  "own_fields (fst (input_mouse_move dx dy s)) = own_fields s"
  "own_fields (fst (input_mouse_button b d s)) = own_fields s"
  "own_fields (fst (input_mouse_scroll n r s)) = own_fields s"
  "own_fields (fst (input_key_action k d s)) = own_fields s"
  by (simp_all add: input_mouse_move_def input_linux_mouse_move_def input_mouse_button_def
      input_mouse_scroll_def input_linux_mouse_scroll_def input_key_action_def input_linux_key_action_def
      translated_def Let_def frame_simps)

lemma own_clipboard_set [frame_simps]: "own_fields (fst (clipboard_set t s)) = own_fields s"
  by (simp add: clipboard_set_def own_fields_def Let_def split: list.splits)

lemma own_paste_keys [frame_simps]: "own_fields (fst (paste_keys m k s)) = own_fields s"
  using own_inputs(4) [of m Press s] own_inputs(4) [of k Click "fst (input_key_action m Press s)"]
    own_inputs(4) [of m Release "fst (input_key_action k Click (fst (input_key_action m Press s)))"]
  by (auto simp: paste_keys_def split: prod.splits)

lemma own_paste_text [frame_simps]: "own_fields (fst (clipboard_paste_text t s)) = own_fields s"
proof -
  obtain s1 e1 where 1: "clipboard_set t s = (s1, e1)" by fastforce
  obtain s2 e2 where 2: "(if use_ctrl_v s1 then paste_keys CK_Control CK_V s1 else paste_keys CK_Shift CK_Insert s1) = (s2, e2)"
    by fastforce
  have "own_fields s1 = own_fields s" using own_clipboard_set [of t s] 1 by simp
  moreover have "own_fields s2 = own_fields s1"
    using own_paste_keys [of CK_Control CK_V s1] own_paste_keys [of CK_Shift CK_Insert s1] 2 by (auto split: if_splits)
  moreover have "own_fields (fst (clipboard_set b s2)) = own_fields s2" for b by (rule own_clipboard_set)
  ultimately show ?thesis
    by (simp add: clipboard_paste_text_def Let_def 1 2 split: option.splits)
qed

lemma own_pair: "own_fields (fst p) = x \<Longrightarrow> p = (s', r) \<Longrightarrow> own_fields s' = x"
  by simp

lemmas own_key_dests = own_raw_key [THEN own_pair] own_inputs(4) [THEN own_pair]

lemma own_modifier [frame_simps]: "own_fields (fst (modifier_action m d s)) = own_fields s"
  by (cases m) (auto simp: frame_simps split: prod.splits dest: own_key_dests)

lemma own_release [frame_simps]: "own_fields (release_modifiers_unified ms s) = own_fields s"
  by (induction ms arbitrary: s) (simp_all add: frame_simps)

lemma own_press_from [frame_simps]: "own_fields (fst (press_from ms ps s)) = own_fields s"
proof (induction ms arbitrary: s ps)
  case (Cons m ms)
  obtain s' e where r: "modifier_action m Press s = (s', e)" by fastforce
  with own_modifier [of m Press s] Cons show ?case by (simp add: frame_simps)
qed simp

lemma own_inject [frame_simps]: "own_fields (fst (inject_main_key k m d s)) = own_fields s"
  by (auto simp: inject_main_key_def frame_simps split: prod.splits dest: own_key_dests)

lemma own_press_modifiers: "press_modifiers_unified mm alt s = (s', e, ps) \<Longrightarrow> own_fields s' = own_fields s"
  using own_press_from [of "wanted_modifiers mm alt" "[]" s] by (simp add: press_modifiers_unified_def)

lemma own_function_key [frame_simps]: "own_fields (fst (keyboard_function_key k m d s)) = own_fields s"
proof -
  define mm :: u32 where "mm = (let m0 = (if m AND CHORD_MOD_SHIFT \<noteq> 0 then 1 else 0);
    m1 = (if m AND CHORD_MOD_CTRL \<noteq> 0 then m0 OR 4 else m0) in if m AND CHORD_MOD_META \<noteq> 0 then m1 OR 8 else m1)"
  obtain s1 e ps where p: "press_modifiers_unified mm (m AND CHORD_MOD_ALT \<noteq> 0) s = (s1, e, ps)"
    by (cases "press_modifiers_unified mm (m AND CHORD_MOD_ALT \<noteq> 0) s")
  obtain s2 e2 where k: "input_key_action k d s1 = (s2, e2)" by fastforce
  have "keyboard_function_key k m d s =
      (if e \<noteq> Success then (s1, e) else (release_modifiers_unified ps s2, e2))"
    unfolding keyboard_function_key_def input_function_key_linux_def Let_def
    by (simp only: mm_def [unfolded Let_def, symmetric] p k prod.case)
  with own_press_modifiers [OF p] own_key_dests(2) [OF k] show ?thesis by (simp add: frame_simps)
qed

lemma own_char [frame_simps]: "own_fields (fst (keyboard_char c m d s)) = own_fields s"
proof (cases "map_char_to_evdev_linux (xkb s) c")
  case (Pair e r)
  show ?thesis
  proof (cases "e = Success \<and> r \<noteq> None")
    case True
    then obtain k xm where r: "e = Success" "r = Some (k, xm)" by auto
    obtain s1 err ps where p: "press_modifiers_unified (merge_modifiers m xm) (m AND 4 \<noteq> 0) s = (s1, err, ps)"
      by (cases "press_modifiers_unified (merge_modifiers m xm) (m AND 4 \<noteq> 0) s")
    obtain s2 q where i: "inject_main_key k (merge_modifiers m xm) d s1 = (s2, q)" by fastforce
    have "own_fields s1 = own_fields s"
      using own_press_modifiers [OF p] .
    moreover have "own_fields s2 = own_fields s1"
      using own_inject [of k "merge_modifiers m xm" d s1] i by simp
    ultimately show ?thesis
      using Pair r p i by (simp add: keyboard_char_def input_char_linux_unified_def Let_def frame_simps)
  next
    case False
    with Pair have "keyboard_char c m d s = clipboard_paste_text (encode_codepoint_to_utf8 c) s"
      by (cases e; cases r) (auto simp: keyboard_char_def input_char_linux_unified_def)
    then show ?thesis by (simp add: frame_simps)
  qed
qed

lemma own_emit_steps [frame_simps]: "own_fields (emit_steps sts s) = own_fields s"
  by (induction sts arbitrary: s) (simp_all add: frame_simps)

lemma own_rust_key [frame_simps]: "own_fields (fst (rust_key c s)) = own_fields s"
  by (simp add: rust_key_def own_fields_def)

lemma own_run_system [frame_simps]: "own_fields (fst (run_system c s)) = own_fields s"
  by (simp add: run_system_def own_fields_def Let_def)

lemma own_power_action:
  "power_action sc cmd bev ev s = returns (s', r) \<Longrightarrow> own_fields s' = own_fields s"
  using own_run_system [of _ s] own_run_system [of cmd "fst (run_system (power_command (exe_link s) (script_exists s) sc) s)"]
  by (auto simp: power_action_def ya_run_power_script_def split: option.splits prod.splits if_splits)
    (metis fst_conv own_run_system)+

lemma own_clients: "own_fields s' = own_fields s \<Longrightarrow> svr_clients s' = svr_clients s"
  by (simp add: own_fields_def)

lemma own_clients_fst [simp]:
  "svr_clients (fst (input_mouse_move dx dy s)) = svr_clients s"
  "svr_clients (fst (input_mouse_button b d s)) = svr_clients s"
  "svr_clients (fst (input_mouse_scroll n q s)) = svr_clients s"
  "svr_clients (fst (input_key_action k d s)) = svr_clients s"
  "svr_clients (fst (clipboard_paste_text t s)) = svr_clients s"
  "svr_clients (fst (keyboard_char c m d s)) = svr_clients s"
  "svr_clients (fst (keyboard_function_key k m d s)) = svr_clients s"
  "svr_clients (emit_steps sts s) = svr_clients s"
  by (rule own_clients, simp add: frame_simps)+

section \<open>What the handlers change in the client table\<close>

definition client_same :: "ya_client \<Rightarrow> ya_client \<Rightarrow> bool" where
  "client_same c c' \<longleftrightarrow> c_fd c' = c_fd c \<and> c_uid c' = c_uid c \<and> c_command_index c' = c_command_index c \<and>
     c_ref_count c' = c_ref_count c \<and> c_state c' = c_state c \<and> c_next c' = c_next c"

text \<open>Same table, same clients, at most their connection, filter and protocol version changed.\<close>

definition clients_kept :: "server \<Rightarrow> server \<Rightarrow> bool" where
  "clients_kept s s' \<longleftrightarrow> fst (svr_clients s') = fst (svr_clients s) \<and>
     freed_reads (snd (svr_clients s')) = freed_reads (snd (svr_clients s)) \<and>
     (\<forall>a. rel_option client_same (cells (snd (svr_clients s)) a) (cells (snd (svr_clients s')) a))"

lemma client_same_refl [simp]: "client_same c c"
  by (simp add: client_same_def)

lemma clients_kept_refl [simp]: "clients_kept s s"
  by (simp add: clients_kept_def option.rel_refl)

lemma clients_kept_eq: "svr_clients s' = svr_clients s \<Longrightarrow> clients_kept s s'"
  by (simp add: clients_kept_def option.rel_refl)

lemma clients_kept_trans:
  assumes "clients_kept s s'" "clients_kept s' s''"
  shows "clients_kept s s''"
  unfolding clients_kept_def
proof (intro conjI allI)
  fix a
  have "rel_option client_same (cells (snd (svr_clients s)) a) (cells (snd (svr_clients s')) a)"
    "rel_option client_same (cells (snd (svr_clients s')) a) (cells (snd (svr_clients s'')) a)"
    using assms by (simp_all add: clients_kept_def)
  then show "rel_option client_same (cells (snd (svr_clients s)) a) (cells (snd (svr_clients s'')) a)"
    by (auto simp: option_rel_Some1 option_rel_Some2 rel_option_iff client_same_def split: option.splits)
qed (use assms in \<open>simp_all add: clients_kept_def\<close>)

lemma clients_kept_modify:
  assumes "modify_client a f s = returns s'" and "\<And>c. client_same c (f c)"
  shows "clients_kept s s'"
proof -
  obtain M H where MH: "svr_clients s = (M, H)" by (cases "svr_clients s")
  with assms(1) obtain c where c: "cells H a = Some c" "s' = s\<lparr>svr_clients := (M, H\<lparr>cells := (cells H)(a \<mapsto> f c)\<rparr>)\<rparr>"
    by (auto simp: modify_client_def update_client_def run_bind_eq_returns split: option.splits)
  with MH assms(2) show ?thesis by (simp add: clients_kept_def option.rel_refl)
qed

lemma with_client_kept:
  assumes "with_client ev s body = returns (s', r)"
    and "\<And>a c. body a c = returns (s', r) \<Longrightarrow> clients_kept s s'"
  shows "clients_kept s s'"
  using assms by (auto simp: with_client_def run_bind_eq_returns split: option.splits)

lemma client_same_updates [simp]:
  "client_same c (c\<lparr>c_mouse_filter := f\<rparr>)"
  "client_same c (c\<lparr>c_bev := b, c_protocol_version := v, c_mouse_filter := f\<rparr>)"
  by (simp_all add: client_same_def)

lemma filtered_steps_kept: "filtered_steps a c dx dy s = returns s' \<Longrightarrow> clients_kept s s'"
  by (auto simp: filtered_steps_def run_bind_eq_returns clients_kept_eq split: option.splits
      intro: clients_kept_trans [OF clients_kept_modify])

lemma move_v3_kept: "move_v3 a flt fdx fdy s = returns (s', r) \<Longrightarrow> clients_kept s s'"
  by (auto simp: move_v3_def run_bind_eq_returns clients_kept_eq split: if_splits
      intro: clients_kept_trans [OF clients_kept_modify] clients_kept_modify)

lemma move_v2_kept:
  assumes "move_v2 a c fdx fdy s = returns (s', r)"
  shows "clients_kept s s'"
proof -
  have "clients_kept s (s\<lparr>svr_throttle := g\<rparr>)" for g by (simp add: clients_kept_eq)
  with assms show ?thesis
    by (auto simp: move_v2_def run_bind_eq_returns Let_def split: option.splits
        intro: clients_kept_trans [OF _ filtered_steps_kept])
qed

lemma mouse_move_kept: "handle_mouse_move bev ev s = returns (s', r) \<Longrightarrow> clients_kept s s'"
  by (auto simp: handle_mouse_move_def Let_def split: option.splits if_splits ya_param.splits
      elim!: with_client_kept dest: move_v2_kept move_v3_kept)

lemma mouse_stop_kept: "handle_mouse_stop bev ev s = returns (s', r) \<Longrightarrow> clients_kept s s'"
  unfolding handle_mouse_stop_def
proof (erule with_client_kept)
  fix a c
  let ?reset = "\<lambda>s. modify_client a (\<lambda>c. c\<lparr>c_mouse_filter := map_option ya_mouse_filter_reset_state (c_mouse_filter c)\<rparr>) s"
  assume b: "(if 3 \<le> c_protocol_version c then run_bind (?reset s) (\<lambda>s'. returns (s', None))
    else case ya_mouse_throttle_flush (svr_throttle s) (mono_now s) of (g, r) \<Rightarrow>
      let s1 = s\<lparr>svr_throttle := g\<rparr> in
      run_bind (case r of None \<Rightarrow> returns s1 | Some (dx, dy) \<Rightarrow> filtered_steps a c dx dy s1) (\<lambda>s2.
      run_bind (?reset s2) (\<lambda>s3. returns (s3\<lparr>svr_throttle := ya_mouse_throttle_reset (svr_throttle s3)\<rparr>, None)))) =
    returns (s', r)"
  have reset: "?reset t = returns t' \<Longrightarrow> clients_kept t t'" for t t'
    by (rule clients_kept_modify) auto
  show "clients_kept s s'"
  proof (cases "3 \<le> c_protocol_version c")
    case True
    with b show ?thesis by (auto simp: run_bind_eq_returns dest: reset)
  next
    case False
    obtain g q where f: "ya_mouse_throttle_flush (svr_throttle s) (mono_now s) = (g, q)" by fastforce
    let ?s1 = "s\<lparr>svr_throttle := g\<rparr>"
    from b False f obtain s2 s3 where
      2: "(case q of None \<Rightarrow> returns ?s1 | Some (dx, dy) \<Rightarrow> filtered_steps a c dx dy ?s1) = returns s2"
      and 3: "?reset s2 = returns s3" "s' = s3\<lparr>svr_throttle := ya_mouse_throttle_reset (svr_throttle s3)\<rparr>"
      by (auto simp: run_bind_eq_returns Let_def)
    have "clients_kept s ?s1" by (simp add: clients_kept_eq)
    moreover have "clients_kept ?s1 s2"
      using 2 by (auto split: option.splits dest: filtered_steps_kept)
    moreover have "clients_kept s2 s3" using 3(1) by (rule reset)
    moreover have "clients_kept s3 s'" by (simp add: 3(2) clients_kept_eq)
    ultimately show ?thesis by (blast intro: clients_kept_trans)
  qed
qed

lemma authorize_kept: "handle_authorize bev ev s = returns (s', r) \<Longrightarrow> clients_kept s s'"
proof -
  assume h: "handle_authorize bev ev s = returns (s', r)"
  have e: "clients_kept s (s\<lparr>authorize_error := e\<rparr>)" for e by (simp add: clients_kept_eq)
  have f: "clients_kept (s\<lparr>authorize_error := e\<rparr>)
      (s\<lparr>authorize_error := e, svr_clients := (M, H\<lparr>bevs_freed := x\<rparr>)\<rparr>)" if "svr_clients s = (M, H)" for e M H x
    using that by (simp add: clients_kept_def option.rel_refl)
  have m: "clients_kept (s\<lparr>authorize_error := e\<rparr>) t"
    if "modify_client a (\<lambda>c. c\<lparr>c_bev := Some b, c_protocol_version := v, c_mouse_filter := map_option k (c_mouse_filter c)\<rparr>)
      (s\<lparr>authorize_error := e\<rparr>) = returns t" for a b v k e t
    using that by (rule clients_kept_modify) simp
  show ?thesis
    using h by (auto simp: handle_authorize_def Let_def run_bind_eq_returns
        split: option.splits ya_param.splits prod.splits if_splits
        intro: clients_kept_trans [OF e f] clients_kept_trans [OF e m] e)
qed

lemma session_option_kept: "handle_session_option bev ev s = returns (s', r) \<Longrightarrow> clients_kept s s'"
  by (auto simp: handle_session_option_def Let_def run_bind_eq_returns
      split: option.splits if_splits ya_param.splits elim!: with_client_kept clients_kept_modify)

lemma own_kept: "own_fields s' = own_fields s \<Longrightarrow> clients_kept s s'"
  by (rule clients_kept_eq, rule own_clients)

lemma input_get_kept: "handle_input_get bev ev s = returns (s', r) \<Longrightarrow> clients_kept s s'"
proof (rule own_kept)
  assume h: "handle_input_get bev ev s = returns (s', r)"
  note steps = own_inputs(4) [THEN own_pair] own_rust_key [THEN own_pair]
  obtain s1 e1 where 1: "input_key_action CK_Control Press s = (s1, e1)" by fastforce
  obtain s2 e2 where 2: "rust_key (KeyWithCode (CHR ''a'') Click) s1 = (s2, e2)" by fastforce
  obtain s3 e3 where 3: "rust_key (KeyWithCode (CHR ''c'') Click) s2 = (s3, e3)" by fastforce
  obtain s4 e4 where 4: "input_key_action CK_Control Release s3 = (s4, e4)" by fastforce
  obtain s5 e5 where 5: "rust_key (MouseButton Left Click) s4 = (s5, e5)" by fastforce
  have "own_fields s1 = own_fields s" "own_fields s2 = own_fields s1" "own_fields s3 = own_fields s2"
    "own_fields s4 = own_fields s3" "own_fields s5 = own_fields s4"
    using steps(1) [OF 1] steps(2) [OF 2] steps(2) [OF 3] steps(1) [OF 4] steps(2) [OF 5] by auto
  moreover have "s' \<in> {s1, s4, s5, fst (input_key_action CK_Control Release s2), fst (input_key_action CK_Control Release s3)}"
    using h by (auto simp: handle_input_get_def 1 2 3 4 5 split: option.splits if_splits)
  ultimately show "own_fields s' = own_fields s" by (auto simp: frame_simps)
qed

lemma handler_kept:
  assumes "find_event_handler type = Some h" and "h bev ev s = returns (s', r)"
  shows "clients_kept s s'"
proof -
  have "h \<in> {handle_mouse_move, handle_mouse_stop, handle_mouse_click, handle_mouse_scroll, handle_keyboard,
      handle_input_text, handle_input_get, handle_discover, handle_authorize, handle_heartbeat,
      handle_session_option, handle_control}"
    using assms(1) by (auto simp: find_event_handler_def event_handlers_def split: if_splits)
  then show ?thesis
    using assms(2)
    by (auto dest: mouse_move_kept mouse_stop_kept authorize_kept session_option_kept input_get_kept,
        auto simp: handle_mouse_click_def handle_mouse_scroll_def handle_keyboard_def handle_input_text_def
          handle_discover_def handle_heartbeat_def handle_control_def handle_poweroff_def handle_restart_def handle_sleep_def
        intro!: clients_kept_eq
        split: option.splits ya_param.splits if_splits prod.splits dest: own_power_action [THEN own_clients]
          own_inputs(2) [THEN own_pair, THEN own_clients])
qed


section \<open>Old commands\<close>

text \<open>One event processed: the guard on the index, and what happens to each client.\<close>

definition guarded :: "YAEvent \<Rightarrow> bool" where
  "guarded ev \<longleftrightarrow> direction (header ev) = REQUEST \<and> need_command_index_check (h_type (header ev)) \<and>
     find_event_handler (h_type (header ev)) \<noteq> None"

lemma process_old:
  assumes "client_at s a = returns c" and "guarded ev" and "index (header ev) \<le> c_command_index c"
  shows "process_server_event bev ev (Some a) s = returns (s, None)"
  using assms by (auto simp: process_server_event_def guarded_def)

lemma client_at_returns: "client_at s a = returns c \<longleftrightarrow> cells (snd (svr_clients s)) a = Some c"
  by (auto simp: client_at_def split: option.splits)

lemma modify_client_returns:
  "modify_client a f s = returns s' \<longleftrightarrow> (\<exists>c. client_at s a = returns c \<and>
     s' = s\<lparr>svr_clients := (fst (svr_clients s),
       snd (svr_clients s)\<lparr>cells := (cells (snd (svr_clients s)))(a \<mapsto> f c)\<rparr>)\<rparr>)"
  by (cases "svr_clients s")
    (auto simp: modify_client_def update_client_def client_at_def run_bind_eq_returns split: option.splits)

lemma kept_client:
  assumes "clients_kept s s'" and "client_at s a = returns c"
  shows "\<exists>c'. client_at s' a = returns c' \<and> client_same c c'"
proof -
  have "rel_option client_same (cells (snd (svr_clients s)) a) (cells (snd (svr_clients s')) a)"
    using assms(1) by (simp add: clients_kept_def)
  with assms(2) show ?thesis by (auto simp: client_at_returns option_rel_Some1)
qed

text \<open>Processing raises the index of its client to the event's, and keeps those of the others.\<close>

lemma process_index:
  assumes "process_server_event bev ev client s = returns (s', r)" and "client_at s b = returns d"
  shows "\<exists>d'. client_at s' b = returns d' \<and> c_command_index d' =
    (if client = Some b \<and> guarded ev then max (c_command_index d) (index (header ev)) else c_command_index d)"
proof (cases "find_event_handler (h_type (header ev))")
  case None
  with assms show ?thesis by (simp add: process_server_event_def guarded_def)
next
  case (Some h)
  show ?thesis
  proof (cases "client \<noteq> None \<and> guarded ev")
    case False
    with Some assms(1) have "h bev ev s = returns (s', r)"
      by (auto simp: process_server_event_def guarded_def split: if_splits option.splits)
    from kept_client [OF handler_kept [OF Some this] assms(2)] False show ?thesis
      by (auto simp: client_same_def)
  next
    case True
    then obtain a where a: "client = Some a" by auto
    let ?body = "\<lambda>c. if index (header ev) \<le> c_command_index c then returns (s, None)
            else run_bind (modify_client a (\<lambda>c. c\<lparr>c_command_index := index (header ev)\<rparr>) s)
                   (\<lambda>s'. h bev ev s')"
    have "run_bind (client_at s a) ?body = returns (s', r)"
      using True a Some assms(1) by (simp add: process_server_event_def guarded_def)
    then obtain c where c: "client_at s a = returns c"
      and p: "(if index (header ev) \<le> c_command_index c then returns (s, None)
            else run_bind (modify_client a (\<lambda>c. c\<lparr>c_command_index := index (header ev)\<rparr>) s)
                   (\<lambda>s'. h bev ev s')) = returns (s', r)"
      unfolding run_bind_eq_returns by blast
    show ?thesis
    proof (cases "index (header ev) \<le> c_command_index c")
      case old: True
      with p assms(2) c True a show ?thesis by (auto simp: max_def client_at_returns)
    next
      case new: False
      let ?s1 = "s\<lparr>svr_clients := (fst (svr_clients s), snd (svr_clients s)\<lparr>cells :=
        (cells (snd (svr_clients s)))(a \<mapsto> c\<lparr>c_command_index := index (header ev)\<rparr>)\<rparr>)\<rparr>"
      have "modify_client a (\<lambda>c. c\<lparr>c_command_index := index (header ev)\<rparr>) s = returns ?s1"
        using c by (auto simp: modify_client_returns)
      with new p have "h bev ev ?s1 = returns (s', r)" by simp
      note kept = handler_kept [OF Some this]
      have "client_at ?s1 b = returns (if b = a then d\<lparr>c_command_index := index (header ev)\<rparr> else d)"
        using assms(2) c by (auto simp: client_at_returns)
      from kept_client [OF kept this] new c assms(2) True a show ?thesis
        by (auto simp: client_same_def max_def client_at_returns split: if_splits)
    qed
  qed
qed

text \<open>Any number of events of any clients.\<close>

inductive processes :: "server \<Rightarrow> server \<Rightarrow> bool" where
  none: "processes s s"
| event: "processes s s1 \<Longrightarrow> process_server_event bev ev client s1 = returns (s2, r) \<Longrightarrow> processes s s2"

lemma processes_index:
  assumes "processes s s'" and "client_at s a = returns c"
  shows "\<exists>c'. client_at s' a = returns c' \<and> c_command_index c \<le> c_command_index c'"
  using assms
proof (induction rule: processes.induct)
  case (event s s1 bev ev client s2 r)
  then obtain c1 where 1: "client_at s1 a = returns c1" "c_command_index c \<le> c_command_index c1" by blast
  from process_index [OF event.hyps(2) 1(1)] 1(2) show ?case
    by (auto simp: max_def split: if_splits intro: order_trans)
qed auto


section \<open>Which events crash the server\<close>

lemma chain_same:
  assumes "\<And>a. rel_option client_same (h a) (h' a)"
  shows "chain h p as \<longleftrightarrow> chain h' p as"
proof (induction as arbitrary: p)
  case (Cons a as)
  from assms [of a] Cons show ?case by (auto simp: rel_option_iff client_same_def split: option.splits)
qed simp

lemma kept_inv [inv_intros]:
  assumes "clients_inv (svr_clients s)" and "clients_kept s s'"
  shows "clients_inv (svr_clients s')"
proof -
  obtain M H where MH: "svr_clients s = (M, H)" by fastforce
  obtain H' where H': "svr_clients s' = (M, H')"
    using assms(2) MH by (cases "svr_clients s'") (auto simp: clients_kept_def)
  have same: "rel_option client_same (cells H a) (cells H' a)" for a
    using assms(2) MH H' by (simp add: clients_kept_def)
  have fwd: "\<exists>c'. cells H' a = Some c' \<and> client_same c c'" if "cells H a = Some c" for a c
    using same [of a] that by (auto simp: option_rel_Some1)
  have bwd: "\<exists>c. cells H a = Some c \<and> client_same c c'" if "cells H' a = Some c'" for a c'
    using same [of a] that by (auto simp: option_rel_Some2)
  have "cells H' a = None \<longleftrightarrow> cells H a = None" for a
    using same [of a] by (auto simp: rel_option_iff split: option.splits)
  then have dom: "dom (cells H') = dom (cells H)" by (simp add: dom_def)
  obtain xs where "client_table (M, H) xs" using assms(1) MH by (auto simp: clients_inv_def)
  then have tab: "length (buckets M) = YA_CLIENT_HASH_SIZE"
    "\<forall>i < YA_CLIENT_HASH_SIZE. chain (cells H) (buckets M ! i) (xs i) \<and> distinct (xs i)"
    "\<forall>i < YA_CLIENT_HASH_SIZE. \<forall>a \<in> set (xs i). \<exists>c. cells H a = Some c \<and> hash_uid (c_uid c) = i"
    "\<forall>a c. cells H a = Some c \<longrightarrow> c_uid c \<noteq> 0 \<and> a \<in> set (xs (hash_uid (c_uid c)))"
    "finite (dom (cells H))" "client_count M = word_of_nat (card (dom (cells H)))" "next_uid M \<noteq> 0"
    unfolding client_table_def by blast+
  have "\<exists>c. cells H' a = Some c \<and> hash_uid (c_uid c) = i" if i: "i < YA_CLIENT_HASH_SIZE" "a \<in> set (xs i)" for i a
  proof -
    from tab(3) i obtain c where "cells H a = Some c" "hash_uid (c_uid c) = i" by blast
    with fwd [of a c] show ?thesis by (auto simp: client_same_def)
  qed
  moreover have "c_uid c' \<noteq> 0 \<and> a \<in> set (xs (hash_uid (c_uid c')))" if "cells H' a = Some c'" for a c'
  proof -
    from bwd [OF that] obtain c where c: "cells H a = Some c" "client_same c c'" by blast
    with tab(4) have "c_uid c \<noteq> 0 \<and> a \<in> set (xs (hash_uid (c_uid c)))" by blast
    with c(2) show ?thesis by (simp add: client_same_def)
  qed
  ultimately have "client_table (M, H') xs"
    using tab(1,2,5,6,7) unfolding client_table_def prod.case dom chain_same [of "cells H" "cells H'", OF same]
    by blast
  with H' show ?thesis by (auto simp: clients_inv_def)
qed

text \<open>The parameter a parser makes for the type of the event.\<close>

fun fits :: "YAEventType \<Rightarrow> ya_param \<Rightarrow> bool" where
  "fits t (CommonReq _) \<longleftrightarrow> t = MOUSE_MOVE \<or> t = MOUSE_CLICK \<or> t = MOUSE_WHEEL \<or> t = CONTROL"
| "fits t (KeyboardReq _) \<longleftrightarrow> t = KEYBOARD"
| "fits t (TextInputReq _) \<longleftrightarrow> t = TEXT_INPUT"
| "fits t (InputGetResp _) \<longleftrightarrow> t = TEXT_GET"
| "fits t (AuthorizeReq _) \<longleftrightarrow> t = AUTHORIZE"
| "fits t (SessionOptionReq _) \<longleftrightarrow> t = SESSION_OPTION"
| "fits t (DiscoverReq _) \<longleftrightarrow> t = DISCOVER"
| "fits t _ \<longleftrightarrow> False"

definition event_fits :: "YAEvent \<Rightarrow> bool" where
  "event_fits ev \<longleftrightarrow> (case param ev of None \<Rightarrow> True | Some p \<Rightarrow> fits (h_type (header ev)) p)"

lemma parser_fits:
  assumes "get_parser oom t d = Some f" and "f data = Defined (Some p)"
  shows "fits t p"
  using assms
  by (auto simp: get_parser_def parse_common_request_def parse_keyboard_request_def parse_text_input_request_def
      parse_text_get_response_def parse_authorize_request_def parse_session_option_request_def
      parse_discover_request_def ub_bind_eq_Defined Let_def split: if_splits prod.splits)

lemma parsed_event_fits:
  assumes "ya_parse_event ev oom buf e0 sz = Defined (buf', Some e)" and "param e0 = None"
  shows "event_fits e"
  using assms parser_fits
  by (auto simp: ya_parse_event_def event_fits_def Let_def ub_bind_eq_Defined
      split: option.splits if_splits)

text \<open>The cases in which a handler reads through a null pointer.\<close>

definition crashes :: "nat option \<Rightarrow> YAEvent \<Rightarrow> server \<Rightarrow> bool" where
  "crashes bev ev s \<longleftrightarrow> (let t = h_type (header ev) in
     (t = TEXT_INPUT \<and> param ev = None) \<or>
     (t = DISCOVER \<and> (param ev = None \<or> (param ev = Some (DiscoverReq DISCOVERY_MAGIC) \<and> \<not> malloc_ok s))) \<or>
     (t = TEXT_GET \<and> \<not> malloc_ok s) \<or>
     (t = AUTHORIZE \<and> bev = None \<and> malloc_ok s \<and>
        (\<exists>req. param ev = Some (AuthorizeReq req) \<and> fst (authorize (Some req)))))"

definition outcome :: "bool \<Rightarrow> handler_result \<Rightarrow> bool" where
  "outcome crash r \<longleftrightarrow> (if crash then r = Some UB else (\<exists>s' rsp. r = returns (s', rsp)))"

lemma with_client_returns:
  assumes "clients_inv (svr_clients s)"
    and "\<And>a c. client_at s a = returns c \<Longrightarrow> \<exists>x. body a c = returns x"
  shows "\<exists>x. with_client ev s body = returns x"
proof -
  obtain M H where MH: "svr_clients s = (M, H)" by fastforce
  with assms(1) find_by_uid_returns [of M H "uid (header ev)"] obtain r where
    r: "ya_client_find_by_uid (svr_clients s) (uid (header ev)) = returns r"
       "\<And>a. r = Some a \<Longrightarrow> \<exists>c. client_at s a = returns c"
    by (fastforce simp: client_at_returns split: option.splits)
  show ?thesis
  proof (cases r)
    case None
    with r show ?thesis by (simp add: with_client_def)
  next
    case (Some a)
    with r(2) obtain c where c: "client_at s a = returns c" by blast
    from assms(2) [OF c] r(1) Some c show ?thesis by (auto simp: with_client_def)
  qed
qed

lemma modify_returns: "client_at s a = returns c \<Longrightarrow> \<exists>s'. modify_client a f s = returns s'"
  by (simp add: modify_client_returns)

lemma session_option_outcome:
  assumes "clients_inv (svr_clients s)" "event_fits ev" "h_type (header ev) = SESSION_OPTION"
  shows "\<exists>x. handle_session_option bev ev s = returns x"
proof (cases "param ev")
  case (Some p)
  with assms(2,3) obtain scale where "p = SessionOptionReq scale" by (cases p) (auto simp: event_fits_def)
  moreover have "\<exists>x. (if c_mouse_filter c = None then returns (s, None)
      else run_bind (modify_client a f s) (\<lambda>s'. returns (s', None))) = returns x"
    if "client_at s a = returns c" for a c f
    using modify_returns [OF that, of f] by auto
  ultimately show ?thesis
    unfolding handle_session_option_def Some \<open>p = _\<close> option.case ya_param.case Let_def
    by (intro with_client_returns [OF assms(1)]) blast
qed (simp add: handle_session_option_def)

lemma authorize_outcome:
  assumes "clients_inv (svr_clients s)" "event_fits ev" "h_type (header ev) = AUTHORIZE"
  shows "outcome (crashes bev ev s) (handle_authorize bev ev s)"
proof (cases "param ev")
  case (Some p)
  with assms(2,3) obtain req where p: "param ev = Some (AuthorizeReq req)"
    by (cases p) (auto simp: event_fits_def)
  obtain ok err where au: "authorize (Some req) = (ok, err)" by fastforce
  show ?thesis
  proof (cases "malloc_ok s \<and> ok \<and> bev \<noteq> None")
    case False
    with p au assms(3) show ?thesis
      by (cases bev) (auto simp: outcome_def crashes_def handle_authorize_def assign_response_def Let_def)
  next
    case True
    then obtain b where b: "bev = Some b" by auto
    obtain M H where MH: "svr_clients s = (M, H)" by fastforce
    with assms(1) find_by_fd_returns [of M H "bev_fd s b"] obtain r where
      r: "ya_client_find_by_fd (svr_clients s) (bev_fd s b) = returns r"
        "\<And>a. r = Some a \<Longrightarrow> \<exists>c. client_at s a = returns c"
      by (auto simp: client_at_returns)
    have keep: "client_at (s\<lparr>authorize_error := err\<rparr>) a = client_at s a" for a
      by (simp add: client_at_def)
    show ?thesis
    proof (cases r)
      case None
      with True b r MH p au assms(3) show ?thesis
        by (simp add: outcome_def crashes_def handle_authorize_def assign_response_def Let_def)
    next
      case (Some a)
      with r(2) obtain c where "client_at s a = returns c" by blast
      then have c: "client_at (s\<lparr>authorize_error := err\<rparr>) a = returns c" by (simp add: keep)
      obtain s2 where "modify_client a (\<lambda>c. c\<lparr>c_bev := Some b, c_protocol_version := version req,
          c_mouse_filter := map_option (\<lambda>f. ya_mouse_filter_set_algorithms_enabled f True) (c_mouse_filter c)\<rparr>)
          (s\<lparr>authorize_error := err\<rparr>) = returns s2"
        using modify_returns [OF c] by blast
      with True b r Some p au assms(3) c show ?thesis
        by (simp add: outcome_def crashes_def handle_authorize_def assign_response_def Let_def)
    qed
  qed
qed (use assms(3) in \<open>simp add: outcome_def crashes_def handle_authorize_def\<close>)

lemma power_action_outcome: "\<exists>x. power_action sc cmd bev ev s = returns x"
  by (simp add: power_action_def split: option.splits prod.splits)

lemma input_get_outcome: "outcome (\<not> malloc_ok s) (handle_input_get bev ev s)"
  by (simp add: handle_input_get_def outcome_def assign_response_def split: prod.splits option.splits)

lemma fits_cases:
  assumes "event_fits ev"
  shows "h_type (header ev) \<in> {MOUSE_MOVE, MOUSE_CLICK, MOUSE_WHEEL, CONTROL} \<Longrightarrow>
      param ev = None \<or> (\<exists>r. param ev = Some (CommonReq r))"
    and "h_type (header ev) = KEYBOARD \<Longrightarrow> param ev = None \<or> (\<exists>r. param ev = Some (KeyboardReq r))"
    and "h_type (header ev) = TEXT_INPUT \<Longrightarrow> param ev = None \<or> (\<exists>r. param ev = Some (TextInputReq r))"
    and "h_type (header ev) = DISCOVER \<Longrightarrow> param ev = None \<or> (\<exists>r. param ev = Some (DiscoverReq r))"
  using assms
  by (cases "param ev"; cases "the (param ev)"; auto simp: event_fits_def)+

lemma handler_outcome:
  assumes "clients_inv (svr_clients s)" "event_fits ev"
    and "find_event_handler (h_type (header ev)) = Some h" "h_type (header ev) \<notin> {MOUSE_MOVE, MOUSE_STOP}"
  shows "outcome (crashes bev ev s) (h bev ev s)"
proof -
  let ?t = "h_type (header ev)"
  consider (click_event) "?t = MOUSE_CLICK" | (scroll_event) "?t = MOUSE_WHEEL" | (key_event) "?t = KEYBOARD"
    | (text_event) "?t = TEXT_INPUT" | (get_event) "?t = TEXT_GET" | (discover_event) "?t = DISCOVER" | (auth_event) "?t = AUTHORIZE"
    | (beat_event) "?t = HEARTBEAT" | (option_event) "?t = SESSION_OPTION" | (control_event) "?t = CONTROL"
    using assms(3,4) by (auto simp: find_event_handler_def event_handlers_def split: if_splits)
  then show ?thesis
  proof cases
    case click_event
    with assms(3) have "h = handle_mouse_click" by (simp add: find_event_handler_def event_handlers_def)
    then show ?thesis
      using fits_cases(1) [OF assms(2)] click_event
      by (auto simp: outcome_def crashes_def handle_mouse_click_def split: option.split prod.split)
  next
    case scroll_event
    with assms(3) have "h = handle_mouse_scroll" by (simp add: find_event_handler_def event_handlers_def)
    then show ?thesis
      using fits_cases(1) [OF assms(2)] scroll_event
      by (auto simp: outcome_def crashes_def handle_mouse_scroll_def split: option.split prod.split)
  next
    case key_event
    with assms(3) have "h = handle_keyboard" by (simp add: find_event_handler_def event_handlers_def)
    then show ?thesis
      using fits_cases(2) [OF assms(2)] key_event
      by (auto simp: outcome_def crashes_def handle_keyboard_def split: option.split prod.split)
  next
    case text_event
    with assms(3) have "h = handle_input_text" by (simp add: find_event_handler_def event_handlers_def)
    then show ?thesis
      using fits_cases(3) [OF assms(2)] text_event
      by (auto simp: outcome_def crashes_def handle_input_text_def split: option.split prod.split)
  next
    case get_event
    with assms(3) have "h = handle_input_get" by (simp add: find_event_handler_def event_handlers_def)
    with get_event input_get_outcome [of s bev ev] show ?thesis by (simp add: crashes_def)
  next
    case discover_event
    with assms(3) have "h = handle_discover" by (simp add: find_event_handler_def event_handlers_def)
    then show ?thesis
      using fits_cases(4) [OF assms(2)] discover_event
      by (auto simp: outcome_def crashes_def handle_discover_def assign_response_def split: option.split prod.split)
  next
    case auth_event
    with assms(3) have "h = handle_authorize" by (simp add: find_event_handler_def event_handlers_def)
    with authorize_outcome [OF assms(1,2) auth_event] show ?thesis by simp
  next
    case beat_event
    with assms(3) have "h = handle_heartbeat" by (simp add: find_event_handler_def event_handlers_def)
    with beat_event show ?thesis by (simp add: outcome_def crashes_def handle_heartbeat_def)
  next
    case option_event
    with assms(3) have "h = handle_session_option" by (simp add: find_event_handler_def event_handlers_def)
    with option_event session_option_outcome [OF assms(1,2) option_event, of bev] show ?thesis
      by (auto simp: outcome_def crashes_def)
  next
    case control_event
    with assms(3) have h: "h = handle_control" by (simp add: find_event_handler_def event_handlers_def)
    have "\<exists>x. handle_control bev ev s = returns x"
    proof (cases "param ev")
      case (Some p)
      with control_event assms(2) obtain req where "p = CommonReq req" by (cases p) (auto simp: event_fits_def)
      with Some power_action_outcome show ?thesis
        by (simp add: handle_control_def handle_poweroff_def handle_restart_def handle_sleep_def del: split_paired_Ex)
    qed (simp add: handle_control_def)
    with h control_event show ?thesis by (auto simp: outcome_def crashes_def)
  qed
qed


section \<open>The guard of the dispatcher\<close>

text \<open>C21.
  The dispatcher's own sequence check is the function \<open>validate_command_index\<close>, which nothing
  calls: for a known event type, processing is validating and then running the handler.
\<close>

theorem dispatch_is_validation:
  "process_server_event bev ev client s =
     (case find_event_handler (h_type (header ev)) of
        None \<Rightarrow> returns (s, None)
      | Some handler \<Rightarrow> run_bind (validate_command_index client ev s) (\<lambda>(s', ok).
          if ok then handler bev ev s' else returns (s', None)))"
proof (cases "find_event_handler (h_type (header ev))")
  case None
  then show ?thesis by (simp add: process_server_event_def)
next
  case (Some h)
  show ?thesis
  proof (cases client)
    case None
    with Some show ?thesis by (simp add: process_server_event_def validate_command_index_def)
  next
    case (Some a)
    note cl = this
    show ?thesis
    proof (cases "client_at s a")
      case None
      with Some \<open>find_event_handler _ = _\<close> show ?thesis
        by (simp add: process_server_event_def validate_command_index_def)
    next
      case (Some r)
      show ?thesis
      proof (cases r)
        case UB
        with Some cl \<open>find_event_handler _ = _\<close> show ?thesis
          by (simp add: process_server_event_def validate_command_index_def)
      next
        case (Defined c)
        then obtain s1 where "modify_client a (\<lambda>c. c\<lparr>c_command_index := index (header ev)\<rparr>) s = returns s1"
          using Some modify_returns by blast
        with Defined Some cl \<open>find_event_handler _ = _\<close> show ?thesis
          by (simp add: process_server_event_def validate_command_index_def)
      qed
    qed
  qed
qed

section \<open>A sample server\<close>

definition sample_server :: server where
  "sample_server = input_world.extend open_world
     \<lparr>svr_clients = one_client, svr_throttle = g_mouse_throttle_init, mono_now = \<lparr>tv_sec = 100, tv_nsec = 0\<rparr>,
      session_sin_port = 0x2CB0, command_sin_port = 0x2DB0, macs_csv = None, primary_scale = 0x3F800000,
      bev_fd = (\<lambda>_. 7), malloc_ok = True, authorize_error = None, exe_link = Some ''/opt/mh/server'',
      script_exists = (\<lambda>_. False), system_results = [], system_log = [], rust_results = [], rust_log = []\<rparr>"

lemma sample_server_simps [simp]:
  "svr_clients sample_server = one_client" "malloc_ok sample_server" "bev_fd sample_server b = 7"
  "uinput_fd sample_server = 5" "ev_log sample_server = []" "write_results sample_server = []"
  "session_sin_port sample_server = 0x2CB0" "system_results sample_server = []" "system_log sample_server = []"
  "exe_link sample_server = Some ''/opt/mh/server''" "script_exists sample_server p = False"
  by (simp_all add: sample_server_def open_world_def open_dev_def input_world.defs input_dev.defs)

lemma sample_client: "\<exists>c. client_at sample_server 0 = returns c \<and> c_uid c = 1 \<and> c_command_index c = 0 \<and>
    c_state c = YA_CLIENT_ACTIVE \<and> c_ref_count c = 1 \<and> c_fd c = 7"
  by (simp add: client_at_returns one_client_def ya_client_create_def ya_client_manager_init_def Let_def)

lemma sample_inv: "clients_inv (svr_clients sample_server)"
  using one_client_reachable by (simp add: reachable_inv)

abbreviation click_event :: "u32 \<Rightarrow> YAEvent" where
  "click_event i \<equiv> \<lparr>header = \<lparr>h_type = MOUSE_CLICK, direction = REQUEST, index = i, uid = 1\<rparr>,
     param = Some (CommonReq \<lparr>lparam = 0, rparam = 2\<rparr>)\<rparr>"

lemma guarded_click: "guarded (click_event i)" "event_fits (click_event i)" "\<not> crashes bev (click_event i) s"
  "find_event_handler (h_type (header (click_event i))) \<noteq> None"
  by (simp_all add: guarded_def need_command_index_check_def find_event_handler_def event_handlers_def
      event_fits_def crashes_def)



text \<open>C22.
  A control command kills the server.  Whatever the action, its response has no parameter, but
  the serializer of control events reads one: sending the response is undefined behaviour.  For a
  shutdown, restart or sleep the scripts and commands have been run by then.
\<close>

theorem control_response_crashes:
  assumes "handle_control bev ev s = returns (s', Some response)" and "h_type (header ev) = CONTROL"
  shows "param response = None \<and> direction (header response) = RESPONSE \<and> ya_serialize_event response = UB"
proof -
  have "Some response = assign_response s ev None"
    using assms(1)
    by (auto simp: handle_control_def handle_poweroff_def handle_restart_def handle_sleep_def power_action_def
        split: option.splits ya_param.splits if_splits prod.splits)
  with assms(2) show ?thesis
    by (auto simp: assign_response_def ya_serialize_event_def get_serializer_def Let_def split: if_splits)
qed

theorem control_response_crashes_witness:
  "\<exists>s' response. handle_control None \<lparr>header = \<lparr>h_type = CONTROL, direction = REQUEST, index = 1, uid = 1\<rparr>,
       param = Some (CommonReq \<lparr>lparam = 1, rparam = 0\<rparr>)\<rparr> sample_server = returns (s', Some response) \<and>
     ya_serialize_event response = UB \<and> length (system_log s') = 1"
proof -
  let ?ev = "\<lparr>header = \<lparr>h_type = CONTROL, direction = REQUEST, index = 1, uid = 1\<rparr>,
       param = Some (CommonReq \<lparr>lparam = 1, rparam = 0\<rparr>)\<rparr>"
  have "\<exists>s' response. handle_control None ?ev sample_server = returns (s', Some response) \<and> length (system_log s') = 1"
    by (simp add: handle_control_def handle_poweroff_def power_action_def assign_response_def
        ya_run_power_script_def run_system_def Let_def)
  then obtain s' response where "handle_control None ?ev sample_server = returns (s', Some response)"
    "length (system_log s') = 1" by blast
  with control_response_crashes [of None ?ev sample_server s' response] show ?thesis by auto
qed

end
