(* ===== verification/ServerContext.thy ===== *)
theory ServerContext
  imports Event ClientManager
begin

text \<open>
  The server's own state in \<open>ya_server.h\<close> and \<open>ya_server.c\<close>: its life cycle, which of its four
  components are ready, its statistics and their MessagePack form, and the old names of the
  client table's operations.  The components are flagged by name; a name that is none of the four
  is ignored.
\<close>

datatype ya_server_state = YA_SERVER_INIT | YA_SERVER_RUNNING | YA_SERVER_STOPPING | YA_SERVER_STOPPED

record ya_server_components_state =
  session_server_ready :: bool
  command_server_ready :: bool
  http_server_ready :: bool
  discovery_ready :: bool

record ya_server_stats =
  total_connections :: u32
  active_connections :: u32
  total_commands :: u32
  failed_commands :: u32

text \<open>The fields of \<open>YA_ServerContext\<close> these operations use.\<close>

record svr_context =
  svr_state :: ya_server_state
  components_state :: ya_server_components_state
  svr_stats :: ya_server_stats

definition no_components :: ya_server_components_state where
  "no_components = \<lparr>session_server_ready = False, command_server_ready = False, http_server_ready = False,
     discovery_ready = False\<rparr>"

definition no_stats :: ya_server_stats where
  "no_stats = \<lparr>total_connections = 0, active_connections = 0, total_commands = 0, failed_commands = 0\<rparr>"

section \<open>Life cycle\<close>

definition ya_server_set_state :: "ya_server_state \<Rightarrow> 'a svr_context_scheme \<Rightarrow> 'a svr_context_scheme" where
  "ya_server_set_state new_state ctx = ctx\<lparr>svr_state := new_state\<rparr>"

definition ya_server_get_state :: "'a svr_context_scheme \<Rightarrow> ya_server_state" where
  "ya_server_get_state ctx = svr_state ctx"

fun ya_server_state_to_string :: "ya_server_state \<Rightarrow> string" where
  "ya_server_state_to_string YA_SERVER_INIT = ''INIT''"
| "ya_server_state_to_string YA_SERVER_RUNNING = ''RUNNING''"
| "ya_server_state_to_string YA_SERVER_STOPPING = ''STOPPING''"
| "ya_server_state_to_string YA_SERVER_STOPPED = ''STOPPED''"

definition ya_server_all_components_ready :: "ya_server_components_state \<Rightarrow> bool" where
  "ya_server_all_components_ready c \<longleftrightarrow>
     session_server_ready c \<and> command_server_ready c \<and> http_server_ready c \<and> discovery_ready c"

definition ya_server_is_component_ready :: "ya_server_components_state \<Rightarrow> string \<Rightarrow> bool" where
  "ya_server_is_component_ready c component =
     (if component = ''session'' then session_server_ready c
      else if component = ''command'' then command_server_ready c
      else if component = ''http'' then http_server_ready c
      else if component = ''discovery'' then discovery_ready c
      else False)"

text \<open>The pointer it is given is always to the context's own flags.\<close>

definition ya_server_set_component_ready ::
  "string \<Rightarrow> bool \<Rightarrow> 'a svr_context_scheme \<Rightarrow> 'a svr_context_scheme" where
  "ya_server_set_component_ready component ready ctx =
     (let c = components_state ctx;
          c' = (if component = ''session'' then c\<lparr>session_server_ready := ready\<rparr>
                else if component = ''command'' then c\<lparr>command_server_ready := ready\<rparr>
                else if component = ''http'' then c\<lparr>http_server_ready := ready\<rparr>
                else if component = ''discovery'' then c\<lparr>discovery_ready := ready\<rparr>
                else c);
          ctx' = ctx\<lparr>components_state := c'\<rparr>
      in if ready \<and> ya_server_all_components_ready c' then ya_server_set_state YA_SERVER_RUNNING ctx' else ctx')"

section \<open>Statistics\<close>

definition ya_server_stats_inc_connections :: "'a svr_context_scheme \<Rightarrow> 'a svr_context_scheme" where
  "ya_server_stats_inc_connections ctx =
     ctx\<lparr>svr_stats := (svr_stats ctx)\<lparr>total_connections := total_connections (svr_stats ctx) + 1,
                                    active_connections := active_connections (svr_stats ctx) + 1\<rparr>\<rparr>"

definition ya_server_stats_dec_connections :: "'a svr_context_scheme \<Rightarrow> 'a svr_context_scheme" where
  "ya_server_stats_dec_connections ctx =
     (if 0 < active_connections (svr_stats ctx)
      then ctx\<lparr>svr_stats := (svr_stats ctx)\<lparr>active_connections := active_connections (svr_stats ctx) - 1\<rparr>\<rparr>
      else ctx)"

definition ya_server_stats_inc_commands :: "bool \<Rightarrow> 'a svr_context_scheme \<Rightarrow> 'a svr_context_scheme" where
  "ya_server_stats_inc_commands ok ctx =
     (let st = (svr_stats ctx)\<lparr>total_commands := total_commands (svr_stats ctx) + 1\<rparr>
      in ctx\<lparr>svr_stats := (if \<not> ok then st\<lparr>failed_commands := failed_commands st + 1\<rparr> else st)\<rparr>)"

definition stats_map :: "mpack_writer \<Rightarrow> ya_server_stats \<Rightarrow> mpack_writer" where
  "stats_map w st =
     (let w1 = mpack_start_map w 4;
          w2 = mpack_write_u32 (mpack_write_cstr w1 (bytes_of_string ''total_connections'')) (total_connections st);
          w3 = mpack_write_u32 (mpack_write_cstr w2 (bytes_of_string ''active_connections'')) (active_connections st);
          w4 = mpack_write_u32 (mpack_write_cstr w3 (bytes_of_string ''total_commands'')) (total_commands st)
      in mpack_write_u32 (mpack_write_cstr w4 (bytes_of_string ''failed_commands'')) (failed_commands st))"

text \<open>The bytes put into the buffer and the number of them; the writer's error is not looked at.\<close>

definition ya_server_stats_pack :: "ya_server_stats \<Rightarrow> nat \<Rightarrow> u8 list \<times> nat" where
  "ya_server_stats_pack st buffer_size =
     (let w = stats_map (mpack_writer_init buffer_size) st in (wbuf w, length (wbuf w)))"

section \<open>Old names of the client table's operations\<close>

definition get_client_by_id :: "clients \<Rightarrow> u32 \<Rightarrow> ptr run" where
  "get_client_by_id S u = ya_client_find_by_uid S u"

definition get_client_by_fd :: "clients \<Rightarrow> i32 \<Rightarrow> ptr run" where
  "get_client_by_fd S fd = ya_client_find_by_fd S fd"

definition new_client_and_append_to_context :: "ptr \<Rightarrow> bool \<Rightarrow> int \<Rightarrow> clients \<Rightarrow> i32 \<Rightarrow> clients \<times> ptr" where
  "new_client_and_append_to_context block filter_ok now S fd = ya_client_create block filter_ok now S fd None"

definition remove_client :: "clients \<Rightarrow> u32 \<Rightarrow> clients run" where
  "remove_client S u = ya_client_remove S u"

text \<open>Without a bufferevent no client is ever created under the old name.\<close>

lemma old_create_fails: "new_client_and_append_to_context block filter_ok now S fd = (S, None)"
  by (cases S) (simp add: new_client_and_append_to_context_def ya_client_create_def)

section \<open>When the server runs\<close>

text \<open>Flagging components in turn.\<close>

definition flag_components :: "(string \<times> bool) list \<Rightarrow> 'a svr_context_scheme \<Rightarrow> 'a svr_context_scheme" where
  "flag_components fs ctx = fold (\<lambda>(c, r). ya_server_set_component_ready c r) fs ctx"

abbreviation component_names :: "string set" where
  "component_names \<equiv> {''session'', ''command'', ''http'', ''discovery''}"

lemma component_ready_set:
  "ya_server_is_component_ready (components_state (ya_server_set_component_ready c r ctx)) d =
     (if c = d \<and> d \<in> component_names then r else ya_server_is_component_ready (components_state ctx) d)"
  by (auto simp: ya_server_is_component_ready_def ya_server_set_component_ready_def ya_server_set_state_def Let_def)

lemma all_ready_names:
  "ya_server_all_components_ready c \<longleftrightarrow> (\<forall>d \<in> component_names. ya_server_is_component_ready c d)"
  by (simp add: ya_server_all_components_ready_def ya_server_is_component_ready_def)

lemma state_set:
  "svr_state (ya_server_set_component_ready c r ctx) =
     (if r \<and> ya_server_all_components_ready (components_state (ya_server_set_component_ready c r ctx))
      then YA_SERVER_RUNNING else svr_state ctx)"
  by (auto simp: ya_server_set_component_ready_def ya_server_set_state_def Let_def)

text \<open>
  The server turns RUNNING exactly when the last of its four components is flagged ready: as long
  as components are only flagged ready, in whatever order and however often, it runs if and only
  if each of the four has been flagged, and a component is ready if and only if it has been.
\<close>

theorem runs_when_all_ready:
  assumes "components_state ctx = no_components" and "svr_state ctx \<noteq> YA_SERVER_RUNNING"
  shows "(svr_state (flag_components (map (\<lambda>c. (c, True)) names) ctx) = YA_SERVER_RUNNING \<longleftrightarrow>
       component_names \<subseteq> set names) \<and>
     (\<forall>c. ya_server_is_component_ready (components_state (flag_components (map (\<lambda>c. (c, True)) names) ctx)) c \<longleftrightarrow>
       c \<in> set names \<inter> component_names)"
proof (induction names rule: rev_induct)
  case Nil
  with assms show ?case
    by (auto simp: flag_components_def no_components_def ya_server_is_component_ready_def)
next
  case (snoc c names)
  let ?ctx = "flag_components (map (\<lambda>c. (c, True)) names) ctx"
  have step: "flag_components (map (\<lambda>c. (c, True)) (names @ [c])) ctx = ya_server_set_component_ready c True ?ctx"
    by (simp add: flag_components_def)
  have ready: "ya_server_is_component_ready (components_state (ya_server_set_component_ready c True ?ctx)) d \<longleftrightarrow>
      d \<in> set (names @ [c]) \<inter> component_names" for d
    using snoc.IH unfolding component_ready_set by auto
  have "ya_server_all_components_ready (components_state (ya_server_set_component_ready c True ?ctx)) \<longleftrightarrow>
      component_names \<subseteq> set (names @ [c])"
    unfolding all_ready_names ready by blast
  with ready snoc.IH show ?case
    unfolding step state_set by auto
qed

theorem runs_when_all_ready_witness:
  "svr_state (flag_components (map (\<lambda>c. (c, True)) [''session'', ''command'', ''discovery'', ''http''])
     \<lparr>svr_state = YA_SERVER_INIT, components_state = no_components, svr_stats = no_stats\<rparr>) = YA_SERVER_RUNNING"
  using runs_when_all_ready [of "\<lparr>svr_state = YA_SERVER_INIT, components_state = no_components, svr_stats = no_stats\<rparr>"
      "[''session'', ''command'', ''discovery'', ''http'']"] by auto

section \<open>Packing the statistics\<close>

lemma wcap_native: "wcap (mpack_write_native w bs) = wcap w"
  by (simp add: mpack_write_native_def mpack_writer_flag_error_def)

lemma wcap_writes:
  "wcap (mpack_write_u32 w v) = wcap w" "wcap (mpack_write_str w s) = wcap w"
  "wcap (mpack_write_cstr w s) = wcap w" "wcap (mpack_start_map w v) = wcap w"
proof -
  show str: "wcap (mpack_write_str w s) = wcap w" for w s
    by (simp add: mpack_write_str_def wcap_native Let_def)
  show "wcap (mpack_write_cstr w s) = wcap w"
    by (simp add: mpack_write_cstr_def str mpack_writer_flag_error_def Let_def)
qed (simp_all add: mpack_write_u32_def mpack_start_map_def mpack_write_map_notrack_def wcap_native)

lemma native_fits:
  "wcap w = Some c \<Longrightarrow> length (wbuf w) + length bs \<le> c \<Longrightarrow>
     mpack_write_native w bs = w\<lparr>wbuf := wbuf w @ bs\<rparr>"
  by (simp add: mpack_write_native_def mpack_has_room_def)

text \<open>Writing into a fixed buffer with room is writing into a growable one.\<close>

lemma u32_fits:
  "wcap w = Some c \<Longrightarrow> length (wbuf w) + 5 \<le> c \<Longrightarrow>
     mpack_write_u32 w v = w\<lparr>wbuf := wbuf w @ u32_bytes v\<rparr>"
  by (simp add: mpack_write_u32_def u32_bytes_def native_fits mpack_encode_fixuint_def mpack_encode_u8_def
      mpack_encode_u16_def mpack_encode_u32_def mpack_store_u16_def mpack_store_u32_def wire_simps)

lemma literal_fits:
  assumes "wcap w = Some c" "length s \<le> 31" "0 \<notin> set s" "length (wbuf w) + length s + 1 \<le> c"
  shows "mpack_write_cstr w s = w\<lparr>wbuf := wbuf w @ str_bytes s\<rparr>"
proof -
  have s: "cstr s = s" using assms(3) by (auto simp: cstr_def takeWhile_eq_all_conv)
  have "word_of_nat (length s) \<le> (31 :: u32)"
    using assms(2) by (simp add: u32_le_iff unat_of_nat take_bit_nat_eq_self)
  with assms s show ?thesis
    by (simp add: mpack_write_cstr_def mpack_write_str_def str_bytes_def native_fits mpack_encode_fixstr_def wire_simps)
qed

lemma u32_bytes_length: "length (u32_bytes v) \<le> 5"
  by (rule length_u32_bytes)

lemma str_bytes_short: "length s \<le> 31 \<Longrightarrow> length (str_bytes s) = length s + 1"
proof -
  assume l: "length s \<le> 31"
  then have "word_of_nat (length s) \<le> (31 :: u32)"
    by (simp add: u32_le_iff unat_of_nat take_bit_nat_eq_self)
  then show ?thesis by (simp add: str_bytes_def mpack_write_str_def mpack_encode_fixstr_def wire_simps)
qed

text \<open>A buffer with the bytes \<open>bs\<close> written and room for the rest.\<close>

abbreviation filled :: "nat \<Rightarrow> u8 list \<Rightarrow> mpack_writer" where
  "filled c bs \<equiv> \<lparr>wbuf = bs, wcap = Some c, werror = mpack_ok\<rparr>"

definition stat_field :: "string \<Rightarrow> u32 \<Rightarrow> u8 list" where
  "stat_field name v = str_bytes (bytes_of_string name) @ u32_bytes v"

lemma stat_field_fits:
  assumes "length name \<le> 31" "0 \<notin> set (bytes_of_string name)" "length bs + length name + 6 \<le> c"
  shows "mpack_write_u32 (mpack_write_cstr (filled c bs) (bytes_of_string name)) v =
      filled c (bs @ stat_field name v) \<and> length (bs @ stat_field name v) \<le> length bs + length name + 6"
proof -
  have l: "length (bytes_of_string name) = length name" by (simp add: bytes_of_string_def)
  from assms l have "mpack_write_cstr (filled c bs) (bytes_of_string name) =
      filled c (bs @ str_bytes (bytes_of_string name))"
    by (subst literal_fits [where c = c]) auto
  moreover have "length (str_bytes (bytes_of_string name)) = length name + 1"
    using assms(1) l by (simp add: str_bytes_short)
  ultimately show ?thesis
    using assms(3) u32_bytes_length [of v] by (simp add: u32_fits [where c = c] stat_field_def)
qed

text \<open>
  Packing the statistics never writes past the buffer it is given, and in a buffer of at least 89
  bytes it writes the whole map of the four counters and returns its length.
\<close>

theorem stats_pack_bounded:
  "snd (ya_server_stats_pack st n) \<le> n \<and>
   fst (ya_server_stats_pack st (89 + m)) = 0x84 # stat_field ''total_connections'' (total_connections st) @
     stat_field ''active_connections'' (active_connections st) @ stat_field ''total_commands'' (total_commands st) @
     stat_field ''failed_commands'' (failed_commands st)"
proof (rule conjI)
  have "writer_inv (stats_map (mpack_writer_init n) st)"
    unfolding stats_map_def Let_def by (intro inv_intros) simp
  moreover have "wcap (stats_map (mpack_writer_init n) st) = Some n"
    by (simp add: stats_map_def Let_def wcap_writes mpack_writer_init_def)
  ultimately show "snd (ya_server_stats_pack st n) \<le> n"
    by (simp add: ya_server_stats_pack_def Let_def writer_inv_def)
next
  let ?n = "89 + m"
  have 0: "mpack_start_map (mpack_writer_init ?n) 4 = filled ?n [0x84]"
    by (simp add: mpack_start_map_def mpack_write_map_notrack_def mpack_writer_init_def mpack_encode_fixmap_def native_fits)
  have nz: "0 \<notin> set (bytes_of_string ''total_connections'')" "0 \<notin> set (bytes_of_string ''active_connections'')"
    "0 \<notin> set (bytes_of_string ''total_commands'')" "0 \<notin> set (bytes_of_string ''failed_commands'')"
    by (simp_all add: bytes_of_string_def)
  let ?b1 = "[0x84] @ stat_field ''total_connections'' (total_connections st)"
  let ?b2 = "?b1 @ stat_field ''active_connections'' (active_connections st)"
  let ?b3 = "?b2 @ stat_field ''total_commands'' (total_commands st)"
  note 1 = stat_field_fits [OF _ nz(1), of "[0x84]" ?n "total_connections st"]
  then have l1: "length ?b1 \<le> 24" by simp
  note 2 = stat_field_fits [OF _ nz(2), of ?b1 ?n "active_connections st"]
  then have l2: "length ?b2 \<le> 48" using l1 by simp
  note 3 = stat_field_fits [OF _ nz(3), of ?b2 ?n "total_commands st"]
  then have l3: "length ?b3 \<le> 68" using l2 by simp
  note 4 = stat_field_fits [OF _ nz(4), of ?b3 ?n "failed_commands st"]
  have "stats_map (mpack_writer_init ?n) st = filled ?n (?b3 @ stat_field ''failed_commands'' (failed_commands st))"
    unfolding stats_map_def Let_def 0 using 1 2 3 4 l1 l2 l3 by simp
  then show "fst (ya_server_stats_pack st ?n) = 0x84 # stat_field ''total_connections'' (total_connections st) @
     stat_field ''active_connections'' (active_connections st) @ stat_field ''total_commands'' (total_commands st) @
     stat_field ''failed_commands'' (failed_commands st)"
    by (simp add: ya_server_stats_pack_def Let_def)
qed

end
