(* ===== verification/Session.thy ===== *)
theory Session
  imports Handler ServerContext
begin

text \<open>
  The three servers: sessions over TCP (\<open>ya_server_session.c\<close>), commands over UDP
  (\<open>ya_server_command.c\<close>) and discovery (\<open>ya_server_discover.c\<close>), as the callbacks of the event
  loop over the state of the process.

  \<open>net\<close> holds the server, its context, the input and output buffer of each bufferevent, the
  argument its callbacks were registered with, the datagrams sent, and how many buffers the code
  allocated and did not free.  Buffers are libevent's, of a type of their own; a callback gets
  their operations, and the reader of datagrams \<open>mk\<close>, which is \<open>evbuffer_new\<close> with
  \<open>evbuffer_add\<close>.
\<close>

record 'b net =
  srv :: server
  ctx :: svr_context
  inbuf :: "nat \<Rightarrow> 'b"
  outbuf :: "nat \<Rightarrow> u8 list"
  user_data :: "nat \<Rightarrow> ptr"
  sent :: "(nat \<times> u8 list) list"
  lost_buffers :: nat
  loop_break :: bool

section \<open>Sessions\<close>

definition run_session_server :: "bool \<Rightarrow> int" where
  "run_session_server listener_ok = (if \<not> listener_ok then - 1 else 0)"

text \<open>\<open>bev\<close> is the result of \<open>bufferevent_socket_new\<close>, with an empty input buffer.\<close>

definition accept_cb :: "'b \<Rightarrow> nat option \<Rightarrow> ptr \<Rightarrow> bool \<Rightarrow> int \<Rightarrow> i32 \<Rightarrow> 'b net \<Rightarrow> 'b net" where
  "accept_cb fresh_in bev block filter_ok now fd w =
     (case bev of
        None \<Rightarrow> w\<lparr>loop_break := True\<rparr>
      | Some b \<Rightarrow>
          let s = (srv w)\<lparr>bev_fd := (bev_fd (srv w))(b := fd)\<rparr> in
          (case ya_client_create block filter_ok now (svr_clients s) fd (Some b) of
             ((M, H), None) \<Rightarrow> w\<lparr>srv := s\<lparr>svr_clients := (M, H\<lparr>bevs_freed := bevs_freed H @ [b]\<rparr>)\<rparr>\<rparr>
           | (S, Some a) \<Rightarrow>
               w\<lparr>srv := s\<lparr>svr_clients := S\<rparr>, ctx := ya_server_stats_inc_connections (ctx w),
                 inbuf := (inbuf w)(b := fresh_in), outbuf := (outbuf w)(b := []),
                 user_data := (user_data w)(b := Some a)\<rparr>))"

text \<open>
  A response is serialized and freed; the bytes to send.  The request's parameter is not freed.
\<close>

definition reply :: "YAEvent option \<Rightarrow> u8 list option run" where
  "reply response =
     (case response of
        None \<Rightarrow> returns None
      | Some r \<Rightarrow>
          run_bind (Some (ya_serialize_event r)) (\<lambda>rsp.
          run_bind (Some (ya_free_event_param r)) (\<lambda>_. returns (Some rsp))))"

definition no_event :: YAEvent where
  "no_event = \<lparr>header = \<lparr>h_type = 0, direction = 0, index = 0, uid = 0\<rparr>, param = None\<rparr>"

text \<open>The test for a whole package: the buffer's length as an \<open>int\<close>, the sum in 32 bits.\<close>

definition package_complete :: "'b evbuffer_api \<Rightarrow> 'b \<Rightarrow> bool" where
  "package_complete ev input \<longleftrightarrow>
     \<not> (word_of_nat (ev_length ev input) < totalSize (ya_get_package_size ev input) + 4)"

definition conn_readcb :: "'b evbuffer_api \<Rightarrow> bool \<Rightarrow> nat \<Rightarrow> ptr \<Rightarrow> 'b net \<Rightarrow> 'b net run" where
  "conn_readcb ev oom bev client w =
     (case client of
        None \<Rightarrow> returns w
      | Some a \<Rightarrow>
          run_bind (client_at (srv w) a) (\<lambda>c.
            if c_state c \<noteq> YA_CLIENT_ACTIVE then returns w
            else if \<not> package_complete ev (inbuf w bev) then returns w
            else
              run_bind (Some (ya_parse_event ev oom (ev_drain ev (inbuf w bev) 8) no_event
                               (ya_get_package_size ev (inbuf w bev)))) (\<lambda>(input, request).
                let w1 = w\<lparr>inbuf := (inbuf w)(bev := input)\<rparr> in
                case request of
                  None \<Rightarrow> returns w1
                | Some req \<Rightarrow>
                    run_bind (ya_client_ref (svr_clients (srv w1)) client) (\<lambda>S1.
                    run_bind (process_server_event (Some bev) req client ((srv w1)\<lparr>svr_clients := S1\<rparr>))
                      (\<lambda>(s2, response).
                    run_bind (reply response) (\<lambda>rsp.
                    run_bind (ya_client_unref (svr_clients s2) client) (\<lambda>S3.
                      returns (w1\<lparr>srv := s2\<lparr>svr_clients := S3\<rparr>,
                        outbuf := (outbuf w1)(bev := outbuf w1 bev @ (case rsp of None \<Rightarrow> [] | Some bs \<Rightarrow> bs))\<rparr>))))))))"

text \<open>\<open>BEV_EVENT_EOF\<close> is \<open>0x10\<close> and \<open>BEV_EVENT_ERROR\<close> is \<open>0x20\<close>.\<close>

definition drop_bev :: "client_heap \<Rightarrow> ya_client \<Rightarrow> client_heap" where
  "drop_bev H c = H\<lparr>bevs_freed := bevs_freed H @ (case c_bev c of None \<Rightarrow> [] | Some b \<Rightarrow> [b])\<rparr>"

definition conn_eventcb :: "u16 \<Rightarrow> ptr \<Rightarrow> 'b net \<Rightarrow> 'b net run" where
  "conn_eventcb events client w =
     (if events AND 0x30 = 0 then returns w
      else case client of
        None \<Rightarrow> returns w
      | Some a \<Rightarrow>
          run_bind (client_at (srv w) a) (\<lambda>c.
          run_bind (modify_client a (\<lambda>c. c\<lparr>c_state := YA_CLIENT_DISCONNECTING, c_bev := None\<rparr>) (srv w)) (\<lambda>s1.
          case svr_clients s1 of (M, H) \<Rightarrow>
          run_bind (ya_client_unref (M, drop_bev H c) client) (\<lambda>S2.
            returns (w\<lparr>srv := s1\<lparr>svr_clients := S2\<rparr>, ctx := ya_server_stats_dec_connections (ctx w)\<rparr>)))))"

section \<open>Commands\<close>

text \<open>The results of the socket calls in turn; every failure is a positive number.\<close>

definition run_command_server :: "bool \<Rightarrow> bool \<Rightarrow> bool \<Rightarrow> bool \<Rightarrow> int" where
  "run_command_server socket_ok nonblocking_ok bind_ok event_ok =
     (if \<not> socket_ok then 2 else if \<not> nonblocking_ok then 3 else if \<not> bind_ok then 4
      else if \<not> event_ok then 5 else 0)"

text \<open>
  \<open>received\<close> is the sender and the bytes of the datagram, \<open>None\<close> when receiving fails; at most
  2048 bytes are taken.  The early returns do not free the buffer.
\<close>

definition udp_readcb ::
  "'b evbuffer_api \<Rightarrow> (u8 list \<Rightarrow> 'b) \<Rightarrow> bool \<Rightarrow> (nat \<times> u8 list) option \<Rightarrow> 'b net \<Rightarrow> 'b net run" where
  "udp_readcb ev mk oom received w =
     (case received of
        None \<Rightarrow> returns w
      | Some (addr, data) \<Rightarrow>
          let buffer = take 2048 data; input = mk buffer; sz = ya_get_package_size ev input;
              lost = w\<lparr>lost_buffers := lost_buffers w + 1\<rparr>
          in if word_of_nat (length buffer) \<noteq> totalSize sz + 4 then returns lost
             else
               run_bind (Some (ya_parse_event ev oom (ev_drain ev input 8) no_event sz)) (\<lambda>(_, request).
                 case request of
                   None \<Rightarrow> returns lost
                 | Some req \<Rightarrow>
                     run_bind (get_client_by_id (svr_clients (srv w)) (uid (header req))) (\<lambda>client.
                     run_bind (process_server_event None req client (srv w)) (\<lambda>(s1, response).
                     run_bind (reply response) (\<lambda>rsp.
                       returns (w\<lparr>srv := s1, sent := sent w @ (case rsp of None \<Rightarrow> [] | Some bs \<Rightarrow> [(addr, bs)])\<rparr>))))))"

section \<open>Discovery\<close>

definition DISCOVERY_PORT_START :: nat where "DISCOVERY_PORT_START = 45101"
definition REQUEST_BUFFER_SIZE :: nat where "REQUEST_BUFFER_SIZE = 512"

text \<open>The descriptor of the socket, or \<open>None\<close> for the result -1.\<close>

definition create_broadcast_server :: "i32 \<Rightarrow> bool \<Rightarrow> bool \<Rightarrow> i32 option" where
  "create_broadcast_server sock setsockopt_ok bind_ok =
     (if sint sock < 0 then None else if \<not> setsockopt_ok then None else if \<not> bind_ok then None else Some sock)"

text \<open>
  The loop reads the first four bytes of whatever parameter the parser made as the magic number.
  \<open>raw\<close> gives them for the parameters that start with a pointer or a float.
\<close>

definition first_word :: "(ya_param \<Rightarrow> u32) \<Rightarrow> ya_param \<Rightarrow> u32" where
  "first_word raw p =
     (case p of
        CommonReq req \<Rightarrow> lparam req
      | KeyboardReq req \<Rightarrow> code req
      | AuthorizeReq req \<Rightarrow> client_type req
      | DiscoverReq magic \<Rightarrow> magic
      | _ \<Rightarrow> raw p)"

text \<open>One turn of \<open>run_loop\<close>; the buffer of the datagram is never freed.\<close>

definition discover_turn ::
  "'b evbuffer_api \<Rightarrow> (u8 list \<Rightarrow> 'b) \<Rightarrow> bool \<Rightarrow> (ya_param \<Rightarrow> u32) \<Rightarrow> (nat \<times> u8 list) option \<Rightarrow> 'b net \<Rightarrow> 'b net run" where
  "discover_turn ev mk oom raw received w =
     (let lost = w\<lparr>lost_buffers := lost_buffers w + 1\<rparr> in
      case received of
        None \<Rightarrow> returns lost
      | Some (addr, data) \<Rightarrow>
          let buffer = take REQUEST_BUFFER_SIZE data; input = mk buffer; sz = ya_get_package_size ev input
          in if length buffer \<noteq> unat (totalSize sz + 4) then returns lost
             else
               run_bind (Some (ya_parse_event ev oom (ev_drain ev input 8) no_event sz)) (\<lambda>(_, request).
                 case request of
                   None \<Rightarrow> returns lost
                 | Some req \<Rightarrow>
                     (case param req of
                        None \<Rightarrow> Some UB
                      | Some p \<Rightarrow>
                          if first_word raw p \<noteq> DISCOVERY_MAGIC then returns lost
                          else
                            run_bind (Some (ya_serialize_event
                              \<lparr>header = \<lparr>h_type = DISCOVER, direction = RESPONSE, index = 0, uid = 0\<rparr>,
                               param = Some (DiscoverResp (session_sin_port (srv w)))\<rparr>)) (\<lambda>rsp.
                              returns (lost\<lparr>sent := sent w @ [(addr, rsp)]\<rparr>)))))"

section \<open>What a callback does to the client table\<close>

text \<open>The fields of a client that decide when it is freed and found.\<close>

definition same_refs :: "ya_client \<Rightarrow> ya_client \<Rightarrow> bool" where
  "same_refs c c' \<longleftrightarrow> c_ref_count c' = c_ref_count c \<and> c_state c' = c_state c"

definition refs_kept :: "(addr \<Rightarrow> ya_client option) \<Rightarrow> (addr \<Rightarrow> ya_client option) \<Rightarrow> bool" where
  "refs_kept h h' \<longleftrightarrow> (\<forall>a. rel_option same_refs (h a) (h' a))"

lemma same_refs_refl [simp]: "same_refs c c"
  by (simp add: same_refs_def)

lemma refs_kept_refl [simp]: "refs_kept h h"
  by (simp add: refs_kept_def option.rel_refl)

lemma refs_kept_trans: "refs_kept h h1 \<Longrightarrow> refs_kept h1 h2 \<Longrightarrow> refs_kept h h2"
proof -
  have "rel_option same_refs x z" if "rel_option same_refs x y" "rel_option same_refs y z" for x y z
    using that by (auto simp: rel_option_iff same_refs_def split: option.splits)
  then show "refs_kept h h1 \<Longrightarrow> refs_kept h1 h2 \<Longrightarrow> refs_kept h h2"
    unfolding refs_kept_def by blast
qed

lemma refs_kept_upd: "h a = Some c \<Longrightarrow> same_refs c c' \<Longrightarrow> refs_kept h (h(a \<mapsto> c'))"
  by (simp add: refs_kept_def option.rel_refl)

lemma refs_kept_Some: "refs_kept h h' \<Longrightarrow> h a = Some c \<Longrightarrow> \<exists>c'. h' a = Some c' \<and> same_refs c c'"
  by (auto simp: refs_kept_def option_rel_Some1 dest!: spec [of _ a])

lemma refs_kept_Some': "refs_kept h h' \<Longrightarrow> h' a = Some c' \<Longrightarrow> \<exists>c. h a = Some c \<and> same_refs c c'"
  by (auto simp: refs_kept_def option_rel_Some2 dest!: spec [of _ a])

lemma clients_kept_refs:
  assumes "clients_kept s s'"
  shows "refs_kept (cells (snd (svr_clients s))) (cells (snd (svr_clients s')))"
proof -
  have "rel_option same_refs x y" if "rel_option client_same x y" for x y
    using that by (auto simp: rel_option_iff client_same_def same_refs_def split: option.splits)
  with assms show ?thesis by (simp add: clients_kept_def refs_kept_def)
qed

lemma process_refs:
  assumes "process_server_event bev ev client s = returns (s', r)" and inv: "clients_inv (svr_clients s)"
  shows "clients_inv (svr_clients s') \<and> refs_kept (cells (snd (svr_clients s))) (cells (snd (svr_clients s')))"
proof (cases "find_event_handler (h_type (header ev))")
  case None
  with assms show ?thesis by (simp add: process_server_event_def)
next
  case (Some h)
  have run: "clients_inv (svr_clients s') \<and> refs_kept (cells (snd (svr_clients t))) (cells (snd (svr_clients s')))"
    if "h bev ev t = returns (s', r)" "clients_inv (svr_clients t)" for t
    using kept_inv [OF that(2)] clients_kept_refs handler_kept [OF Some that(1)] by blast
  show ?thesis
  proof (cases "client \<noteq> None \<and> guarded ev")
    case False
    with Some assms(1) have "h bev ev s = returns (s', r)"
      by (auto simp: process_server_event_def guarded_def split: if_splits option.splits)
    with run inv show ?thesis by blast
  next
    case True
    then obtain a where a: "client = Some a" by auto
    have "run_bind (client_at s a) (\<lambda>c. if index (header ev) \<le> c_command_index c then returns (s, None)
            else run_bind (modify_client a (\<lambda>c. c\<lparr>c_command_index := index (header ev)\<rparr>) s)
                   (\<lambda>s'. h bev ev s')) = returns (s', r)"
      using True a Some assms(1) by (simp add: process_server_event_def guarded_def)
    then obtain c where c: "client_at s a = returns c"
      and p: "(if index (header ev) \<le> c_command_index c then returns (s, None)
            else run_bind (modify_client a (\<lambda>c. c\<lparr>c_command_index := index (header ev)\<rparr>) s)
                   (\<lambda>s'. h bev ev s')) = returns (s', r)"
      unfolding run_bind_eq_returns by blast
    show ?thesis
    proof (cases "index (header ev) \<le> c_command_index c")
      case old: True
      with p inv show ?thesis by simp
    next
      case False
      let ?c = "c\<lparr>c_command_index := index (header ev)\<rparr>"
      obtain M H where MH: "svr_clients s = (M, H)" by fastforce
      let ?t = "s\<lparr>svr_clients := (M, H\<lparr>cells := (cells H)(a \<mapsto> ?c)\<rparr>)\<rparr>"
      have H: "cells H a = Some c" using c MH by (simp add: client_at_returns)
      then have "modify_client a (\<lambda>c. c\<lparr>c_command_index := index (header ev)\<rparr>) s = returns ?t"
        using MH by (simp add: modify_client_def)
      with False p have h: "h bev ev ?t = returns (s', r)" by simp
      obtain xs where "client_table (M, H) xs" using inv MH by (auto simp: clients_inv_def)
      from table_update [OF this H, of ?c] have "clients_inv (svr_clients ?t)" by (auto simp: clients_inv_def)
      from run [OF h this] refs_kept_upd [of "cells H" a c ?c] H MH show ?thesis
        by (auto intro: refs_kept_trans simp: same_refs_def)
    qed
  qed
qed

context client_store
begin

text \<open>A reference taken around an operation that keeps the counts is given back exactly.\<close>

lemma bracket_returns:
  assumes s: "inv s" "look s a = Some c" "c_ref_count c + 1 \<noteq> 0" "c_state c = YA_CLIENT_ACTIVE"
    and ref: "ref s (Some a) = returns s1"
    and mid: "inv s1 \<Longrightarrow> inv s2 \<and> refs_kept (look s1) (look s2)"
    and unref: "unref s2 (Some a) = returns s'"
  shows "inv s' \<and> refs_kept (look s) (look s')"
proof -
  from ref_law [OF s(1,2)] ref have 1: "inv s1" "look s1 = (look s)(a \<mapsto> c\<lparr>c_ref_count := c_ref_count c + 1\<rparr>)"
    by auto
  with mid have 2: "inv s2" "refs_kept (look s1) (look s2)" by auto
  from refs_kept_Some [OF 2(2), of a] 1(2) obtain c2 where
    c2: "look s2 a = Some c2" "c_ref_count c2 = c_ref_count c + 1" "c_state c2 = YA_CLIENT_ACTIVE"
    using s(4) by (auto simp: same_refs_def)
  from unref_law [OF 2(1) c2(1)] c2 s(3) unref have
    3: "inv s'" "look s' = (look s2)(a \<mapsto> c2\<lparr>c_ref_count := c_ref_count c2 - 1\<rparr>)" by auto
  have "rel_option same_refs (look s b) (look s' b)" for b
  proof (cases "b = a")
    case True
    with 3(2) c2 s(2,4) show ?thesis by (simp add: same_refs_def)
  next
    case False
    with 2(2) 1(2) 3(2) show ?thesis by (auto simp: refs_kept_def dest!: spec [of _ b])
  qed
  with 3(1) show ?thesis by (simp add: refs_kept_def)
qed

end

text \<open>Reading from a connection keeps every client's references and state.\<close>

lemma readcb_refs:
  assumes run: "conn_readcb ev oom bev (Some a) w = returns w'" and inv: "clients_inv (svr_clients (srv w))"
    and c: "cells (snd (svr_clients (srv w))) a = Some c" "c_ref_count c + 1 \<noteq> 0"
  shows "clients_inv (svr_clients (srv w')) \<and>
    refs_kept (cells (snd (svr_clients (srv w)))) (cells (snd (svr_clients (srv w')))) \<and>
    ctx w' = ctx w \<and> user_data w' = user_data w"
proof (cases "c_state c = YA_CLIENT_ACTIVE \<and> package_complete ev (inbuf w bev)")
  case False
  with run c inv have "w' = w"
    by (auto simp: conn_readcb_def client_at_def split: if_splits)
  with inv show ?thesis by simp
next
  case True
  let ?parse = "ya_parse_event ev oom (ev_drain ev (inbuf w bev) 8) no_event (ya_get_package_size ev (inbuf w bev))"
  obtain input request where p: "?parse = Defined (input, request)"
    using run c True by (cases ?parse) (auto simp: conn_readcb_def client_at_def)
  show ?thesis
  proof (cases request)
    case None
    with run c True p inv show ?thesis by (auto simp: conn_readcb_def client_at_def)
  next
    case (Some req)
    with run c True p obtain S1 s2 response rsp S3 where
      r: "ya_client_ref (svr_clients (srv w)) (Some a) = returns S1"
        "process_server_event (Some bev) req (Some a) ((srv w)\<lparr>svr_clients := S1\<rparr>) = returns (s2, response)"
        "reply response = returns rsp" "ya_client_unref (svr_clients s2) (Some a) = returns S3"
        "w' = w\<lparr>inbuf := (inbuf w)(bev := input), srv := s2\<lparr>svr_clients := S3\<rparr>,
          outbuf := (outbuf w)(bev := outbuf w bev @ (case rsp of None \<Rightarrow> [] | Some bs \<Rightarrow> bs))\<rparr>"
      by (auto simp: conn_readcb_def client_at_def run_bind_eq_returns)
    have "clients_inv S3 \<and> refs_kept (cells (snd (svr_clients (srv w)))) (cells (snd S3))"
      using True process_refs [OF r(2)]
      by (intro client_manager.bracket_returns [OF inv c(1,2) _ r(1) _ r(4)]) auto
    with r(5) show ?thesis by simp
  qed
qed

lemma udp_refs:
  assumes run: "udp_readcb ev mk oom received w = returns w'" and inv: "clients_inv (svr_clients (srv w))"
  shows "clients_inv (svr_clients (srv w')) \<and>
    refs_kept (cells (snd (svr_clients (srv w)))) (cells (snd (svr_clients (srv w')))) \<and>
    ctx w' = ctx w \<and> user_data w' = user_data w"
proof -
  have "(srv w' = srv w \<or> (\<exists>req client response. process_server_event None req client (srv w) = returns (srv w', response)))
      \<and> ctx w' = ctx w \<and> user_data w' = user_data w"
    using run by (auto simp: udp_readcb_def run_bind_eq_returns Let_def split: option.splits if_splits)
  with inv process_refs show ?thesis by auto
qed

lemma discover_keeps:
  "discover_turn ev mk oom raw received w = returns w' \<Longrightarrow>
     srv w' = srv w \<and> ctx w' = ctx w \<and> user_data w' = user_data w"
  by (auto simp: discover_turn_def run_bind_def Let_def split: option.splits if_splits prod.splits ub.splits)

section \<open>The event loop\<close>

text \<open>
  Steps of the event loop, with the set of open connections: libevent calls a connection's
  callbacks from its acceptance until its bufferevent is freed.  Blocks for clients are new, and
  there are fewer connections than descriptors.
\<close>

abbreviation client_cells :: "'b net \<Rightarrow> addr \<Rightarrow> ya_client option" where
  "client_cells w \<equiv> cells (snd (svr_clients (srv w)))"

inductive net_step ::
  "'b evbuffer_api \<Rightarrow> (u8 list \<Rightarrow> 'b) \<Rightarrow> 'b net \<times> nat set \<Rightarrow> 'b net \<times> nat set \<Rightarrow> bool"
  for ev mk where
  accept: "b \<notin> C \<Longrightarrow> card C + 1 < 2 ^ 31 \<Longrightarrow> 0 \<le> sint fd \<Longrightarrow> client_cells w a = None \<Longrightarrow>
    net_step ev mk (w, C) (accept_cb fresh_in (Some b) (Some a) filter_ok now fd w, insert b C)"
| refuse: "bev = None \<or> block = None \<or> sint fd < 0 \<Longrightarrow>
    net_step ev mk (w, C) (accept_cb fresh_in bev block filter_ok now fd w, C)"
| arrive: "net_step ev mk (w, C) (w\<lparr>inbuf := bufs\<rparr>, C)"
| read: "b \<in> C \<Longrightarrow> conn_readcb ev oom b (user_data w b) w = returns w' \<Longrightarrow> net_step ev mk (w, C) (w', C)"
| closed: "b \<in> C \<Longrightarrow> events AND 0x30 \<noteq> 0 \<Longrightarrow> conn_eventcb events (user_data w b) w = returns w' \<Longrightarrow>
    net_step ev mk (w, C) (w', C - {b})"
| event: "b \<in> C \<Longrightarrow> events AND 0x30 = 0 \<Longrightarrow> conn_eventcb events (user_data w b) w = returns w' \<Longrightarrow>
    net_step ev mk (w, C) (w', C)"
| command: "udp_readcb ev mk oom received w = returns w' \<Longrightarrow> net_step ev mk (w, C) (w', C)"
| discovery: "discover_turn ev mk oom raw received w = returns w' \<Longrightarrow> net_step ev mk (w, C) (w', C)"

definition net_start :: "'b net \<Rightarrow> bool" where
  "net_start w \<longleftrightarrow> fst (svr_clients (srv w)) = ya_client_manager_init \<and> client_cells w = Map.empty \<and>
     svr_stats (ctx w) = no_stats"

inductive net_reachable :: "'b evbuffer_api \<Rightarrow> (u8 list \<Rightarrow> 'b) \<Rightarrow> 'b net \<times> nat set \<Rightarrow> bool" for ev mk where
  start: "net_start w \<Longrightarrow> net_reachable ev mk (w, {})"
| step: "net_reachable ev mk x \<Longrightarrow> net_step ev mk x y \<Longrightarrow> net_reachable ev mk y"

text \<open>The clients of the open connections are the active ones, each with one reference.\<close>

definition net_inv :: "'b net \<times> nat set \<Rightarrow> bool" where
  "net_inv = (\<lambda>(w, C).
     clients_inv (svr_clients (srv w)) \<and> finite C \<and> card C < 2 ^ 31 \<and>
     (\<forall>b \<in> C. \<exists>a c. user_data w b = Some a \<and> client_cells w a = Some c \<and>
        c_state c = YA_CLIENT_ACTIVE \<and> c_ref_count c = 1) \<and>
     inj_on (user_data w) C \<and>
     (\<forall>a c. client_cells w a = Some c \<longrightarrow> c_state c = YA_CLIENT_ACTIVE \<longrightarrow> Some a \<in> user_data w ` C) \<and>
     active_connections (svr_stats (ctx w)) = word_of_nat (card C))"

lemma net_inv_start: "net_start w \<Longrightarrow> net_inv (w, {})"
  using clients_inv_init by (auto simp: net_inv_def net_start_def no_stats_def clients_inv_def client_table_def
      ya_client_manager_init_def case_prod_unfold intro!: exI [of _ "\<lambda>_. []"])

lemma net_inv_same:
  assumes "net_inv (w, C)" and "clients_inv (svr_clients (srv w'))"
    and refs: "refs_kept (client_cells w) (client_cells w')" and "ctx w' = ctx w" "user_data w' = user_data w"
  shows "net_inv (w', C)"
proof -
  have fwd: "\<exists>c'. client_cells w' a = Some c' \<and> c_state c' = YA_CLIENT_ACTIVE \<and> c_ref_count c' = 1"
    if "client_cells w a = Some c" "c_state c = YA_CLIENT_ACTIVE" "c_ref_count c = 1" for a c
    using refs_kept_Some [OF refs that(1)] that(2,3) by (auto simp: same_refs_def)
  have bwd: "\<exists>c. client_cells w a = Some c \<and> c_state c = YA_CLIENT_ACTIVE"
    if "client_cells w' a = Some c'" "c_state c' = YA_CLIENT_ACTIVE" for a c'
    using refs_kept_Some' [OF refs that(1)] that(2) by (auto simp: same_refs_def)
  have "\<exists>a c. user_data w' b = Some a \<and> client_cells w' a = Some c \<and>
        c_state c = YA_CLIENT_ACTIVE \<and> c_ref_count c = 1" if "b \<in> C" for b
  proof -
    from assms(1) that obtain a c where "user_data w b = Some a" "client_cells w a = Some c"
      "c_state c = YA_CLIENT_ACTIVE" "c_ref_count c = 1" by (auto simp: net_inv_def)
    with fwd [of a c] assms(5) show ?thesis by auto
  qed
  moreover have "Some a \<in> user_data w' ` C" if "client_cells w' a = Some c'" "c_state c' = YA_CLIENT_ACTIVE" for a c'
  proof -
    from bwd [OF that] assms(1) have "Some a \<in> user_data w ` C" unfolding net_inv_def by blast
    then show ?thesis by (simp add: assms(5))
  qed
  ultimately show ?thesis using assms(1,2,4,5) by (simp add: net_inv_def)
qed

lemma net_inv_accept:
  assumes "net_inv (w, C)" and new: "b \<notin> C" "card C + 1 < 2 ^ 31" "0 \<le> sint fd" "client_cells w a = None"
  shows "net_inv (accept_cb fresh_in (Some b) (Some a) filter_ok now fd w, insert b C)"
proof -
  obtain M H where MH: "svr_clients (srv w) = (M, H)" by fastforce
  obtain M' H' c where r: "ya_client_create (Some a) filter_ok now (M, H) fd (Some b) = ((M', H'), Some a)"
      "c_state c = YA_CLIENT_ACTIVE" "c_ref_count c = 1" "H' = H\<lparr>cells := (cells H)(a \<mapsto> c)\<rparr>"
    using create_result [of "Some b" fd a filter_ok now M H] new(3) by auto
  let ?w = "accept_cb fresh_in (Some b) (Some a) filter_ok now fd w"
  have w: "svr_clients (srv ?w) = (M', H')" "user_data ?w = (user_data w)(b := Some a)"
    "ctx ?w = ya_server_stats_inc_connections (ctx w)"
    using MH r(1) by (simp_all add: accept_cb_def Let_def)
  have "clients_inv (M, H)" "cells H a = None" using assms(1) new(4) MH by (simp_all add: net_inv_def)
  from create_inv [OF this, of filter_ok now fd "Some b"] r(1) have "clients_inv (M', H')" by simp
  moreover have old: "user_data w d \<noteq> Some a" if "d \<in> C" for d
    using assms(1) that new(4) unfolding net_inv_def by fastforce
  moreover have "\<exists>a' c'. user_data ?w d = Some a' \<and> client_cells ?w a' = Some c' \<and>
        c_state c' = YA_CLIENT_ACTIVE \<and> c_ref_count c' = 1" if "d \<in> insert b C" for d
  proof (cases "d = b")
    case True
    with w r show ?thesis by simp
  next
    case False
    with that assms(1) obtain a' c' where "user_data w d = Some a'" "client_cells w a' = Some c'"
      "c_state c' = YA_CLIENT_ACTIVE" "c_ref_count c' = 1" by (auto simp: net_inv_def)
    with False w r(4) MH new(4) show ?thesis by auto
  qed
  moreover have "inj_on (user_data ?w) (insert b C)"
    using assms(1) old new(1) unfolding w(2) net_inv_def by (auto simp: inj_on_def)
  moreover have "Some a' \<in> user_data ?w ` insert b C"
    if "client_cells ?w a' = Some c'" "c_state c' = YA_CLIENT_ACTIVE" for a' c'
  proof (cases "a' = a")
    case True
    then show ?thesis using w by simp
  next
    case False
    with that w r(4) MH have "client_cells w a' = Some c'" by simp
    with that(2) assms(1) have "Some a' \<in> user_data w ` C" unfolding net_inv_def by blast
    with new(1) show ?thesis unfolding w(2) by (auto simp: image_iff)
  qed
  moreover have "active_connections (svr_stats (ctx ?w)) = word_of_nat (card (insert b C))"
    using assms(1) new(1) unfolding w(3) by (simp add: net_inv_def ya_server_stats_inc_connections_def)
  ultimately show ?thesis
    using assms(1) new(1,2) w(1) by (simp add: net_inv_def)
qed

lemma refuse_keeps:
  assumes "bev = None \<or> block = None \<or> sint fd < 0"
  shows "fst (svr_clients (srv (accept_cb fresh_in bev block filter_ok now fd w))) = fst (svr_clients (srv w)) \<and>
    client_cells (accept_cb fresh_in bev block filter_ok now fd w) = client_cells w \<and>
    ctx (accept_cb fresh_in bev block filter_ok now fd w) = ctx w \<and>
    user_data (accept_cb fresh_in bev block filter_ok now fd w) = user_data w"
  using assms
  by (cases "svr_clients (srv w)") (auto simp: accept_cb_def ya_client_create_def Let_def split: option.splits)

lemma clients_inv_cells:
  "clients_inv S \<Longrightarrow> fst S' = fst S \<Longrightarrow> cells (snd S') = cells (snd S) \<Longrightarrow> clients_inv S'"
  by (cases S; cases S') (simp add: clients_inv_def client_table_def)

text \<open>The end of a connection leaves its client allocated, without references.\<close>

lemma closed_effect:
  assumes inv: "clients_inv (svr_clients (srv w))" and c: "client_cells w a = Some c" "c_ref_count c = 1"
    and "events AND 0x30 \<noteq> 0"
  shows "\<exists>w'. conn_eventcb events (Some a) w = returns w' \<and> clients_inv (svr_clients (srv w')) \<and>
    client_cells w' = (client_cells w)(a \<mapsto> c\<lparr>c_state := YA_CLIENT_DISCONNECTING, c_bev := None, c_ref_count := 0\<rparr>) \<and>
    fst (svr_clients (srv w')) = fst (svr_clients (srv w)) \<and>
    user_data w' = user_data w \<and> ctx w' = ya_server_stats_dec_connections (ctx w)"
proof -
  obtain M H where MH: "svr_clients (srv w) = (M, H)" by fastforce
  let ?c = "c\<lparr>c_state := YA_CLIENT_DISCONNECTING, c_bev := None\<rparr>"
  let ?H = "H\<lparr>cells := (cells H)(a \<mapsto> ?c)\<rparr>"
  have H: "cells H a = Some c" using c MH by simp
  then have at: "client_at (srv w) a = returns c" using MH by (simp add: client_at_def)
  have mod: "modify_client a (\<lambda>c. c\<lparr>c_state := YA_CLIENT_DISCONNECTING, c_bev := None\<rparr>) (srv w) =
      returns ((srv w)\<lparr>svr_clients := (M, ?H)\<rparr>)"
    using MH H by (simp add: modify_client_def)
  obtain xs where "client_table (M, H) xs" using inv MH by (auto simp: clients_inv_def)
  from table_update [OF this H, of ?c] have "client_table (M, ?H) xs" by simp
  then have t: "client_table (M, drop_bev ?H c) xs" by (simp add: client_table_def drop_bev_def)
  have "cells (drop_bev ?H c) a = Some ?c" by (simp add: drop_bev_def)
  from unref_keep [OF t this] c(2) have
    u: "ya_client_unref (M, drop_bev ?H c) (Some a) =
        returns (M, (drop_bev ?H c)\<lparr>cells := (cells (drop_bev ?H c))(a \<mapsto> ?c\<lparr>c_ref_count := 0\<rparr>)\<rparr>)"
      "client_table (M, (drop_bev ?H c)\<lparr>cells := (cells (drop_bev ?H c))(a \<mapsto> ?c\<lparr>c_ref_count := 0\<rparr>)\<rparr>) xs"
    by simp_all
  have "conn_eventcb events (Some a) w = returns (w\<lparr>srv := (srv w)\<lparr>svr_clients :=
      (M, (drop_bev ?H c)\<lparr>cells := (cells (drop_bev ?H c))(a \<mapsto> ?c\<lparr>c_ref_count := 0\<rparr>)\<rparr>)\<rparr>,
      ctx := ya_server_stats_dec_connections (ctx w)\<rparr>)"
    using assms(4) by (simp add: conn_eventcb_def at mod u(1))
  then show ?thesis using u(2) MH by (auto simp: clients_inv_def drop_bev_def)
qed

lemma net_inv_closed:
  assumes "net_inv (w, C)" and b: "b \<in> C" "events AND 0x30 \<noteq> 0"
    and run: "conn_eventcb events (user_data w b) w = returns w'"
  shows "net_inv (w', C - {b})"
proof -
  from assms(1) b(1) obtain a c where u: "user_data w b = Some a" and c: "client_cells w a = Some c"
    "c_ref_count c = 1" "c_state c = YA_CLIENT_ACTIVE" by (auto simp: net_inv_def)
  have inv: "clients_inv (svr_clients (srv w))" using assms(1) by (simp add: net_inv_def)
  let ?c = "c\<lparr>c_state := YA_CLIENT_DISCONNECTING, c_bev := None, c_ref_count := 0\<rparr>"
  from closed_effect [OF inv c(1,2) b(2)] run u have w':
    "clients_inv (svr_clients (srv w'))" "client_cells w' = (client_cells w)(a \<mapsto> ?c)"
    "user_data w' = user_data w" "ctx w' = ya_server_stats_dec_connections (ctx w)" by auto
  have fin: "finite C" "card C < 2 ^ 31" and act: "active_connections (svr_stats (ctx w)) = word_of_nat (card C)"
    and inj: "inj_on (user_data w) C" using assms(1) by (simp_all add: net_inv_def)
  have pos: "0 < card C" using fin(1) b(1) by (auto simp: card_gt_0_iff)
  then have nz: "(word_of_nat (card C) :: u32) \<noteq> 0"
    using fin(2) by (simp add: word_unat_eq_iff unat_of_nat take_bit_nat_eq_self)
  have "word_of_nat (card C - 1) = (word_of_nat (card C) - 1 :: u32)"
    using pos by (simp add: of_nat_diff)
  with nz act have "active_connections (svr_stats (ctx w')) = word_of_nat (card (C - {b}))"
    using b(1) fin(1) w'(4) by (simp add: ya_server_stats_dec_connections_def word_greater_zero_iff card_Diff_singleton)
  moreover have "\<exists>a' c'. user_data w' d = Some a' \<and> client_cells w' a' = Some c' \<and>
        c_state c' = YA_CLIENT_ACTIVE \<and> c_ref_count c' = 1" if d: "d \<in> C - {b}" for d
  proof -
    from d assms(1) obtain a' c' where 1: "user_data w d = Some a'" "client_cells w a' = Some c'"
      "c_state c' = YA_CLIENT_ACTIVE" "c_ref_count c' = 1" by (auto simp: net_inv_def)
    have "a' \<noteq> a" using inj d b(1) 1(1) u by (auto simp: inj_on_def)
    with 1 w' show ?thesis by auto
  qed
  moreover have "Some a' \<in> user_data w' ` (C - {b})"
    if a': "client_cells w' a' = Some c'" "c_state c' = YA_CLIENT_ACTIVE" for a' c'
  proof -
    have "a' \<noteq> a" using a' w'(2) by auto
    then have "client_cells w a' = Some c'" using a'(1) w'(2) by simp
    with assms(1) a'(2) have "Some a' \<in> user_data w ` C" unfolding net_inv_def by blast
    with \<open>a' \<noteq> a\<close> u show ?thesis unfolding w'(3) by (auto simp: image_iff)
  qed
  moreover have "inj_on (user_data w') (C - {b})" using inj w'(3) by (auto simp: inj_on_def)
  moreover have "card (C - {b}) < 2 ^ 31" using fin card_mono [of C "C - {b}"] by auto
  ultimately show ?thesis using w'(1) fin(1) by (simp add: net_inv_def)
qed

inductive_cases net_stepE [consumes 1, case_names accept refuse arrive read closed event command discovery]: "net_step ev mk (w, C) y"

text \<open>Steps other than the two that open and close a connection keep references and states.\<close>

lemma quiet_steps:
  assumes "net_inv (w, C)"
  shows "conn_readcb ev oom b (user_data w b) w = returns w' \<Longrightarrow> b \<in> C \<Longrightarrow>
      clients_inv (svr_clients (srv w')) \<and> refs_kept (client_cells w) (client_cells w') \<and>
      ctx w' = ctx w \<and> user_data w' = user_data w"
    and "bev = None \<or> block = None \<or> sint fd < 0 \<Longrightarrow> w' = accept_cb fresh_in bev block filter_ok now fd w \<Longrightarrow>
      clients_inv (svr_clients (srv w')) \<and> refs_kept (client_cells w) (client_cells w') \<and>
      ctx w' = ctx w \<and> user_data w' = user_data w"
    and "udp_readcb ev mk oom received w = returns w' \<Longrightarrow>
      clients_inv (svr_clients (srv w')) \<and> refs_kept (client_cells w) (client_cells w') \<and>
      ctx w' = ctx w \<and> user_data w' = user_data w"
    and "discover_turn ev mk oom raw received w = returns w' \<Longrightarrow>
      clients_inv (svr_clients (srv w')) \<and> refs_kept (client_cells w) (client_cells w') \<and>
      ctx w' = ctx w \<and> user_data w' = user_data w"
proof -
  have inv: "clients_inv (svr_clients (srv w))" using assms by (simp add: net_inv_def)
  {
    assume run: "conn_readcb ev oom b (user_data w b) w = returns w'" and "b \<in> C"
    with assms obtain a c where "user_data w b = Some a" "client_cells w a = Some c" "c_ref_count c = 1"
      by (auto simp: net_inv_def)
    with run readcb_refs [OF _ inv, of ev oom b a w' c]
    show "clients_inv (svr_clients (srv w')) \<and> refs_kept (client_cells w) (client_cells w') \<and>
      ctx w' = ctx w \<and> user_data w' = user_data w" by simp
  }
  {
    assume "bev = None \<or> block = None \<or> sint fd < 0" and "w' = accept_cb fresh_in bev block filter_ok now fd w"
    with refuse_keeps [of bev block fd fresh_in filter_ok now w] clients_inv_cells [OF inv, of "svr_clients (srv w')"]
    show "clients_inv (svr_clients (srv w')) \<and> refs_kept (client_cells w) (client_cells w') \<and>
      ctx w' = ctx w \<and> user_data w' = user_data w" by simp
  }
  show "udp_readcb ev mk oom received w = returns w' \<Longrightarrow>
      clients_inv (svr_clients (srv w')) \<and> refs_kept (client_cells w) (client_cells w') \<and>
      ctx w' = ctx w \<and> user_data w' = user_data w" by (rule udp_refs [OF _ inv])
  show "discover_turn ev mk oom raw received w = returns w' \<Longrightarrow>
      clients_inv (svr_clients (srv w')) \<and> refs_kept (client_cells w) (client_cells w') \<and>
      ctx w' = ctx w \<and> user_data w' = user_data w" using discover_keeps [of ev mk oom raw received w w'] inv by simp
qed

lemma net_inv_step:
  assumes "net_step ev mk (w, C) y" and inv: "net_inv (w, C)"
  shows "net_inv y"
  using assms(1)
proof (cases rule: net_stepE)
  case (accept b fd a fresh_in filter_ok now)
  then show ?thesis using net_inv_accept [OF inv] by simp
next
  case (refuse bev block fd fresh_in filter_ok now)
  from quiet_steps(2) [OF inv refuse(2) refl] have "net_inv (accept_cb fresh_in bev block filter_ok now fd w, C)"
    by (intro net_inv_same [OF inv]) simp_all
  then show ?thesis unfolding refuse(1) .
next
  case (arrive bufs)
  with inv show ?thesis by (simp add: net_inv_def)
next
  case (read b oom w')
  with quiet_steps(1) [OF inv read(3,2)] show ?thesis by (auto intro: net_inv_same [OF inv])
next
  case (closed b events w')
  with net_inv_closed [OF inv] show ?thesis by simp
next
  case (event b events w')
  then have "w' = w" by (simp add: conn_eventcb_def)
  with event inv show ?thesis by simp
next
  case (command oom received w')
  with quiet_steps(3) [OF inv command(2)] show ?thesis by (auto intro: net_inv_same [OF inv])
next
  case (discovery oom raw received w')
  with quiet_steps(4) [OF inv discovery(2)] show ?thesis by (auto intro: net_inv_same [OF inv])
qed

lemma net_reachable_inv: "net_reachable ev mk x \<Longrightarrow> net_inv x"
proof (induction rule: net_reachable.induct)
  case (start w)
  then show ?case by (rule net_inv_start)
next
  case (step x y)
  then show ?case using net_inv_step by (cases x) blast
qed

text \<open>C23.
  The connection statistics are exact.  In every state the event loop can reach, by accepting and
  losing connections, reading from them and serving commands and discoveries in any order, the
  counter of active connections and the number of clients the status page reports are both the
  number of open connections, and each of these has its own active client with exactly one
  reference.
\<close>

theorem connections_counted:
  assumes "net_reachable ev mk (w, C)"
  shows "active_connections (svr_stats (ctx w)) = word_of_nat (card C) \<and>
    ya_client_get_count (svr_clients (srv w)) = returns (word_of_nat (card C)) \<and>
    inj_on (user_data w) C \<and>
    (\<forall>b \<in> C. \<exists>a c. user_data w b = Some a \<and> client_cells w a = Some c \<and>
       c_state c = YA_CLIENT_ACTIVE \<and> c_ref_count c = 1)"
proof -
  have inv: "net_inv (w, C)" by (rule net_reachable_inv [OF assms])
  obtain M H where MH: "svr_clients (srv w) = (M, H)" by fastforce
  have owner: "the (user_data w b) = a \<longleftrightarrow> user_data w b = Some a" if "b \<in> C" for a b
    using inv that by (auto simp: net_inv_def)
  have "inj_on (\<lambda>b. the (user_data w b)) C"
  proof (rule inj_onI)
    fix x y assume xy: "x \<in> C" "y \<in> C" "the (user_data w x) = the (user_data w y)"
    then have "user_data w x = user_data w y" using owner [OF xy(1)] owner [OF xy(2)] by metis
    with inv xy(1,2) show "x = y" by (auto simp: net_inv_def inj_on_def)
  qed
  moreover have "(\<lambda>b. the (user_data w b)) ` C = {a. \<exists>c. cells H a = Some c \<and> c_state c = YA_CLIENT_ACTIVE}"
  proof (intro set_eqI iffI)
    fix a assume "a \<in> (\<lambda>b. the (user_data w b)) ` C"
    then obtain b where b: "b \<in> C" "user_data w b = Some a" using owner by blast
    with inv MH show "a \<in> {a. \<exists>c. cells H a = Some c \<and> c_state c = YA_CLIENT_ACTIVE}"
      by (fastforce simp: net_inv_def)
  next
    fix a assume "a \<in> {a. \<exists>c. cells H a = Some c \<and> c_state c = YA_CLIENT_ACTIVE}"
    with inv MH have "Some a \<in> user_data w ` C" by (auto simp: net_inv_def)
    then obtain b where "b \<in> C" "user_data w b = Some a" by auto
    then show "a \<in> (\<lambda>b. the (user_data w b)) ` C" by force
  qed
  ultimately have "card {a. \<exists>c. cells H a = Some c \<and> c_state c = YA_CLIENT_ACTIVE} = card C"
    by (metis card_image)
  moreover obtain xs where "client_table (M, H) xs" using inv MH by (auto simp: net_inv_def clients_inv_def)
  ultimately have "ya_client_get_count (svr_clients (srv w)) = returns (word_of_nat (card C))"
    using get_count_card [of M H xs] MH by simp
  with inv show ?thesis by (simp add: net_inv_def)
qed

section \<open>Clients that are never freed\<close>

definition gone :: "addr \<Rightarrow> 'b net \<Rightarrow> bool" where
  "gone a w \<longleftrightarrow> (\<exists>c. client_cells w a = Some c \<and> c_state c = YA_CLIENT_DISCONNECTING \<and> c_ref_count c = 0)"

lemma gone_kept: "gone a w \<Longrightarrow> refs_kept (client_cells w) (client_cells w') \<Longrightarrow> gone a w'"
  unfolding gone_def using refs_kept_Some by (fastforce simp: same_refs_def)

lemma gone_step:
  assumes "net_step ev mk (w, C) y" and inv: "net_inv (w, C)" and "gone a w"
  shows "gone a (fst y)"
  using assms(1)
proof (cases rule: net_stepE)
  case (accept b fd a' fresh_in filter_ok now)
  obtain M H where MH: "svr_clients (srv w) = (M, H)" by fastforce
  obtain M' H' c where r: "ya_client_create (Some a') filter_ok now (M, H) fd (Some b) = ((M', H'), Some a')"
      "H' = H\<lparr>cells := (cells H)(a' \<mapsto> c)\<rparr>"
    using create_result [of "Some b" fd a' filter_ok now M H] accept(4) by auto
  have "a \<noteq> a'" using accept(5) assms(3) by (auto simp: gone_def)
  with assms(3) r MH show ?thesis unfolding accept(1) by (simp add: gone_def accept_cb_def Let_def)
next
  case (refuse bev block fd fresh_in filter_ok now)
  from quiet_steps(2) [OF inv refuse(2) refl] have "gone a (accept_cb fresh_in bev block filter_ok now fd w)"
    by (intro gone_kept [OF assms(3)]) blast
  then show ?thesis unfolding refuse(1) by simp
next
  case (arrive bufs)
  with assms(3) show ?thesis by (simp add: gone_def)
next
  case (read b oom w')
  with quiet_steps(1) [OF inv read(3,2)] show ?thesis by (auto intro: gone_kept [OF assms(3)])
next
  case (closed b events w')
  from inv closed(2) obtain a' c where u: "user_data w b = Some a'" and c: "client_cells w a' = Some c"
    "c_ref_count c = 1" "c_state c = YA_CLIENT_ACTIVE" by (auto simp: net_inv_def)
  have "a' \<noteq> a" using c assms(3) by (auto simp: gone_def)
  moreover have "clients_inv (svr_clients (srv w))" using inv by (simp add: net_inv_def)
  ultimately have "gone a w'"
    using closed_effect [OF _ c(1,2) closed(3)] closed(4) u assms(3) by (auto simp: gone_def)
  then show ?thesis unfolding closed(1) by simp
next
  case (event b events w')
  then have "w' = w" by (simp add: conn_eventcb_def)
  with event assms(3) show ?thesis by simp
next
  case (command oom received w')
  with quiet_steps(3) [OF inv command(2)] show ?thesis by (auto intro: gone_kept [OF assms(3)])
next
  case (discovery oom raw received w')
  with quiet_steps(4) [OF inv discovery(2)] show ?thesis by (auto intro: gone_kept [OF assms(3)])
qed

lemma gone_forever:
  "(net_step ev mk)\<^sup>*\<^sup>* x y \<Longrightarrow> net_inv x \<Longrightarrow> gone a (fst x) \<Longrightarrow> net_inv y \<and> gone a (fst y)"
proof (induction rule: rtranclp_induct)
  case (step y z)
  then have y: "net_inv (fst y, snd y)" "gone a (fst y)" by simp_all
  have s: "net_step ev mk (fst y, snd y) z" using step.hyps(2) by simp
  from net_inv_step [OF s y(1)] gone_step [OF s y] show ?case by simp
qed simp


text \<open>A process just started, with buffers that are lists, and one that has accepted a connection.\<close>

definition idle_net :: "u8 list net" where
  "idle_net = \<lparr>srv = sample_server\<lparr>svr_clients :=
        (ya_client_manager_init, \<lparr>cells = Map.empty, bevs_freed = [], freed_reads = []\<rparr>)\<rparr>,
     ctx = \<lparr>svr_state = YA_SERVER_RUNNING, components_state = no_components, svr_stats = no_stats\<rparr>,
     inbuf = (\<lambda>_. []), outbuf = (\<lambda>_. []), user_data = (\<lambda>_. None), sent = [], lost_buffers = 0,
     loop_break = False\<rparr>"

definition one_connection :: "u8 list net" where
  "one_connection = accept_cb [] (Some 3) (Some 0) True 1700000000 7 idle_net"

lemma one_connection_reachable: "net_reachable list_evbuffer (\<lambda>d. d) (one_connection, {3})"
proof -
  have "net_start idle_net" by (simp add: net_start_def idle_net_def)
  then have start: "net_reachable list_evbuffer (\<lambda>d. d) (idle_net, {})" by (rule net_reachable.start)
  have "client_cells idle_net 0 = None" by (simp add: idle_net_def)
  then have "net_step list_evbuffer (\<lambda>d. d) (idle_net, {}) (one_connection, insert 3 {})"
    unfolding one_connection_def by (intro net_step.accept) simp_all
  with start show ?thesis using net_reachable.step by blast
qed

theorem connections_counted_witness:
  "active_connections (svr_stats (ctx one_connection)) = 1 \<and>
   ya_client_get_count (svr_clients (srv one_connection)) = returns 1"
  using connections_counted [OF one_connection_reachable] by simp


section \<open>Requests over the network\<close>

text \<open>A serialized event is one package: its first word is the length of the rest.\<close>

lemma serialized_frame:
  assumes "ya_serialize_event e = Defined pkg"
  shows "\<exists>body. pkg = frame (header e) body \<and> length pkg < 2 ^ 31"
proof -
  let ?h = "header_bytes (header e)"
  from assms obtain pw :: mpack_writer where p: "(if length ?h + length (wbuf pw) + 4 + 4 < 2 ^ 31
      then Defined (mpack_store_u32 (word_of_nat (length ?h + length (wbuf pw) + 4)) @
        mpack_store_u32 (word_of_nat (length ?h)) @ ?h @ wbuf pw) else UB) = Defined pkg"
    unfolding ya_serialize_event_def Let_def ub_bind_eq_Defined by blast
  then have "length ?h + length (wbuf pw) + 4 + 4 < 2 ^ 31" by (auto split: if_splits)
  moreover from this p have "pkg = frame (header e) (wbuf pw)" unfolding frame_def by simp
  ultimately have "length pkg < 2 ^ 31 \<and> pkg = frame (header e) (wbuf pw)" by (simp add: length_frame)
  then show ?thesis by blast
qed

lemma package_total:
  assumes "evbuffer_laws ev bytes" and "ya_serialize_event e = Defined pkg" and "bytes buf = pkg @ rest"
  shows "totalSize (ya_get_package_size ev buf) + 4 = word_of_nat (length pkg)"
    and "8 \<le> length pkg" and "length pkg < 2 ^ 31"
proof -
  obtain body where b: "pkg = frame (header e) body" "length pkg < 2 ^ 31"
    using serialized_frame [OF assms(2)] by blast
  have "totalSize (ya_get_package_size ev buf) = word_of_nat (length (header_bytes (header e)) + length body + 4)"
    using package_size_frame [OF assms(1), of buf] assms(3) b(1) by (simp add: frame_def)
  moreover have "length pkg = length (header_bytes (header e)) + length body + 4 + 4"
    using b(1) by (simp add: length_frame)
  ultimately show "totalSize (ya_get_package_size ev buf) + 4 = word_of_nat (length pkg)" by simp
  show "8 \<le> length pkg" "length pkg < 2 ^ 31" using b by (simp_all add: length_frame)
qed

text \<open>
  What the transports owe an event: the packages that are read back as the event, whatever
  follows them.  The round trips of \<open>Event\<close> provide it.
\<close>

definition carried :: "'b evbuffer_api \<Rightarrow> ('b \<Rightarrow> u8 list) \<Rightarrow> bool \<Rightarrow> YAEvent \<Rightarrow> u8 list \<Rightarrow> bool" where
  "carried ev bytes oom e pkg \<longleftrightarrow> ya_serialize_event e = Defined pkg \<and>
     (\<forall>buf rest e0. bytes buf = pkg @ rest \<longrightarrow>
        (\<exists>buf'. ya_parse_event ev oom (ev_drain ev buf 8) e0 (ya_get_package_size ev buf) =
          Defined (buf', Some e) \<and> bytes buf' = rest))"

lemma udp_carried:
  assumes laws: "evbuffer_laws ev bytes" and mk: "bytes (mk pkg) = pkg"
    and carried: "carried ev bytes oom e pkg" and short: "length pkg \<le> 2048"
  shows "udp_readcb ev mk oom (Some (addr, pkg)) w =
    run_bind (ya_client_find_by_uid (svr_clients (srv w)) (uid (header e))) (\<lambda>client.
    run_bind (process_server_event None e client (srv w)) (\<lambda>(s1, response).
    run_bind (reply response) (\<lambda>rsp.
      returns (w\<lparr>srv := s1, sent := sent w @ (case rsp of None \<Rightarrow> [] | Some bs \<Rightarrow> [(addr, bs)])\<rparr>))))"
proof -
  have ser: "ya_serialize_event e = Defined pkg" using carried by (simp add: carried_def)
  have "bytes (mk pkg) = pkg @ []" using mk by simp
  from package_total(1) [OF laws ser this] have
    total: "totalSize (ya_get_package_size ev (mk pkg)) + 4 = word_of_nat (length pkg)" .
  from carried \<open>bytes (mk pkg) = pkg @ []\<close> obtain buf' where
    "ya_parse_event ev oom (ev_drain ev (mk pkg) 8) no_event (ya_get_package_size ev (mk pkg)) = Defined (buf', Some e)"
    unfolding carried_def by blast
  with total short show ?thesis by (simp add: udp_readcb_def get_client_by_id_def Let_def)
qed

lemma common_carried:
  assumes laws: "evbuffer_laws ev bytes"
    and h: "h_type h \<in> {MOUSE_MOVE, MOUSE_CLICK, MOUSE_WHEEL, CONTROL}" "unat (direction h) < 256"
    and ids: "uid h \<le> 0x7FFFFFFF" "index h \<le> 0x7FFFFFFF"
  shows "\<exists>pkg. carried ev bytes oom \<lparr>header = h, param = Some (CommonReq request)\<rparr> pkg \<and> length pkg \<le> 2048"
proof -
  let ?body = "array_bytes 2 @ i32_bytes (lparam request) @ i32_bytes (rparam request)"
  let ?e = "\<lparr>header = h, param = Some (CommonReq request)\<rparr>"
  have len: "length ?body \<le> 15"
    using length_array_bytes [of 2] length_i32_bytes [of "lparam request"] length_i32_bytes [of "rparam request"]
    by simp
  then have short: "length (frame h ?body) \<le> 44"
    using length_header_bytes(1) [of h] by (simp only: length_frame)
  have "\<exists>s. get_serializer (h_type h) (direction h) = Some s \<and>
      s (Some (CommonReq request)) mpack_writer_init_growable = Defined (mpack_writer_init_growable\<lparr>wbuf := ?body\<rparr>)"
    using common.serializes [OF h(1), where p = request and d = "direction h"] by simp
  then have ser: "ya_serialize_event ?e = Defined (frame h ?body)"
    using serialize_frame [of ?e _ ?body] short by auto
  have "wire_header h" using h by (auto simp: wire_header_def)
  from common.frame_roundtrip [OF h(1) _ this ids _ laws, of request oom] len ser
  have "carried ev bytes oom ?e (frame h ?body)" by (auto simp: carried_def)
  with short show ?thesis by (intro exI [of _ "frame h ?body"]) simp
qed



text \<open>A click that reaches its handler, on a device that can be written.\<close>

lemma button_click:
  assumes "writable s" and "l \<in> {0, 1, 2}"
  shows "handle_mouse_click bev \<lparr>header = h, param = Some (CommonReq \<lparr>lparam = l, rparam = 2\<rparr>)\<rparr> s =
    returns (logged [(EV_KEY, button_to_linux_code l, 1), syn_event, (EV_KEY, button_to_linux_code l, 0), syn_event] s,
      None)"
  using assms
  by (auto simp: handle_mouse_click_def click_button_def click_direction_def input_mouse_button_def translated_def
      map_button_to_backend_def button_to_linux_code_def input_linux_mouse_click_def input_linux_mouse_press_def
      input_linux_mouse_release_def emit_seq_ok Let_def logged_logged)

lemma process_new:
  assumes "find_event_handler (h_type (header ev)) = Some h" and "client_at s a = returns c"
    and "guarded ev" and "c_command_index c < index (header ev)"
  shows "process_server_event bev ev (Some a) s = h bev ev (s\<lparr>svr_clients := (fst (svr_clients s),
    snd (svr_clients s)\<lparr>cells := (cells (snd (svr_clients s)))(a \<mapsto> c\<lparr>c_command_index := index (header ev)\<rparr>)\<rparr>)\<rparr>)"
proof -
  have "modify_client a (\<lambda>c. c\<lparr>c_command_index := index (header ev)\<rparr>) s = returns (s\<lparr>svr_clients :=
    (fst (svr_clients s), snd (svr_clients s)\<lparr>cells := (cells (snd (svr_clients s)))
      (a \<mapsto> c\<lparr>c_command_index := index (header ev)\<rparr>)\<rparr>)\<rparr>)"
    using assms(2) by (auto simp: modify_client_returns)
  with assms show ?thesis by (auto simp: process_server_event_def guarded_def)
qed

text \<open>
  A click from end to end.  When a phone serializes a click of one of the three buttons with a
  sequence number above those of its earlier commands and the server receives it as a datagram,
  the virtual device gets exactly the press and the release of that button, each followed by a
  synchronisation, no reply is sent, and the client's sequence number is the command's.
\<close>

theorem click_datagram_clicks:
  assumes "evbuffer_laws ev bytes" and "\<And>data. bytes (mk data) = data"
    and "ya_client_find_by_uid (svr_clients (srv w)) u = returns (Some a)"
    and "client_at (srv w) a = returns c" and "c_command_index c < i"
    and "i \<le> 0x7FFFFFFF" and "u \<le> 0x7FFFFFFF" and "writable (srv w)" and "l \<in> {0, 1, 2}"
    and "ya_serialize_event \<lparr>header = \<lparr>h_type = MOUSE_CLICK, direction = REQUEST, index = i, uid = u\<rparr>,
      param = Some (CommonReq \<lparr>lparam = l, rparam = 2\<rparr>)\<rparr> = Defined pkg"
  shows "\<exists>w'. udp_readcb ev mk oom (Some (addr, pkg)) w = returns w' \<and>
    ev_log (srv w') = ev_log (srv w) @ map event_of
      [(EV_KEY, button_to_linux_code l, 1), syn_event, (EV_KEY, button_to_linux_code l, 0), syn_event] \<and>
    sent w' = sent w \<and> client_at (srv w') a = returns (c\<lparr>c_command_index := i\<rparr>)"
proof -
  let ?h = "\<lparr>h_type = MOUSE_CLICK, direction = REQUEST, index = i, uid = u\<rparr>"
  let ?e = "\<lparr>header = ?h, param = Some (CommonReq \<lparr>lparam = l, rparam = 2\<rparr>)\<rparr>"
  let ?s = "(srv w)\<lparr>svr_clients := (fst (svr_clients (srv w)), snd (svr_clients (srv w))\<lparr>cells :=
    (cells (snd (svr_clients (srv w))))(a \<mapsto> c\<lparr>c_command_index := i\<rparr>)\<rparr>)\<rparr>"
  from common_carried [OF assms(1), of ?h oom "\<lparr>lparam = l, rparam = 2\<rparr>"] assms(6,7)
  obtain pkg' where "carried ev bytes oom ?e pkg'" "length pkg' \<le> 2048" by auto
  with assms(10) have pkg: "carried ev bytes oom ?e pkg" "length pkg \<le> 2048" by (auto simp: carried_def)
  have "guarded ?e" "find_event_handler (h_type (header ?e)) = Some handle_mouse_click"
    by (simp_all add: guarded_def need_command_index_check_def find_event_handler_def event_handlers_def)
  with process_new [of ?e handle_mouse_click "srv w" a c None] assms(4,5)
  have "process_server_event None ?e (Some a) (srv w) = handle_mouse_click None ?e ?s" by simp
  moreover have "writable ?s" using assms(8) by (simp add: writable_def)
  note button_click [OF this assms(9), of None ?h]
  ultimately have "process_server_event None ?e (Some a) (srv w) = returns (logged
      [(EV_KEY, button_to_linux_code l, 1), syn_event, (EV_KEY, button_to_linux_code l, 0), syn_event] ?s, None)"
    by simp
  with udp_carried [where mk = mk and bytes = bytes, OF assms(1) assms(2) [of pkg] pkg, of addr w] assms(3)
  have "udp_readcb ev mk oom (Some (addr, pkg)) w = returns (w\<lparr>srv := logged
      [(EV_KEY, button_to_linux_code l, 1), syn_event, (EV_KEY, button_to_linux_code l, 0), syn_event] ?s,
      sent := sent w\<rparr>)"
    by (simp add: reply_def)
  then show ?thesis by (simp add: logged_def client_at_def)
qed

theorem click_datagram_clicks_witness:
  "\<exists>pkg w'. udp_readcb list_evbuffer (\<lambda>d. d) False (Some (9, pkg)) one_connection = returns w' \<and>
    length (ev_log (srv w')) = 4"
proof -
  have find: "ya_client_find_by_uid (svr_clients (srv one_connection)) 1 = returns (Some 0)"
    by (simp add: one_connection_def idle_net_def accept_cb_def ya_client_create_def ya_client_manager_init_def
        Let_def ya_client_find_by_uid_def hash_uid_def chain_find.simps)
  obtain c where c: "client_at (srv one_connection) 0 = returns c" "c_command_index c = 0"
    by (simp add: one_connection_def idle_net_def accept_cb_def ya_client_create_def ya_client_manager_init_def
        Let_def client_at_def)
  have w: "writable (srv one_connection)" "ev_log (srv one_connection) = []"
    by (simp_all add: one_connection_def idle_net_def accept_cb_def ya_client_create_def ya_client_manager_init_def
        Let_def writable_def)
  obtain pkg where pkg: "ya_serialize_event (click_event 5) = Defined pkg"
    using common_carried [OF list_evbuffer_laws, of "header (click_event 5)" False "\<lparr>lparam = 0, rparam = 2\<rparr>"]
    by (auto simp: carried_def)
  from click_datagram_clicks [OF list_evbuffer_laws _ find c(1) _ _ _ w(1), of "\<lambda>d. d" 5 0 pkg False 9] c(2) w(2) pkg
  show ?thesis by (auto intro!: exI [of _ pkg])
qed

section \<open>Packages on a stream\<close>

lemma incomplete_package:
  assumes laws: "evbuffer_laws ev bytes" and ser: "ya_serialize_event e = Defined pkg"
    and data: "bytes buf = take n pkg" "4 \<le> n" "n < length pkg"
  shows "\<not> package_complete ev buf"
proof -
  obtain body where b: "pkg = frame (header e) body" "length pkg < 2 ^ 31"
    using serialized_frame [OF ser] by blast
  let ?tot = "word_of_nat (length (header_bytes (header e)) + length body + 4) :: u32"
  have len: "length pkg = length (header_bytes (header e)) + length body + 8"
    using b(1) by (simp add: length_frame)
  have "take 4 (bytes buf) = mpack_store_u32 ?tot"
    using data(1,2) b(1) by (simp add: frame_def length_store min_def)
  then have "totalSize (ya_get_package_size ev buf) = ?tot"
    using to_uint32_eq [OF laws, of 0 buf] data by (simp add: ya_get_package_size_def load_store_u32' Let_def)
  moreover have "?tot + 4 = word_of_nat (length pkg)" by (simp add: len)
  moreover have "ev_length ev buf = n" using laws data by (simp add: evbuffer_laws_def)
  ultimately have "package_complete ev buf \<longleftrightarrow> \<not> (word_of_nat n :: u32) < word_of_nat (length pkg)"
    by (simp add: package_complete_def)
  with b(2) data(3) show ?thesis
    by (simp add: u32_less_iff unat_of_nat take_bit_nat_eq_self)
qed

lemma complete_package:
  assumes laws: "evbuffer_laws ev bytes" and ser: "ya_serialize_event e = Defined pkg"
    and data: "bytes buf = pkg @ rest" "length pkg + length rest < 2 ^ 31"
  shows "package_complete ev buf"
proof -
  have "ev_length ev buf = length pkg + length rest" using laws data by (simp add: evbuffer_laws_def)
  with package_total [OF laws ser data(1)] data(2) show ?thesis
    by (simp add: package_complete_def u32_less_iff unat_of_nat take_bit_nat_eq_self flip: of_nat_add)
qed

text \<open>
  Requests over a session's stream.  As long as only a part of a package has arrived (at least
  its first word), the read callback changes nothing.  Once all of it is there, whatever follows
  it, the callback takes exactly the package from the buffer and processes exactly the request it
  carries, once, holding a reference to the client meanwhile; the reply is appended to the
  output.  So how the stream is cut into segments does not matter.
\<close>

theorem stream_package_processed:
  assumes "evbuffer_laws ev bytes" and "client_at (srv w) a = returns c" and "c_state c = YA_CLIENT_ACTIVE"
    and "h_type h \<in> {MOUSE_MOVE, MOUSE_CLICK, MOUSE_WHEEL, CONTROL}" and "unat (direction h) < 256"
    and "uid h \<le> 0x7FFFFFFF" and "index h \<le> 0x7FFFFFFF"
    and e_def: "e = \<lparr>header = h, param = Some (CommonReq request)\<rparr>"
  shows "\<exists>pkg. ya_serialize_event e = Defined pkg \<and>
    (\<forall>n. 4 \<le> n \<longrightarrow> n < length pkg \<longrightarrow> bytes (inbuf w b) = take n pkg \<longrightarrow>
       conn_readcb ev oom b (Some a) w = returns w) \<and>
    (\<forall>rest. bytes (inbuf w b) = pkg @ rest \<longrightarrow> length (bytes (inbuf w b)) < 2 ^ 31 \<longrightarrow>
       (\<exists>buf'. bytes buf' = rest \<and> conn_readcb ev oom b (Some a) w =
          run_bind (ya_client_ref (svr_clients (srv w)) (Some a)) (\<lambda>S1.
          run_bind (process_server_event (Some b) e (Some a) ((srv w)\<lparr>svr_clients := S1\<rparr>)) (\<lambda>(s2, response).
          run_bind (reply response) (\<lambda>rsp.
          run_bind (ya_client_unref (svr_clients s2) (Some a)) (\<lambda>S3.
            returns (w\<lparr>inbuf := (inbuf w)(b := buf'), srv := s2\<lparr>svr_clients := S3\<rparr>,
              outbuf := (outbuf w)(b := outbuf w b @ (case rsp of None \<Rightarrow> [] | Some bs \<Rightarrow> bs))\<rparr>)))))))"
proof -
  from common_carried [OF assms(1,4-7), of oom request] obtain pkg where
    carried: "carried ev bytes oom e pkg" unfolding e_def by blast
  then have ser: "ya_serialize_event e = Defined pkg" by (simp add: carried_def)
  have "conn_readcb ev oom b (Some a) w = returns w"
    if "4 \<le> n" "n < length pkg" "bytes (inbuf w b) = take n pkg" for n
    using incomplete_package [OF assms(1) ser that(3,1,2)] assms(2,3) by (simp add: conn_readcb_def)
  moreover have "\<exists>buf'. bytes buf' = rest \<and> conn_readcb ev oom b (Some a) w =
          run_bind (ya_client_ref (svr_clients (srv w)) (Some a)) (\<lambda>S1.
          run_bind (process_server_event (Some b) e (Some a) ((srv w)\<lparr>svr_clients := S1\<rparr>)) (\<lambda>(s2, response).
          run_bind (reply response) (\<lambda>rsp.
          run_bind (ya_client_unref (svr_clients s2) (Some a)) (\<lambda>S3.
            returns (w\<lparr>inbuf := (inbuf w)(b := buf'), srv := s2\<lparr>svr_clients := S3\<rparr>,
              outbuf := (outbuf w)(b := outbuf w b @ (case rsp of None \<Rightarrow> [] | Some bs \<Rightarrow> bs))\<rparr>)))))"
    if rest: "bytes (inbuf w b) = pkg @ rest" "length (bytes (inbuf w b)) < 2 ^ 31" for rest
  proof -
    from carried rest(1) obtain buf' where p: "ya_parse_event ev oom (ev_drain ev (inbuf w b) 8) no_event
        (ya_get_package_size ev (inbuf w b)) = Defined (buf', Some e)" "bytes buf' = rest"
      unfolding carried_def by blast
    have "package_complete ev (inbuf w b)" using complete_package [OF assms(1) ser rest(1)] rest by simp
    with p assms(2,3) show ?thesis
      by (intro exI [of _ buf']) (simp add: conn_readcb_def Let_def)
  qed
  ultimately show ?thesis using ser by blast
qed

theorem stream_package_processed_witness:
  "\<exists>pkg. ya_serialize_event (click_event 5) = Defined pkg \<and>
    conn_readcb list_evbuffer False 3 (Some 0) (one_connection\<lparr>inbuf := (\<lambda>_. take 6 pkg)\<rparr>) =
      returns (one_connection\<lparr>inbuf := (\<lambda>_. take 6 pkg)\<rparr>)"
proof -
  obtain c where c: "client_at (srv one_connection) 0 = returns c" "c_state c = YA_CLIENT_ACTIVE"
    by (simp add: one_connection_def idle_net_def accept_cb_def ya_client_create_def ya_client_manager_init_def
        Let_def client_at_def)
  obtain pkg where pkg: "ya_serialize_event (click_event 5) = Defined pkg"
    using common_carried [OF list_evbuffer_laws, of "header (click_event 5)" False "\<lparr>lparam = 0, rparam = 2\<rparr>"]
    by (auto simp: carried_def)
  have "8 \<le> length pkg" by (rule package_total(2) [OF list_evbuffer_laws pkg, of pkg "[]"]) simp
  then have "\<exists>n. 4 \<le> n \<and> n < length pkg \<and> take 6 pkg = take n pkg" by (intro exI [of _ 6]) simp
  with stream_package_processed [OF list_evbuffer_laws, of "one_connection\<lparr>inbuf := (\<lambda>_. take 6 pkg)\<rparr>" 0 c
      "header (click_event 5)" "click_event 5" "\<lparr>lparam = 0, rparam = 2\<rparr>" 3 False] c pkg
  show ?thesis by auto
qed

section \<open>Responses\<close>

definition response_fits :: "YAEventType \<Rightarrow> ya_param option \<Rightarrow> bool" where
  "response_fits t p \<longleftrightarrow>
     (if t = AUTHORIZE then (\<exists>x. p = Some (AuthorizeResp x))
      else if t = TEXT_GET then (\<exists>x. p = Some (InputGetResp x))
      else if t = DISCOVER then (\<exists>x. p = Some (DiscoverResp x))
      else (t = HEARTBEAT \<or> t = CONTROL) \<and> p = None)"

definition answers :: "YAEvent \<Rightarrow> YAEvent \<Rightarrow> bool" where
  "answers ev r \<longleftrightarrow> header r = (header ev)\<lparr>direction := RESPONSE\<rparr> \<and> response_fits (h_type (header ev)) (param r)"

lemma assign_answers:
  "assign_response s ev p = Some r \<Longrightarrow> header r = (header ev)\<lparr>direction := RESPONSE\<rparr> \<and> param r = p"
  by (auto simp: assign_response_def split: if_splits)

lemma with_client_silent:
  assumes "with_client ev s body = returns (s', Some r)" and "\<And>a c x. body a c = returns (x, Some r) \<Longrightarrow> False"
  shows False
  using assms by (auto simp: with_client_def run_bind_eq_returns split: option.splits)

lemma move_silent: "handle_mouse_move bev ev s = returns (s', Some r) \<Longrightarrow> False"
  by (auto simp: handle_mouse_move_def move_v3_def move_v2_def Let_def run_bind_eq_returns
      split: option.splits if_splits ya_param.splits prod.splits elim!: with_client_silent)

lemma stop_silent: "handle_mouse_stop bev ev s = returns (s', Some r) \<Longrightarrow> False"
  unfolding handle_mouse_stop_def
  by (erule with_client_silent) (auto simp: Let_def run_bind_eq_returns split: if_splits prod.splits)

lemma option_silent: "handle_session_option bev ev s = returns (s', Some r) \<Longrightarrow> False"
  by (auto simp: handle_session_option_def Let_def run_bind_eq_returns
      split: option.splits if_splits ya_param.splits elim!: with_client_silent)

lemma authorize_answers:
  assumes "handle_authorize bev ev s = returns (s', Some r)" "h_type (header ev) = AUTHORIZE"
  shows "answers ev r"
  using assms
  by (auto simp: handle_authorize_def answers_def response_fits_def Let_def run_bind_eq_returns
      split: option.splits ya_param.splits prod.splits if_splits dest!: assign_answers)

lemma control_answers:
  assumes "handle_control bev ev s = returns (s', Some r)" "h_type (header ev) = CONTROL"
  shows "answers ev r"
proof -
  have "assign_response s ev None = Some r"
    using assms(1)
    by (auto simp: handle_control_def handle_poweroff_def handle_restart_def handle_sleep_def power_action_def
        split: option.splits ya_param.splits if_splits prod.splits)
  with assms(2) show ?thesis by (auto simp: answers_def response_fits_def dest!: assign_answers)
qed

lemma handler_answers:
  assumes "find_event_handler (h_type (header ev)) = Some h" and run: "h bev ev s = returns (s', Some r)"
  shows "answers ev r"
proof -
  let ?t = "h_type (header ev)"
  consider (silent) "h \<in> {handle_mouse_move, handle_mouse_stop, handle_mouse_click, handle_mouse_scroll,
        handle_keyboard, handle_input_text, handle_session_option}"
    | (text_event) "?t = TEXT_GET" "h = handle_input_get" | (discover_event) "?t = DISCOVER" "h = handle_discover"
    | (auth_event) "?t = AUTHORIZE" "h = handle_authorize" | (beat_event) "?t = HEARTBEAT" "h = handle_heartbeat"
    | (control_event) "?t = CONTROL" "h = handle_control"
    using assms(1) by (auto simp: find_event_handler_def event_handlers_def split: if_splits)
  then show ?thesis
  proof cases
    case silent
    have False if "handle_mouse_click bev ev s = returns (s', Some r) \<or> handle_mouse_scroll bev ev s = returns (s', Some r) \<or>
        handle_keyboard bev ev s = returns (s', Some r) \<or> handle_input_text bev ev s = returns (s', Some r)"
      using that
      by (auto simp: handle_mouse_click_def handle_mouse_scroll_def handle_keyboard_def handle_input_text_def
          split: option.splits if_splits ya_param.splits prod.splits)
    with silent run move_silent stop_silent option_silent show ?thesis by blast
  next
    case text_event
    with run show ?thesis
      by (auto simp: handle_input_get_def answers_def response_fits_def split: option.splits prod.splits if_splits
          dest!: assign_answers)
  next
    case discover_event
    with run show ?thesis
      by (auto simp: handle_discover_def answers_def response_fits_def split: option.splits ya_param.splits if_splits
          dest!: assign_answers)
  next
    case auth_event
    with run authorize_answers show ?thesis by blast
  next
    case beat_event
    with run show ?thesis
      by (auto simp: handle_heartbeat_def answers_def response_fits_def dest!: assign_answers)
  next
    case control_event
    with run control_answers show ?thesis by blast
  qed
qed

lemma process_answers:
  assumes "process_server_event bev ev client s = returns (s', Some r)"
  shows "answers ev r"
proof (cases "find_event_handler (h_type (header ev))")
  case None
  with assms show ?thesis by (simp add: process_server_event_def)
next
  case (Some h)
  with assms have "\<exists>t. h bev ev t = returns (s', Some r)"
    by (auto simp: process_server_event_def run_bind_eq_returns split: option.splits if_splits)
  with handler_answers [OF Some] show ?thesis by blast
qed

text \<open>C29.
  Responses are well typed.  Every response of the dispatcher answers its request (same type,
  number and client, direction RESPONSE), and for all types but CONTROL its parameter is of the
  type that the serializer of the event casts it to and the release of the event expects, so
  that neither of them is undefined.
\<close>

theorem responses_well_typed:
  assumes "process_server_event bev ev client s = returns (s', Some r)" and "h_type (header ev) \<noteq> CONTROL"
  shows "header r = (header ev)\<lparr>direction := RESPONSE\<rparr> \<and>
    (case get_serializer (h_type (header r)) (direction (header r)) of
       None \<Rightarrow> True
     | Some ser \<Rightarrow> ub_defined (ser (param r) mpack_writer_init_growable)) \<and>
    ub_defined (ya_free_event_param r)"
proof -
  from process_answers [OF assms(1)] have h: "header r = (header ev)\<lparr>direction := RESPONSE\<rparr>"
    and p: "response_fits (h_type (header ev)) (param r)" by (simp_all add: answers_def)
  from p assms(2) consider x where "h_type (header ev) = AUTHORIZE" "param r = Some (AuthorizeResp x)"
    | x where "h_type (header ev) = TEXT_GET" "param r = Some (InputGetResp x)"
    | x where "h_type (header ev) = DISCOVER" "param r = Some (DiscoverResp x)"
    | "h_type (header ev) = HEARTBEAT" "param r = None"
    by (auto simp: response_fits_def split: if_splits)
  then show ?thesis
    by cases (simp_all add: h get_serializer_def ya_free_event_param_def Let_def)
qed

theorem responses_well_typed_witness:
  "ub_defined (ya_free_event_param \<lparr>header = \<lparr>h_type = HEARTBEAT, direction = RESPONSE, index = 9, uid = 1\<rparr>, param = None\<rparr>)"
proof -
  have "process_server_event None \<lparr>header = \<lparr>h_type = HEARTBEAT, direction = REQUEST, index = 9, uid = 1\<rparr>, param = None\<rparr>
      None sample_server = returns (sample_server,
      Some \<lparr>header = \<lparr>h_type = HEARTBEAT, direction = RESPONSE, index = 9, uid = 1\<rparr>, param = None\<rparr>)"
    by (simp add: process_server_event_def find_event_handler_def event_handlers_def handle_heartbeat_def
        assign_response_def)
  from responses_well_typed [OF this] show ?thesis by simp
qed

text \<open>
  Discovery.  The thread on the discovery port answers a request with the port of the sessions as
  it is stored, in network byte order, while the same request to the other servers is answered
  with the port's number; and any package without a body makes the thread read through a null
  pointer.
\<close>

theorem discovery_port_byte_order:
  assumes "length data \<le> 512" and "length data = unat (totalSize (ya_get_package_size ev (mk data)) + 4)"
    and "ya_parse_event ev oom (ev_drain ev (mk data) 8) no_event (ya_get_package_size ev (mk data)) =
      Defined (buf', Some req)"
    and "h_type (header req) = DISCOVER" and "malloc_ok (srv w)"
  shows "(param req = Some (DiscoverReq DISCOVERY_MAGIC) \<longrightarrow>
      (\<exists>rsp r. discover_turn ev mk oom raw (Some (addr, data)) w =
          returns (w\<lparr>lost_buffers := lost_buffers w + 1, sent := sent w @ [(addr, rsp)]\<rparr>) \<and>
        ya_serialize_event \<lparr>header = \<lparr>h_type = DISCOVER, direction = RESPONSE, index = 0, uid = 0\<rparr>,
          param = Some (DiscoverResp (session_sin_port (srv w)))\<rparr> = Defined rsp \<and>
        process_server_event None req None (srv w) = returns (srv w, Some r) \<and>
        param r = Some (DiscoverResp (ntohs (session_sin_port (srv w)))))) \<and>
    (param req = None \<longrightarrow> discover_turn ev mk oom raw (Some (addr, data)) w = Some UB)"
proof (intro conjI impI)
  have len: "length (take REQUEST_BUFFER_SIZE data) = unat (totalSize (ya_get_package_size ev (mk data)) + 4)"
    "take REQUEST_BUFFER_SIZE data = data"
    using assms(1,2) by (simp_all add: REQUEST_BUFFER_SIZE_def)
  {
    assume "param req = None"
    with len assms(3) show "discover_turn ev mk oom raw (Some (addr, data)) w = Some UB"
      by (simp add: discover_turn_def Let_def)
  }
  let ?e = "\<lparr>header = \<lparr>h_type = DISCOVER, direction = RESPONSE, index = 0, uid = 0\<rparr>,
    param = Some (DiscoverResp (session_sin_port (srv w)))\<rparr>"
  let ?body = "array_bytes 2 @ u32_bytes DISCOVERY_MAGIC @ u32_bytes (ucast (session_sin_port (srv w)))"
  assume p: "param req = Some (DiscoverReq DISCOVERY_MAGIC)"
  have "length (frame (header ?e) ?body) < 2 ^ 31"
    using length_header_bytes(1) [of "header ?e"] length_array_bytes [of 2] length_u32_bytes(1) [of DISCOVERY_MAGIC]
      length_u32_bytes(1) [of "ucast (session_sin_port (srv w))"]
    by (simp only: length_frame length_append) simp
  then have ser: "ya_serialize_event ?e = Defined (frame (header ?e) ?body)"
    by (intro serialize_frame [where s = serialize_discover_response])
      (simp_all add: get_serializer_def growable_writes Let_def)
  have "process_server_event None req None (srv w) = returns (srv w, Some
      \<lparr>header = \<lparr>h_type = DISCOVER, direction = RESPONSE, index = index (header req), uid = uid (header req)\<rparr>,
       param = Some (DiscoverResp (ntohs (session_sin_port (srv w))))\<rparr>)"
    using assms(4,5) p
    by (simp add: process_server_event_def find_event_handler_def event_handlers_def handle_discover_def
        assign_response_def)
  moreover have "discover_turn ev mk oom raw (Some (addr, data)) w =
      returns (w\<lparr>lost_buffers := lost_buffers w + 1, sent := sent w @ [(addr, frame (header ?e) ?body)]\<rparr>)"
    using len assms(3) p ser by (simp add: discover_turn_def Let_def first_word_def)
  ultimately show "\<exists>rsp r. discover_turn ev mk oom raw (Some (addr, data)) w =
          returns (w\<lparr>lost_buffers := lost_buffers w + 1, sent := sent w @ [(addr, rsp)]\<rparr>) \<and>
        ya_serialize_event ?e = Defined rsp \<and>
        process_server_event None req None (srv w) = returns (srv w, Some r) \<and>
        param r = Some (DiscoverResp (ntohs (session_sin_port (srv w))))"
    using ser by (intro exI conjI) (assumption, assumption, assumption, simp)
qed

theorem discovery_port_byte_order_witness:
  "\<exists>rsp r. discover_turn list_evbuffer (\<lambda>d. d) False (\<lambda>_. 0)
      (Some (9, [0, 0, 0, 14, 0, 0, 0, 5, 0x94, 0, 7, 1, 0, 0xce, 0x4b, 0x42, 0x4d, 0x43])) one_connection =
      returns (one_connection\<lparr>lost_buffers := 1, sent := [(9, rsp)]\<rparr>) \<and>
    process_server_event None \<lparr>header = \<lparr>h_type = DISCOVER, direction = REQUEST, index = 0, uid = 0\<rparr>,
      param = Some (DiscoverReq DISCOVERY_MAGIC)\<rparr> None (srv one_connection) = returns (srv one_connection, Some r) \<and>
    param r = Some (DiscoverResp 0xB02C)"
proof -
  let ?data = "[0, 0, 0, 14, 0, 0, 0, 5, 0x94, 0, 7, 1, 0, 0xce, 0x4b, 0x42, 0x4d, 0x43] :: u8 list"
  let ?req = "\<lparr>header = \<lparr>h_type = DISCOVER, direction = REQUEST, index = 0, uid = 0\<rparr>,
      param = Some (DiscoverReq DISCOVERY_MAGIC)\<rparr>"
  have p: "ya_parse_event list_evbuffer False (ev_drain list_evbuffer ?data 8) no_event
      (ya_get_package_size list_evbuffer ?data) = Defined ([], Some ?req)" by code_simp
  have t: "length ?data = unat (totalSize (ya_get_package_size list_evbuffer ?data) + 4)" by code_simp
  have w: "malloc_ok (srv one_connection)" "session_sin_port (srv one_connection) = 0x2CB0"
    "lost_buffers one_connection = 0" "sent one_connection = []"
    by (simp_all add: one_connection_def idle_net_def accept_cb_def ya_client_create_def Let_def)
  have n: "ntohs 0x2CB0 = 0xB02C" by code_simp
  from discovery_port_byte_order [where mk = "\<lambda>d. d" and data = ?data, OF _ t p _ w(1), of "\<lambda>_. 0" 9]
  show ?thesis using w n by auto
qed

end
