(* ===== verification/Config.thy ===== *)
theory Config
  imports MPackWriter
begin

text \<open>
  The configuration file, \<open>ya_config.h\<close> and \<open>ya_config.c\<close>: entries of section, key and value in an
  array that grows by reallocation, the parser and the writer of the file.

  Strings are the bytes before the NUL; \<open>safe_strncpy\<close> cuts them to the size of the field.
  A string obtained from the configuration is a pointer into the array.  The array is known by
  \<open>cfg_block\<close>, the number of times it has moved: reallocation (\<open>grow\<close>) may fail, extend the
  block, or move it, and then every earlier pointer into it is dangling.
\<close>

definition MAX_LINE_LENGTH :: nat where [simp]: "MAX_LINE_LENGTH = 256"
definition MAX_SECTION_LENGTH :: nat where [simp]: "MAX_SECTION_LENGTH = 64"
definition MAX_KEY_LENGTH :: nat where [simp]: "MAX_KEY_LENGTH = 64"
definition MAX_VALUE_LENGTH :: nat where [simp]: "MAX_VALUE_LENGTH = 256"

record YA_Config_Entry =
  e_section :: "u8 list"
  e_key :: "u8 list"
  e_value :: "u8 list"

record YA_Config =
  entries :: "YA_Config_Entry list"
  capacity :: nat
  cfg_block :: nat

datatype realloc_result = NoMemory | Extended | Moved

type_synonym grow = "nat \<Rightarrow> realloc_result"

definition ya_config_init :: YA_Config where
  "ya_config_init = \<lparr>entries = [], capacity = 0, cfg_block = 0\<rparr>"

definition ya_config_free :: "YA_Config \<Rightarrow> YA_Config" where
  "ya_config_free cfg = \<lparr>entries = [], capacity = 0, cfg_block = cfg_block cfg + 1\<rparr>"

section \<open>Strings\<close>

text \<open>\<open>isspace\<close> of the C locale.\<close>

definition isspace :: "u8 \<Rightarrow> bool" where
  "isspace c \<longleftrightarrow> c = 32 \<or> (9 \<le> c \<and> c \<le> 13)"

text \<open>The scan from the end stops at the first character, which is no space then.\<close>

definition trim_whitespace :: "u8 list \<Rightarrow> u8 list" where
  "trim_whitespace str =
     (case dropWhile isspace str of
        [] \<Rightarrow> []
      | c # cs \<Rightarrow> c # rev (dropWhile isspace (rev cs)))"

definition before :: "u8 \<Rightarrow> u8 list \<Rightarrow> u8 list" where
  "before c str = takeWhile (\<lambda>d. d \<noteq> c) str"

definition remove_inline_comment :: "u8 list \<Rightarrow> u8 list" where
  "remove_inline_comment str = trim_whitespace (before 35 (before 59 str))"

definition safe_strncpy :: "u8 list \<Rightarrow> nat \<Rightarrow> u8 list" where
  "safe_strncpy src n = take (n - 1) src"

text \<open>A value in quotes: what is between the first character and the last other quote.\<close>

definition strip_quotes :: "u8 list \<Rightarrow> u8 list" where
  "strip_quotes value =
     (case value of
        [] \<Rightarrow> []
      | c # cs \<Rightarrow>
          if c = 34 \<and> 34 \<in> set cs then rev (tl (dropWhile (\<lambda>d. d \<noteq> 34) (rev cs))) else value)"

section \<open>Adding an entry\<close>

definition add_entry :: "grow \<Rightarrow> u8 list \<Rightarrow> u8 list \<Rightarrow> u8 list \<Rightarrow> YA_Config \<Rightarrow> YA_Config option" where
  "add_entry grow s k v cfg =
     (let new_capacity = capacity cfg * 2 + 8;
          room = (if length (entries cfg) < capacity cfg then Some cfg
                  else case grow new_capacity of
                    NoMemory \<Rightarrow> None
                  | Extended \<Rightarrow> Some (cfg\<lparr>capacity := new_capacity\<rparr>)
                  | Moved \<Rightarrow> Some (cfg\<lparr>capacity := new_capacity, cfg_block := cfg_block cfg + 1\<rparr>))
      in map_option (\<lambda>c. c\<lparr>entries := entries c @
           [\<lparr>e_section = safe_strncpy s MAX_SECTION_LENGTH, e_key = safe_strncpy k MAX_KEY_LENGTH,
             e_value = safe_strncpy v MAX_VALUE_LENGTH\<rparr>]\<rparr>) room)"

section \<open>Parser\<close>

text \<open>\<open>fgets\<close>: at most 255 bytes, up to and with a newline.\<close>

definition fgets_line :: "u8 list \<Rightarrow> u8 list" where
  "fgets_line data =
     (let chunk = take (MAX_LINE_LENGTH - 1) data; l = before 10 chunk
      in if length l < length chunk then l @ [10] else chunk)"

text \<open>One line: the new section and configuration, or \<open>None\<close> when memory runs out.\<close>

definition parse_line :: "grow \<Rightarrow> u8 list \<Rightarrow> u8 list \<Rightarrow> YA_Config \<Rightarrow> (u8 list \<times> YA_Config) option" where
  "parse_line grow line current_section cfg =
     (let start = trim_whitespace (cstr line) in
      if start = [] \<or> hd start = 59 \<or> hd start = 35 then Some (current_section, cfg)
      else if hd start = 91 then
        (if 93 \<in> set start
         then Some (trim_whitespace (safe_strncpy (tl (before 93 start)) MAX_SECTION_LENGTH), cfg)
         else Some (current_section, cfg))
      else if 61 \<in> set start then
        let key = trim_whitespace (before 61 start);
            value = remove_inline_comment (trim_whitespace (tl (dropWhile (\<lambda>d. d \<noteq> 61) start)))
        in map_option (Pair current_section) (add_entry grow current_section key (strip_quotes value) cfg)
      else Some (current_section, cfg))"

lemma fgets_line_nonempty: "data \<noteq> [] \<Longrightarrow> fgets_line data \<noteq> []"
  by (cases data) (simp_all add: fgets_line_def Let_def before_def)

function parse_file :: "grow \<Rightarrow> u8 list \<Rightarrow> u8 list \<Rightarrow> YA_Config \<Rightarrow> YA_Config \<times> int" where
  "parse_file grow data current_section cfg =
     (if data = [] then (cfg, 0)
      else case parse_line grow (fgets_line data) current_section cfg of
        None \<Rightarrow> (cfg, - 2)
      | Some (s, cfg') \<Rightarrow> parse_file grow (drop (length (fgets_line data)) data) s cfg')"
  by pat_completeness auto
termination
  by (relation "measure (\<lambda>(_, data, _). length data)") (use fgets_line_nonempty in \<open>auto simp: length_greater_0_conv\<close>)

declare parse_file.simps [simp del]

text \<open>\<open>file\<close> is the contents, \<open>None\<close> when it cannot be opened.\<close>

definition ya_config_parse :: "grow \<Rightarrow> u8 list option \<Rightarrow> YA_Config \<Rightarrow> YA_Config \<times> int" where
  "ya_config_parse grow file cfg =
     (case file of None \<Rightarrow> (cfg, - 1) | Some bytes \<Rightarrow> parse_file grow bytes [] cfg)"

section \<open>Access\<close>

type_synonym cfg_ptr = "nat \<times> nat"

fun entry_index :: "u8 list \<Rightarrow> u8 list \<Rightarrow> YA_Config_Entry list \<Rightarrow> nat option" where
  "entry_index s k [] = None"
| "entry_index s k (e # es) =
     (if e_section e = s \<and> e_key e = k then Some 0 else map_option Suc (entry_index s k es))"

text \<open>The value's address: the array's block and the entry's index.\<close>

definition ya_config_get :: "YA_Config \<Rightarrow> u8 list option \<Rightarrow> u8 list option \<Rightarrow> cfg_ptr option" where
  "ya_config_get cfg sec key =
     (case (sec, key) of
        (Some s, Some k) \<Rightarrow> map_option (\<lambda>i. (cfg_block cfg, i)) (entry_index s k (entries cfg))
      | _ \<Rightarrow> None)"

definition cfg_deref :: "YA_Config \<Rightarrow> cfg_ptr \<Rightarrow> u8 list ub" where
  "cfg_deref cfg = (\<lambda>(b, i).
     if b = cfg_block cfg \<and> i < length (entries cfg) then Defined (e_value (entries cfg ! i)) else UB)"

definition ya_config_set ::
  "grow \<Rightarrow> YA_Config \<Rightarrow> u8 list option \<Rightarrow> u8 list option \<Rightarrow> u8 list option \<Rightarrow> YA_Config \<times> int" where
  "ya_config_set grow cfg sec key val =
     (case (sec, key, val) of
        (Some s, Some k, Some v) \<Rightarrow>
          (case entry_index s k (entries cfg) of
             Some i \<Rightarrow>
               (cfg\<lparr>entries := (entries cfg)[i := (entries cfg ! i)\<lparr>e_value := safe_strncpy v MAX_VALUE_LENGTH\<rparr>]\<rparr>, 0)
           | None \<Rightarrow> (case add_entry grow s k v cfg of None \<Rightarrow> (cfg, - 2) | Some c \<Rightarrow> (c, 0)))
      | _ \<Rightarrow> (cfg, - 1))"

section \<open>Writer\<close>

fun save_entries :: "bool \<Rightarrow> u8 list \<Rightarrow> YA_Config_Entry list \<Rightarrow> u8 list" where
  "save_entries first last_section [] = []"
| "save_entries first last_section (e # es) =
     (if last_section \<noteq> e_section e
      then (if first then [] else [10]) @ [91] @ e_section e @ [93, 10] else []) @
     e_key e @ [61] @ e_value e @ [10] @
     save_entries False
       (if last_section \<noteq> e_section e then safe_strncpy (e_section e) MAX_SECTION_LENGTH else last_section) es"

text \<open>The contents written and the result; the results of the writes are not looked at.\<close>

definition ya_config_save :: "YA_Config \<Rightarrow> bool \<Rightarrow> u8 list option \<times> int" where
  "ya_config_save cfg open_ok =
     (if \<not> open_ok then (None, - 1) else (Some (save_entries True [] (entries cfg)), 0))"

section \<open>Lines of a file\<close>

definition trimmed :: "u8 list \<Rightarrow> bool" where
  "trimmed x \<longleftrightarrow> x = [] \<or> (\<not> isspace (hd x) \<and> \<not> isspace (last x))"

lemma dropWhile_hd: "x \<noteq> [] \<Longrightarrow> \<not> P (hd x) \<Longrightarrow> dropWhile P x = x"
  by (cases x) auto

lemma trim_newline:
  assumes "trimmed x"
  shows "trim_whitespace (x @ [10]) = x" and "trim_whitespace x = x"
proof -
  have nl: "isspace 10" by (simp add: isspace_def)
  have rev: "dropWhile isspace (rev cs) = rev cs" if "trimmed (c # cs)" for c cs
  proof (cases "cs = []")
    case False
    with that show ?thesis by (intro dropWhile_hd) (auto simp: trimmed_def hd_rev)
  qed simp
  show "trim_whitespace (x @ [10]) = x" "trim_whitespace x = x"
    using assms rev nl by (cases x; auto simp: trim_whitespace_def trimmed_def)+
qed

lemma before_all: "c \<notin> set x \<Longrightarrow> before c x = x"
  by (auto simp: before_def takeWhile_eq_all_conv)

lemma before_stop: "c \<notin> set x \<Longrightarrow> before c (x @ c # y) = x"
  by (induction x) (auto simp: before_def)

lemma cstr_plain: "0 \<notin> set x \<Longrightarrow> cstr x = x"
  by (auto simp: cstr_def takeWhile_eq_all_conv)

lemma parse_one_line:
  assumes "10 \<notin> set l" "length l \<le> 254"
  shows "parse_file grow (l @ 10 # rest) s cfg =
    (case parse_line grow (l @ [10]) s cfg of
       None \<Rightarrow> (cfg, - 2) | Some (s', cfg') \<Rightarrow> parse_file grow rest s' cfg')"
proof -
  have "take 255 (l @ 10 # rest) = l @ 10 # take (254 - length l) rest"
    using assms(2) by (simp add: take_Cons')
  then have l: "fgets_line (l @ 10 # rest) = l @ [10]"
    using assms(1) by (simp add: fgets_line_def Let_def before_stop)
  show ?thesis by (simp add: parse_file.simps [of grow "l @ 10 # rest"] l split: option.split)
qed

lemma parse_blank: "parse_line grow [10] s cfg = Some (s, cfg)"
  using trim_newline(1) [of "[]"] by (simp add: parse_line_def trimmed_def cstr_def Let_def)

section \<open>Entries that survive\<close>

text \<open>No NUL and no newline, and no spaces at the ends.\<close>

definition plain :: "u8 list \<Rightarrow> bool" where
  "plain x \<longleftrightarrow> 0 \<notin> set x \<and> 10 \<notin> set x \<and> trimmed x"

definition wf_section :: "u8 list \<Rightarrow> bool" where
  "wf_section s \<longleftrightarrow> plain s \<and> 93 \<notin> set s \<and> length s \<le> 63"

definition wf_key :: "u8 list \<Rightarrow> bool" where
  "wf_key k \<longleftrightarrow> plain k \<and> 61 \<notin> set k \<and> length k \<le> 63 \<and> (k = [] \<or> hd k \<notin> {59, 35, 91})"

definition wf_value :: "u8 list \<Rightarrow> bool" where
  "wf_value v \<longleftrightarrow> plain v \<and> 59 \<notin> set v \<and> 35 \<notin> set v \<and> \<not> (v \<noteq> [] \<and> hd v = 34 \<and> 34 \<in> set (tl v))"

definition wf_entry :: "YA_Config_Entry \<Rightarrow> bool" where
  "wf_entry e \<longleftrightarrow> wf_section (e_section e) \<and> wf_key (e_key e) \<and> wf_value (e_value e) \<and>
     length (e_key e) + length (e_value e) \<le> 253"

lemma parse_section_line:
  assumes "wf_section s"
  shows "parse_line grow (([91] @ s @ [93]) @ [10]) t cfg = Some (s, cfg)"
proof -
  have "trimmed ([91] @ s @ [93])" by (simp add: trimmed_def isspace_def)
  note t = trim_newline(1) [OF this]
  have "cstr (([91] @ s @ [93]) @ [10]) = ([91] @ s @ [93]) @ [10]"
    using assms by (intro cstr_plain) (simp add: wf_section_def plain_def)
  moreover have "before 93 ([91] @ s @ [93]) = 91 # s"
    using assms before_stop [of 93 "91 # s" "[]"] by (simp add: wf_section_def)
  moreover have "trim_whitespace s = s" using assms trim_newline(2) by (simp add: wf_section_def plain_def)
  ultimately show ?thesis
    using assms t by (simp add: parse_line_def safe_strncpy_def wf_section_def)
qed

lemma strip_quotes_plain: "wf_value v \<Longrightarrow> strip_quotes v = v"
  by (cases v) (auto simp: strip_quotes_def wf_value_def)

lemma parse_entry_line:
  assumes k: "wf_key k" and v: "wf_value v"
  shows "parse_line grow ((k @ [61] @ v) @ [10]) s cfg = map_option (Pair s) (add_entry grow s k v cfg)"
proof -
  let ?l = "k @ [61] @ v"
  have "trimmed ?l"
    using k v by (auto simp: trimmed_def wf_key_def wf_value_def plain_def isspace_def hd_append)
  note t = trim_newline(1) [OF this]
  have c: "cstr (?l @ [10]) = ?l @ [10]"
    using k v by (intro cstr_plain) (simp add: wf_key_def wf_value_def plain_def)
  have hd: "?l \<noteq> []" "hd ?l \<notin> {59, 35, 91}" "61 \<in> set ?l"
    using k by (auto simp: wf_key_def hd_append)
  have key: "trim_whitespace (before 61 ?l) = k"
    using k before_stop [of 61 k v] trim_newline(2) [of k] by (simp add: wf_key_def plain_def)
  have "tl (dropWhile (\<lambda>d. d \<noteq> 61) ?l) = v"
    using k by (simp add: wf_key_def dropWhile_append2 plain_def) (metis (mono_tags, lifting) dropWhile_append2 dropWhile.simps(2) list.sel(3))
  moreover have "remove_inline_comment (trim_whitespace v) = v"
    using v trim_newline(2) [of v] by (simp add: remove_inline_comment_def wf_value_def plain_def before_all)
  ultimately show ?thesis
    using hd strip_quotes_plain [OF v] unfolding parse_line_def c t Let_def key by simp
qed

lemma add_entry_ok:
  assumes "\<And>n. grow n \<noteq> NoMemory"
  shows "\<exists>cfg'. add_entry grow s k v cfg = Some cfg' \<and> entries cfg' = entries cfg @
    [\<lparr>e_section = take 63 s, e_key = take 63 k, e_value = take 255 v\<rparr>]"
  using assms [of "capacity cfg * 2 + 8"]
  by (auto simp: add_entry_def safe_strncpy_def Let_def split: realloc_result.splits)

lemma parse_saved:
  assumes grow: "\<And>n. grow n \<noteq> NoMemory" and "list_all wf_entry es"
  shows "\<exists>cfg'. parse_file grow (save_entries first s es) s cfg = (cfg', 0) \<and> entries cfg' = entries cfg @ es"
  using assms(2)
proof (induction es arbitrary: first s cfg)
  case Nil
  show ?case by (simp add: parse_file.simps)
next
  case (Cons e es)
  let ?s = "e_section e" and ?k = "e_key e" and ?v = "e_value e"
  have e: "wf_section ?s" "wf_key ?k" "wf_value ?v" "length ?k + length ?v \<le> 253"
    using Cons.prems by (simp_all add: wf_entry_def)
  let ?rest = "save_entries False ?s es"
  let ?entry = "(?k @ [61] @ ?v) @ 10 # ?rest"
  have sec: "safe_strncpy ?s 64 = ?s" using e(1) by (simp add: wf_section_def safe_strncpy_def)
  obtain cfg1 where a: "add_entry grow ?s ?k ?v cfg = Some cfg1"
      "entries cfg1 = entries cfg @ [\<lparr>e_section = take 63 ?s, e_key = take 63 ?k, e_value = take 255 ?v\<rparr>]"
    using add_entry_ok [of grow ?s ?k ?v cfg] grow by blast
  have ent: "entries cfg1 = entries cfg @ [e]"
    using a(2) e by (cases e) (simp add: wf_section_def wf_key_def)
  have nl: "10 \<notin> set (?k @ [61] @ ?v)" "length (?k @ [61] @ ?v) \<le> 254"
    using e by (simp_all add: wf_key_def wf_value_def plain_def)
  have entry: "parse_file grow ?entry ?s cfg = parse_file grow ?rest ?s cfg1"
    unfolding parse_one_line [OF nl] parse_entry_line [OF e(2,3)] a(1) by simp
  have "10 \<notin> set ([91] @ ?s @ [93])" "length ([91] @ ?s @ [93]) \<le> 254"
    using e(1) by (simp_all add: wf_section_def plain_def)
  note head = parse_one_line [OF this]
  have sect: "parse_file grow (([91] @ ?s @ [93]) @ 10 # ?entry) t cfg = parse_file grow ?entry ?s cfg" for t
    unfolding head parse_section_line [OF e(1)] by simp
  have blank: "parse_file grow ([] @ 10 # x) t cfg = parse_file grow x t cfg" for x t
    by (subst parse_one_line) (simp_all add: parse_blank)
  have "parse_file grow (save_entries first s (e # es)) s cfg = parse_file grow ?rest ?s cfg1"
  proof (cases "s = ?s")
    case True
    with entry show ?thesis by simp
  next
    case False
    with sect [of s] blank [of "([91] @ ?s @ [93]) @ 10 # ?entry" s] entry sec show ?thesis
      by (cases first) simp_all
  qed
  with Cons.IH [of False ?s cfg1] Cons.prems ent show ?case by simp
qed



section \<open>A store of settings\<close>

text \<open>
  What the users of the configuration rely on: a setting that was put is looked up as the text
  that fits its field, and putting it changes no other setting.  A list of settings put in turn
  then leaves for each name the last one of the list.
\<close>

locale settings =
  fixes ok :: "'k \<Rightarrow> bool" and cut :: "'v \<Rightarrow> 'v" and look :: "'s \<Rightarrow> 'k \<Rightarrow> 'v option" and put :: "'k \<Rightarrow> 'v \<Rightarrow> 's \<Rightarrow> 's"
  assumes put_same: "ok k \<Longrightarrow> look (put k v s) k = Some (cut v)"
    and put_other: "ok k \<Longrightarrow> k' \<noteq> k \<Longrightarrow> look (put k v s) k' = look s k'"
begin

lemma puts:
  "list_all (\<lambda>(k, v). ok k) xs \<Longrightarrow> look (fold (\<lambda>(k, v). put k v) xs s) k =
     (case map_of (rev xs) k of Some v \<Rightarrow> Some (cut v) | None \<Rightarrow> look s k)"
proof (induction xs arbitrary: s)
  case (Cons x xs)
  obtain k' v where x: "x = (k', v)" by (cases x)
  with Cons show ?case
    using put_same [of k' v s] put_other [of k' k v s]
    by (cases "k = k'") (auto simp: map_add_def split: option.splits)
qed simp

end

definition cfg_lookup :: "YA_Config \<Rightarrow> u8 list \<times> u8 list \<Rightarrow> u8 list option" where
  "cfg_lookup cfg = (\<lambda>(s, k). map_option (\<lambda>i. e_value (entries cfg ! i)) (entry_index s k (entries cfg)))"

definition cfg_put :: "grow \<Rightarrow> u8 list \<times> u8 list \<Rightarrow> u8 list \<Rightarrow> YA_Config \<Rightarrow> YA_Config" where
  "cfg_put grow = (\<lambda>(s, k) v cfg. fst (ya_config_set grow cfg (Some s) (Some k) (Some v)))"

lemma entry_index_Some:
  "entry_index s k es = Some i \<Longrightarrow> i < length es \<and> e_section (es ! i) = s \<and> e_key (es ! i) = k \<and>
     (\<forall>j < i. \<not> (e_section (es ! j) = s \<and> e_key (es ! j) = k))"
proof (induction es arbitrary: i)
  case (Cons e es)
  show ?case
  proof (cases "e_section e = s \<and> e_key e = k")
    case False
    with Cons.prems obtain j where j: "entry_index s k es = Some j" "i = Suc j" by auto
    with Cons.IH [OF j(1)] False show ?thesis by (auto simp: less_Suc_eq_0_disj)
  qed (use Cons.prems in auto)
qed simp

text \<open>A pointer just obtained is good and points to the value.\<close>

lemma get_deref:
  "ya_config_get cfg (Some s) (Some k) = Some p \<Longrightarrow> \<exists>v. cfg_deref cfg p = Defined v \<and> cfg_lookup cfg (s, k) = Some v"
  by (auto simp: ya_config_get_def cfg_deref_def cfg_lookup_def dest: entry_index_Some)

lemma get_None: "ya_config_get cfg (Some s) (Some k) = None \<longleftrightarrow> cfg_lookup cfg (s, k) = None"
  by (simp add: ya_config_get_def cfg_lookup_def)

lemma entry_index_append:
  "entry_index s k (es @ ds) =
     (case entry_index s k es of Some i \<Rightarrow> Some i | None \<Rightarrow> map_option (\<lambda>i. i + length es) (entry_index s k ds))"
  by (induction es) (auto simp: option.map_comp o_def option.map_ident split: option.splits)

lemma entry_index_same_names:
  assumes "map e_section es = map e_section ds" "map e_key es = map e_key ds"
  shows "entry_index s k es = entry_index s k ds"
proof -
  have "length es = length ds" using assms(1) by (metis length_map)
  from this assms show ?thesis by (induction es ds rule: list_induct2) auto
qed

lemma set_cases:
  assumes "\<And>n. grow n \<noteq> NoMemory"
  shows "\<exists>cfg'. ya_config_set grow cfg (Some s) (Some k) (Some v) = (cfg', 0) \<and> entries cfg' =
    (case entry_index s k (entries cfg) of
       Some i \<Rightarrow> (entries cfg)[i := (entries cfg ! i)\<lparr>e_value := take 255 v\<rparr>]
     | None \<Rightarrow> entries cfg @ [\<lparr>e_section = take 63 s, e_key = take 63 k, e_value = take 255 v\<rparr>])"
  using add_entry_ok [of grow s k v cfg] assms
  by (auto simp: ya_config_set_def safe_strncpy_def split: option.splits)

lemma update_names:
  "i < length es \<Longrightarrow> map e_section (es[i := (es ! i)\<lparr>e_value := x\<rparr>]) = map e_section es"
  "i < length es \<Longrightarrow> map e_key (es[i := (es ! i)\<lparr>e_value := x\<rparr>]) = map e_key es"
  by (simp_all add: map_update list_update_same_conv)

locale heap =
  fixes grow :: grow
  assumes never_full: "grow n \<noteq> NoMemory"
begin

lemma lookup_put:
  assumes "length s \<le> 63" "length k \<le> 63"
  shows "cfg_lookup (cfg_put grow (s, k) v cfg) n = (if n = (s, k) then Some (take 255 v) else cfg_lookup cfg n)"
proof -
  obtain s' k' where n: "n = (s', k')" by (cases n)
  obtain cfg' where c: "ya_config_set grow cfg (Some s) (Some k) (Some v) = (cfg', 0)" "entries cfg' =
    (case entry_index s k (entries cfg) of
       Some i \<Rightarrow> (entries cfg)[i := (entries cfg ! i)\<lparr>e_value := take 255 v\<rparr>]
     | None \<Rightarrow> entries cfg @ [\<lparr>e_section = take 63 s, e_key = take 63 k, e_value = take 255 v\<rparr>])"
    using set_cases [of grow cfg s k v] never_full by blast
  have put: "cfg_put grow (s, k) v cfg = cfg'" using c(1) by (simp add: cfg_put_def)
  show ?thesis
  proof (cases "entry_index s k (entries cfg)")
    case None
    with c(2) assms put n show ?thesis
      by (auto simp: cfg_lookup_def entry_index_append nth_append split: option.splits dest: entry_index_Some)
  next
    case (Some i)
    let ?es = "entries cfg"
    let ?es' = "?es[i := (?es ! i)\<lparr>e_value := take 255 v\<rparr>]"
    from entry_index_Some [OF Some] have i: "i < length ?es" "e_section (?es ! i) = s" "e_key (?es ! i) = k" by auto
    have same: "entry_index s' k' ?es' = entry_index s' k' ?es"
      by (rule entry_index_same_names) (simp_all add: update_names i(1))
    have other: "j \<noteq> i" if "entry_index s' k' ?es = Some j" "n \<noteq> (s, k)" for j
      using entry_index_Some [OF that(1)] that(2) n i by auto
    show ?thesis
      using Some c(2) put n same i(1) other
      by (cases "entry_index s' k' ?es") (auto simp: cfg_lookup_def)
  qed
qed

end

sublocale heap \<subseteq> config: settings "\<lambda>(s, k). length s \<le> 63 \<and> length k \<le> 63" "take 255" cfg_lookup "cfg_put grow"
  by unfold_locales (auto simp: lookup_put split: if_splits)

context heap
begin

lemmas settings_put = config.puts

end

interpretation extending: heap "\<lambda>_. Extended" by unfold_locales simp

interpretation moving: heap "\<lambda>_. Moved" by unfold_locales simp

text \<open>C32.
  Settings are kept.  After any list of settings with names of at most 63 bytes has been put into
  a configuration, while memory suffices, each name has the last value the list gives it, cut to
  255 bytes, and every name the list does not mention has the value it had before; the pointer
  \<open>ya_config_get\<close> returns points to that value.
\<close>

theorem settings_kept:
  assumes "\<And>n. grow n \<noteq> NoMemory"
    and "list_all (\<lambda>((s, k), v). length s \<le> 63 \<and> length k \<le> 63) xs"
    and "cfg' = fold (\<lambda>(n, v). cfg_put grow n v) xs cfg"
  shows "(case ya_config_get cfg' (Some s) (Some k) of None \<Rightarrow> None | Some p \<Rightarrow> Some (cfg_deref cfg' p)) =
    (case map_of (rev xs) (s, k) of
       Some v \<Rightarrow> Some (Defined (take 255 v))
     | None \<Rightarrow> map_option Defined (cfg_lookup cfg (s, k)))"
proof -
  have ok: "list_all (\<lambda>(n, v). (case n of (s, k) \<Rightarrow> length s \<le> 63 \<and> length k \<le> 63)) xs"
    using assms(2) by (simp add: case_prod_unfold)
  have "heap grow" using assms(1) by unfold_locales
  from heap.settings_put [OF this ok, of cfg "(s, k)"]
  have "cfg_lookup cfg' (s, k) =
      (case map_of (rev xs) (s, k) of Some v \<Rightarrow> Some (take 255 v) | None \<Rightarrow> cfg_lookup cfg (s, k))"
    by (simp add: assms(3))
  then show ?thesis
    using get_deref [of cfg' s k] get_None [of cfg' s k]
    by (cases "ya_config_get cfg' (Some s) (Some k)") (auto split: option.splits)
qed

theorem settings_kept_witness:
  "\<exists>p. ya_config_get (fold (\<lambda>(n, v). cfg_put (\<lambda>_. Moved) n v) [(([1], [2]), [3]), (([1], [2]), [4])] ya_config_init)
     (Some [1]) (Some [2]) = Some p \<and>
   cfg_deref (fold (\<lambda>(n, v). cfg_put (\<lambda>_. Moved) n v) [(([1], [2]), [3]), (([1], [2]), [4])] ya_config_init) p =
     Defined [4]"
  using settings_kept [of "\<lambda>_. Moved" "[(([1], [2]), [3]), (([1], [2]), [4])]" _ ya_config_init "[1]" "[2]", OF _ _ refl]
  by (auto split: option.splits)

end
