(* ===== verification/Http.thy ===== *)
theory Http
  imports ServerContext Config
begin

text \<open>
  The HTTP interface of \<open>ya_server_http.c\<close>: commands, status and configuration, each request and
  response in MessagePack, with \<open>ya_get_peer_addr\<close> of \<open>ya_utils.c\<close>.

  A request is its method and body.  A response is the bytes sent with code 200 or one of the
  error pages.  The addresses the server listens on are pointers into the configuration, taken
  when the server started.
\<close>

datatype http_method = EVHTTP_REQ_GET | EVHTTP_REQ_POST | EVHTTP_REQ_OTHER

datatype http_response = HttpReply int "u8 list" | HttpError int string

definition HTTP_OK :: int where "HTTP_OK = 200"
definition HTTP_BADMETHOD :: int where "HTTP_BADMETHOD = 405"
definition HTTP_INTERNAL :: int where "HTTP_INTERNAL = 500"

text \<open>
  The address of a connection's peer: of IPv4, of another family (the buffer is not written
  then), or none.
\<close>

datatype peer = PeerIPv4 "u8 list" | PeerOther | NoPeer

record http_server =
  h_ctx :: svr_context
  h_config :: YA_Config
  session_addr :: "cfg_ptr option"
  command_addr :: "cfg_ptr option"
  http_addr :: "cfg_ptr option"
  h_clients :: clients
  peer_of :: "i32 \<Rightarrow> peer"
  h_grow :: grow
  config_writable :: bool
  config_file :: "u8 list option"

type_synonym http_handler = "u8 list \<Rightarrow> http_server \<Rightarrow> mpack_writer \<Rightarrow> (http_server \<times> mpack_writer) run"

abbreviation write_lit :: "mpack_writer \<Rightarrow> string \<Rightarrow> mpack_writer" where
  "write_lit w s \<equiv> mpack_write_cstr w (bytes_of_string s)"

section \<open>Commands\<close>

definition handle_command :: http_handler where
  "handle_command request h w = returns (h, write_lit (write_lit (mpack_start_map w 1) ''result'') ''success'')"

section \<open>Status\<close>

text \<open>The text in the buffer, \<open>UB\<close> when it was left uninitialized.\<close>

definition ya_get_peer_addr :: "peer \<Rightarrow> u8 list ub" where
  "ya_get_peer_addr p =
     (case p of PeerIPv4 a \<Rightarrow> Defined a | PeerOther \<Rightarrow> UB | NoPeer \<Rightarrow> Defined (bytes_of_string ''unknown''))"

definition write_client :: "http_server \<Rightarrow> ya_client \<Rightarrow> mpack_writer \<Rightarrow> mpack_writer ub" where
  "write_client h c w =
     ub_bind (ya_get_peer_addr (peer_of h (c_fd c))) (\<lambda>client_addr.
       let w1 = write_lit (mpack_start_map w 3) ''uid'';
           w2 = write_lit (mpack_write_u32 w1 (c_uid c)) ''address'';
           w3 = write_lit (mpack_write_cstr w2 client_addr) ''connected_at''
       in Defined (mpack_write_u64 w3 (word_of_int (c_connected_at c))))"

partial_function (option) write_chain :: "http_server \<Rightarrow> ptr \<Rightarrow> mpack_writer \<Rightarrow> mpack_writer run" where
  "write_chain h cur w =
     (case cur of
        None \<Rightarrow> returns w
      | Some a \<Rightarrow>
          (case cells (snd (h_clients h)) a of
             None \<Rightarrow> Some UB
           | Some c \<Rightarrow>
               (case (if c_state c = YA_CLIENT_ACTIVE then write_client h c w else Defined w) of
                  UB \<Rightarrow> Some UB
                | Defined w' \<Rightarrow> write_chain h (c_next c) w')))"

fun write_buckets :: "http_server \<Rightarrow> ptr list \<Rightarrow> mpack_writer \<Rightarrow> mpack_writer run" where
  "write_buckets h [] w = returns w"
| "write_buckets h (p # ps) w = run_bind (write_chain h p w) (\<lambda>w'. write_buckets h ps w')"

text \<open>A string of the configuration, empty for a null pointer.\<close>

definition read_addr :: "http_server \<Rightarrow> cfg_ptr option \<Rightarrow> u8 list run" where
  "read_addr h p = (case p of None \<Rightarrow> returns [] | Some q \<Rightarrow> Some (cfg_deref (h_config h) q))"

definition handle_status :: http_handler where
  "handle_status request h w =
     (let w1 = write_lit (mpack_start_map w 4) ''server_status'';
          w2 = write_lit w1 (ya_server_state_to_string (ya_server_get_state (h_ctx h)));
          w3 = write_lit (mpack_start_map (write_lit w2 ''listeners'') 3) ''session''
      in run_bind (read_addr h (session_addr h)) (\<lambda>s.
         run_bind (read_addr h (command_addr h)) (\<lambda>c.
         run_bind (read_addr h (http_addr h)) (\<lambda>a.
         run_bind (ya_client_get_count (h_clients h)) (\<lambda>count.
           let w4 = write_lit (mpack_write_cstr w3 s) ''command'';
               w5 = write_lit (mpack_write_cstr w4 c) ''http'';
               w6 = write_lit (mpack_write_cstr w5 a) ''connected_clients'';
               w7 = mpack_start_array w6 count
           in run_bind (write_buckets h (take 251 (buckets (fst (h_clients h)))) w7) (\<lambda>w8.
              run_bind (read_addr h (ya_config_get (h_config h) (Some (bytes_of_string ''logger''))
                                       (Some (bytes_of_string ''file'')))) (\<lambda>log_file.
                returns (h, mpack_write_cstr (write_lit w8 ''log_path'') log_file))))))))"

section \<open>Configuration\<close>

definition write_entry :: "YA_Config_Entry \<Rightarrow> mpack_writer \<Rightarrow> mpack_writer" where
  "write_entry e w =
     (let w1 = mpack_write_cstr (write_lit (mpack_start_map w 3) ''section'') (e_section e);
          w2 = mpack_write_cstr (write_lit w1 ''key'') (e_key e)
      in mpack_write_cstr (write_lit w2 ''value'') (e_value e))"

definition handle_get_config :: http_handler where
  "handle_get_config request h w =
     returns (h, fold write_entry (entries (h_config h)) (mpack_start_array w (word_of_nat (length (entries (h_config h))))))"

text \<open>One item of the request: the names are read in a fixed order and not looked at.\<close>

definition read_item :: "mpack_reader \<Rightarrow> mpack_reader \<times> u8 list \<times> u8 list \<times> u8 list" where
  "read_item r =
     (let (r0, _) = mpack_expect_map r;
          (r1, _) = mpack_expect_utf8_cstr r0 MAX_KEY_LENGTH;
          (r2, s) = mpack_expect_utf8_cstr r1 MAX_SECTION_LENGTH;
          (r3, _) = mpack_expect_utf8_cstr r2 MAX_KEY_LENGTH;
          (r4, k) = mpack_expect_utf8_cstr r3 MAX_KEY_LENGTH;
          (r5, _) = mpack_expect_utf8_cstr r4 MAX_KEY_LENGTH;
          (r6, v) = mpack_expect_utf8_cstr r5 MAX_VALUE_LENGTH
      in (r6, s, k, v))"

text \<open>The loop goes on when the reader has failed, with empty strings; failures to set are only logged.\<close>

fun apply_items :: "nat \<Rightarrow> grow \<Rightarrow> mpack_reader \<Rightarrow> YA_Config \<Rightarrow> mpack_reader \<times> YA_Config" where
  "apply_items 0 grow r cfg = (r, cfg)"
| "apply_items (Suc n) grow r cfg =
     (case read_item r of (r', s, k, v) \<Rightarrow>
        apply_items n grow r' (fst (ya_config_set grow cfg (Some s) (Some k) (Some v))))"

definition error_body :: "string \<Rightarrow> mpack_writer \<Rightarrow> mpack_writer" where
  "error_body message w =
     write_lit (write_lit (write_lit (write_lit (mpack_start_map w 2) ''result'') ''error'') ''message'') message"

definition handle_post_config :: http_handler where
  "handle_post_config request h w =
     (case mpack_read_tag (mpack_reader_init_data request) of (r, tag) \<Rightarrow>
        case tag of
          TagArray count \<Rightarrow>
            (case apply_items (unat count) (h_grow h) r (h_config h) of (r', cfg) \<Rightarrow>
               let h1 = h\<lparr>h_config := cfg\<rparr> in
               if rerror r' \<noteq> mpack_ok then returns (h1, error_body ''Failed to parse request data.'' w)
               else case ya_config_save cfg (config_writable h) of (data, ret) \<Rightarrow>
                 if ret \<noteq> 0 then returns (h1, error_body ''Failed to save configuration file.'' w)
                 else returns (h1\<lparr>config_file := data\<rparr>,
                   write_lit (write_lit (mpack_start_map w 1) ''result'') ''success''))
        | _ \<Rightarrow> returns (h, error_body ''Invalid request format: expected an array.'' w))"

section \<open>Requests\<close>

text \<open>\<open>body_ok\<close> is the success of the allocation of the body's copy; a GET has no body.\<close>

definition process_request ::
  "http_method \<Rightarrow> u8 list \<Rightarrow> bool \<Rightarrow> http_handler \<Rightarrow> http_server \<Rightarrow> (http_server \<times> http_response) run" where
  "process_request meth body body_ok handler h =
     (let request = (if meth = EVHTTP_REQ_POST then body else []) in
      if request \<noteq> [] \<and> \<not> body_ok
      then returns (h, HttpError HTTP_INTERNAL ''Failed to allocate memory for request body'')
      else run_bind (handler request h mpack_writer_init_growable) (\<lambda>(h', w).
        if werror w \<noteq> mpack_ok then returns (h', HttpError HTTP_INTERNAL ''Failed to encode response'')
        else returns (h', HttpReply HTTP_OK (wbuf w))))"

definition handle_command_request ::
  "http_method \<Rightarrow> u8 list \<Rightarrow> bool \<Rightarrow> http_server \<Rightarrow> (http_server \<times> http_response) run" where
  "handle_command_request meth body body_ok h =
     (if meth \<noteq> EVHTTP_REQ_POST then returns (h, HttpError HTTP_BADMETHOD ''Only POST method is allowed'')
      else process_request meth body body_ok handle_command h)"

definition handle_status_request ::
  "http_method \<Rightarrow> u8 list \<Rightarrow> bool \<Rightarrow> http_server \<Rightarrow> (http_server \<times> http_response) run" where
  "handle_status_request meth body body_ok h =
     (if meth \<noteq> EVHTTP_REQ_GET then returns (h, HttpError HTTP_BADMETHOD ''Only GET method is allowed'')
      else process_request meth body body_ok handle_status h)"

definition handle_config_request ::
  "http_method \<Rightarrow> u8 list \<Rightarrow> bool \<Rightarrow> http_server \<Rightarrow> (http_server \<times> http_response) run" where
  "handle_config_request meth body body_ok h =
     (case meth of
        EVHTTP_REQ_GET \<Rightarrow> process_request meth body body_ok handle_get_config h
      | EVHTTP_REQ_POST \<Rightarrow> process_request meth body body_ok handle_post_config h
      | _ \<Rightarrow> returns (h, HttpError HTTP_BADMETHOD ''Method not allowed''))"

section \<open>Life cycle\<close>

text \<open>
  \<open>run_http_server\<close>: the address, if it is configured, and the success of the server's creation,
  of the copy of the address and of binding.  The result, and whether there is a server then.
\<close>

definition run_http_server :: "u8 list option \<Rightarrow> bool \<Rightarrow> bool \<Rightarrow> bool \<Rightarrow> int \<times> bool" where
  "run_http_server addr new_ok dup_ok bind_ok =
     (if addr = None \<or> addr = Some [] then (0, False)
      else if \<not> new_ok then (- 1, False)
      else if \<not> dup_ok then (- 1, True)
      else if \<not> bind_ok then (- 1, False)
      else (0, True))"

definition stop_http_server :: "bool \<Rightarrow> bool" where
  "stop_http_server running = False"

section \<open>The configuration over HTTP\<close>

text \<open>Entries that fit their fields and are valid UTF-8.\<close>

definition http_entry :: "YA_Config_Entry \<Rightarrow> bool" where
  "http_entry e \<longleftrightarrow> length (e_section e) \<le> 63 \<and> length (e_key e) \<le> 63 \<and> length (e_value e) \<le> 255 \<and>
     mpack_utf8_check_no_null (e_section e) \<and> mpack_utf8_check_no_null (e_key e) \<and>
     mpack_utf8_check_no_null (e_value e)"

definition entry_bytes :: "YA_Config_Entry \<Rightarrow> u8 list" where
  "entry_bytes e = 0x83 # str_bytes (bytes_of_string ''section'') @ str_bytes (e_section e) @
     str_bytes (bytes_of_string ''key'') @ str_bytes (e_key e) @
     str_bytes (bytes_of_string ''value'') @ str_bytes (e_value e)"

lemma cstr_growable:
  assumes "wcap w = None" "0 \<notin> set s" "length s < 2 ^ 32"
  shows "mpack_write_cstr w s = w\<lparr>wbuf := wbuf w @ str_bytes s\<rparr>"
proof -
  have "cstr s = s" using assms(2) by (auto simp: cstr_def takeWhile_eq_all_conv)
  with assms show ?thesis by (simp add: mpack_write_cstr_def Let_def growable_writes(3))
qed

lemma literals:
  "mpack_utf8_check_no_null (bytes_of_string ''section'')" "mpack_utf8_check_no_null (bytes_of_string ''key'')"
  "mpack_utf8_check_no_null (bytes_of_string ''value'')"
  "length (bytes_of_string ''section'') = 7" "length (bytes_of_string ''key'') = 3"
  "length (bytes_of_string ''value'') = 5"
  by code_simp+

lemma write_entry_growable:
  assumes "wcap w = None" "http_entry e"
  shows "write_entry e w = w\<lparr>wbuf := wbuf w @ entry_bytes e\<rparr>"
proof -
  have m: "mpack_start_map w 3 = w\<lparr>wbuf := wbuf w @ [0x83]\<rparr>"
    using assms(1) by (simp add: mpack_start_map_def mpack_write_map_notrack_def mpack_encode_fixmap_def mpack_write_native_growable)
  have nz: "0 \<notin> set (e_section e)" "0 \<notin> set (e_key e)" "0 \<notin> set (e_value e)"
    using assms(2) utf8_no_null by (auto simp: http_entry_def)
  have len: "length (e_section e) < 2 ^ 32" "length (e_key e) < 2 ^ 32" "length (e_value e) < 2 ^ 32"
    using assms(2) by (simp_all add: http_entry_def)
  show ?thesis
    using assms(1) nz len literals utf8_no_null
    by (simp add: write_entry_def m cstr_growable entry_bytes_def Let_def)
qed

lemma write_entries:
  "wcap w = None \<Longrightarrow> list_all http_entry es \<Longrightarrow>
     fold write_entry es w = w\<lparr>wbuf := wbuf w @ concat (map entry_bytes es)\<rparr>"
  by (induction es arbitrary: w) (simp_all add: write_entry_growable)

lemma read_entry:
  assumes "rerror r = mpack_ok" "rdata r = entry_bytes e @ rest" "http_entry e"
  shows "read_item r = (r\<lparr>rdata := rest\<rparr>, e_section e, e_key e, e_value e)"
proof -
  have e: "length (e_section e) < 64" "length (e_key e) < 64" "length (e_value e) < 256"
    "mpack_utf8_check_no_null (e_section e)" "mpack_utf8_check_no_null (e_key e)" "mpack_utf8_check_no_null (e_value e)"
    using assms(3) by (simp_all add: http_entry_def)
  have "mpack_expect_map r = (r\<lparr>rdata := tl (entry_bytes e) @ rest\<rparr>, 3)"
    by (rule expect_small_map) (use assms(1,2) in \<open>simp_all add: entry_bytes_def\<close>)
  with assms(1) e literals show ?thesis
    by (simp add: read_item_def entry_bytes_def expect_utf8_cstr_bytes)
qed

lemma entry_index_None: "entry_index s k es = None \<longleftrightarrow> (\<forall>e \<in> set es. \<not> (e_section e = s \<and> e_key e = k))"
  by (induction es) auto

lemma set_same:
  assumes "e \<in> set (entries cfg)" "http_entry e" "distinct (map (\<lambda>e. (e_section e, e_key e)) (entries cfg))"
  shows "ya_config_set grow cfg (Some (e_section e)) (Some (e_key e)) (Some (e_value e)) = (cfg, 0)"
proof -
  let ?es = "entries cfg"
  have "entry_index (e_section e) (e_key e) ?es \<noteq> None"
    using assms(1) by (auto simp: entry_index_None)
  then obtain i where i: "entry_index (e_section e) (e_key e) ?es = Some i" by blast
  from entry_index_Some [OF i] have ix: "i < length ?es" "e_section (?es ! i) = e_section e" "e_key (?es ! i) = e_key e"
    by auto
  obtain j where j: "j < length ?es" "?es ! j = e" using assms(1) by (auto simp: in_set_conv_nth)
  have "i = j"
    using nth_eq_iff_index_eq [OF assms(3), of i j] ix j by simp
  moreover have "?es[j := e] = ?es" using j by (metis list_update_id)
  then have "cfg\<lparr>entries := ?es[j := e]\<rparr> = cfg" by simp
  ultimately show ?thesis using i j assms(2)
    by (simp add: ya_config_set_def safe_strncpy_def http_entry_def)
qed

lemma apply_same:
  assumes "distinct (map (\<lambda>e. (e_section e, e_key e)) (entries cfg))"
  shows "rerror r = mpack_ok \<Longrightarrow> rdata r = concat (map entry_bytes es) @ rest \<Longrightarrow> list_all http_entry es \<Longrightarrow>
    set es \<subseteq> set (entries cfg) \<Longrightarrow> apply_items (length es) grow r cfg = (r\<lparr>rdata := rest\<rparr>, cfg)"
proof (induction es arbitrary: r)
  case (Cons e es)
  have "read_item r = (r\<lparr>rdata := concat (map entry_bytes es) @ rest\<rparr>, e_section e, e_key e, e_value e)"
    by (rule read_entry) (use Cons.prems in simp_all)
  with set_same [of e cfg grow] assms Cons show ?case by simp
qed simp

definition success_body :: "u8 list" where
  "success_body = wbuf (write_lit (write_lit (mpack_start_map mpack_writer_init_growable 1) ''result'') ''success'')"

lemma success_reply:
  "werror w = mpack_ok \<Longrightarrow> wcap w = None \<Longrightarrow> write_lit (write_lit (mpack_start_map w 1) ''result'') ''success'' =
     w\<lparr>wbuf := wbuf w @ success_body\<rparr>"
proof -
  have lits: "0 \<notin> set (bytes_of_string ''result'')" "0 \<notin> set (bytes_of_string ''success'')"
    "length (bytes_of_string ''result'') = 6" "length (bytes_of_string ''success'') = 7"
    by code_simp+
  assume "wcap w = None"
  then show ?thesis
    by (simp add: success_body_def mpack_start_map_def mpack_write_map_notrack_def mpack_encode_fixmap_def mpack_write_native_growable
        cstr_growable lits)
qed

text \<open>C33.
  Writing back the configuration as it was read changes nothing.  For every configuration whose
  names are different from each other and whose strings fit and are valid UTF-8, the body a GET of
  \<open>/config\<close> returns is accepted by the POST: the configuration, the array included, is the same,
  the file is saved with it and the reply is success.
\<close>

theorem config_get_post:
  assumes "distinct (map (\<lambda>e. (e_section e, e_key e)) (entries (h_config h)))"
    and "list_all http_entry (entries (h_config h))" and "length (entries (h_config h)) < 2 ^ 32"
    and "config_writable h"
  shows "\<exists>body. handle_config_request EVHTTP_REQ_GET [] True h = returns (h, HttpReply HTTP_OK body) \<and>
    handle_config_request EVHTTP_REQ_POST body True h =
      returns (h\<lparr>config_file := Some (save_entries True [] (entries (h_config h)))\<rparr>, HttpReply HTTP_OK success_body)"
proof -
  let ?es = "entries (h_config h)"
  let ?n = "word_of_nat (length ?es) :: u32"
  let ?body = "array_bytes ?n @ concat (map entry_bytes ?es)"
  have "handle_get_config [] h mpack_writer_init_growable =
      returns (h, mpack_writer_init_growable\<lparr>wbuf := ?body\<rparr>)"
    by (simp add: handle_get_config_def growable_writes(4) write_entries [OF _ assms(2)])
  then have get: "handle_config_request EVHTTP_REQ_GET [] True h = returns (h, HttpReply HTTP_OK ?body)"
    by (simp add: handle_config_request_def process_request_def)
  have n: "unat ?n = length ?es" using assms(3) by (simp add: unat_of_nat take_bit_nat_eq_self)
  have "mpack_read_tag (mpack_reader_init_data ?body) =
      ((mpack_reader_init_data ?body)\<lparr>rdata := concat (map entry_bytes ?es)\<rparr>, TagArray ?n)"
    by (rule read_tag_array_bytes) (simp_all add: mpack_reader_init_data_def)
  moreover have "apply_items (length ?es) (h_grow h)
      ((mpack_reader_init_data ?body)\<lparr>rdata := concat (map entry_bytes ?es)\<rparr>) (h_config h) =
      ((mpack_reader_init_data ?body)\<lparr>rdata := []\<rparr>, h_config h)"
    using apply_same [OF assms(1), of "(mpack_reader_init_data ?body)\<lparr>rdata := concat (map entry_bytes ?es)\<rparr>" ?es "[]"]
      assms(2) by (simp add: mpack_reader_init_data_def)
  ultimately have "handle_post_config ?body h mpack_writer_init_growable =
      returns (h\<lparr>config_file := Some (save_entries True [] ?es)\<rparr>, mpack_writer_init_growable\<lparr>wbuf := success_body\<rparr>)"
    using assms(4) n by (simp add: handle_post_config_def ya_config_save_def Let_def success_reply mpack_reader_init_data_def)
  then have "handle_config_request EVHTTP_REQ_POST ?body True h =
      returns (h\<lparr>config_file := Some (save_entries True [] ?es)\<rparr>, HttpReply HTTP_OK success_body)"
    by (simp add: handle_config_request_def process_request_def)
  with get show ?thesis by blast
qed

definition sample_http :: http_server where
  "sample_http = \<lparr>h_ctx = \<lparr>svr_state = YA_SERVER_RUNNING, components_state = no_components, svr_stats = no_stats\<rparr>,
     h_config = \<lparr>entries = replicate 8 \<lparr>e_section = [115], e_key = [107], e_value = [49]\<rparr>, capacity = 8, cfg_block = 1\<rparr>,
     session_addr = Some (1, 0), command_addr = None, http_addr = None, h_clients = one_client,
     peer_of = (\<lambda>_. NoPeer), h_grow = (\<lambda>_. Moved), config_writable = True, config_file = None\<rparr>"

theorem config_get_post_witness:
  "\<exists>body. handle_config_request EVHTTP_REQ_GET [] True
      (sample_http\<lparr>h_config := \<lparr>entries = [\<lparr>e_section = [115], e_key = [107], e_value = [49]\<rparr>], capacity = 8, cfg_block = 1\<rparr>\<rparr>) =
    returns (sample_http\<lparr>h_config := \<lparr>entries = [\<lparr>e_section = [115], e_key = [107], e_value = [49]\<rparr>], capacity = 8, cfg_block = 1\<rparr>\<rparr>,
      HttpReply HTTP_OK body)"
  using config_get_post [of "sample_http\<lparr>h_config :=
      \<lparr>entries = [\<lparr>e_section = [115], e_key = [107], e_value = [49]\<rparr>], capacity = 8, cfg_block = 1\<rparr>\<rparr>"]
  by (auto simp: http_entry_def sample_http_def mpack_utf8_check_no_null_def)

text \<open>C34.
  A configuration change over HTTP can leave the server with dangling pointers.  The addresses
  the server listens on are pointers into the array of entries.  When the array is full, a POST of
  one new setting that makes the reallocation move the array is answered with success, and the
  next status request reads freed memory.
\<close>

theorem status_after_growth:
  assumes "http_entry e" and "entry_index (e_section e) (e_key e) (entries (h_config h)) = None"
    and "length (entries (h_config h)) = capacity (h_config h)"
    and "h_grow h (capacity (h_config h) * 2 + 8) = Moved" and "config_writable h"
    and "session_addr h = Some (cfg_block (h_config h), i)"
  shows "\<exists>h'. handle_config_request EVHTTP_REQ_POST (array_bytes 1 @ entry_bytes e) True h =
      returns (h', HttpReply HTTP_OK success_body) \<and>
    handle_status_request EVHTTP_REQ_GET [] True h' = Some UB"
proof -
  let ?body = "array_bytes 1 @ entry_bytes e"
  let ?cfg = "(h_config h)\<lparr>capacity := capacity (h_config h) * 2 + 8, cfg_block := cfg_block (h_config h) + 1,
    entries := entries (h_config h) @ [e]\<rparr>"
  have "ya_config_set (h_grow h) (h_config h) (Some (e_section e)) (Some (e_key e)) (Some (e_value e)) = (?cfg, 0)"
    using assms by (cases e) (simp add: ya_config_set_def add_entry_def safe_strncpy_def http_entry_def Let_def)
  moreover have "mpack_read_tag (mpack_reader_init_data ?body) =
      ((mpack_reader_init_data ?body)\<lparr>rdata := entry_bytes e\<rparr>, TagArray 1)"
    by (rule read_tag_array_bytes) (simp_all add: mpack_reader_init_data_def)
  moreover have "read_item ((mpack_reader_init_data ?body)\<lparr>rdata := entry_bytes e\<rparr>) =
      ((mpack_reader_init_data ?body)\<lparr>rdata := []\<rparr>, e_section e, e_key e, e_value e)"
    using read_entry [of "(mpack_reader_init_data ?body)\<lparr>rdata := entry_bytes e\<rparr>" e "[]"] assms(1)
    by (simp add: mpack_reader_init_data_def)
  moreover have "apply_items 1 g r c = (case read_item r of (r', s, k, v) \<Rightarrow>
      (r', fst (ya_config_set g c (Some s) (Some k) (Some v))))" for g r c
    by (simp add: One_nat_def split: prod.split)
  ultimately have "handle_post_config ?body h mpack_writer_init_growable =
      returns (h\<lparr>h_config := ?cfg, config_file := Some (save_entries True [] (entries ?cfg))\<rparr>,
        mpack_writer_init_growable\<lparr>wbuf := success_body\<rparr>)"
    using assms(5) by (simp add: handle_post_config_def ya_config_save_def Let_def success_reply mpack_reader_init_data_def)
  then have post: "handle_config_request EVHTTP_REQ_POST ?body True h =
      returns (h\<lparr>h_config := ?cfg, config_file := Some (save_entries True [] (entries ?cfg))\<rparr>,
        HttpReply HTTP_OK success_body)"
    by (simp add: handle_config_request_def process_request_def)
  have "handle_status_request EVHTTP_REQ_GET [] True
      (h\<lparr>h_config := ?cfg, config_file := Some (save_entries True [] (entries ?cfg))\<rparr>) = Some UB"
    using assms(6)
    by (simp add: handle_status_request_def process_request_def handle_status_def read_addr_def cfg_deref_def Let_def)
  with post show ?thesis by blast
qed

theorem status_after_growth_witness:
  "\<exists>h'. handle_config_request EVHTTP_REQ_POST (array_bytes 1 @ entry_bytes \<lparr>e_section = [97], e_key = [98], e_value = [99]\<rparr>)
      True sample_http = returns (h', HttpReply HTTP_OK success_body) \<and>
    handle_status_request EVHTTP_REQ_GET [] True h' = Some UB"
proof (rule status_after_growth)
  show "http_entry \<lparr>e_section = [97], e_key = [98], e_value = [99]\<rparr>" by code_simp
  show "entry_index (e_section \<lparr>e_section = [97], e_key = [98], e_value = [99]\<rparr>)
      (e_key \<lparr>e_section = [97], e_key = [98], e_value = [99]\<rparr>) (entries (h_config sample_http)) = None"
    by code_simp
qed (simp_all add: sample_http_def)

text \<open>A request that is refused because its items cannot be parsed has been applied all the same.\<close>

lemma rejected_config_applied:
  assumes "length (entries (h_config h)) < capacity (h_config h)" and "entry_index [] [] (entries (h_config h)) = None"
  shows "\<exists>h' w. handle_post_config [0x91] h mpack_writer_init_growable = returns (h', w) \<and>
    w = error_body ''Failed to parse request data.'' mpack_writer_init_growable \<and>
    entries (h_config h') = entries (h_config h) @ [\<lparr>e_section = [], e_key = [], e_value = []\<rparr>]"
proof -
  have t: "mpack_read_tag (mpack_reader_init_data [0x91]) = (\<lparr>rdata = [], rerror = mpack_ok\<rparr>, TagArray 1)"
    by code_simp
  have r: "read_item \<lparr>rdata = [], rerror = mpack_ok\<rparr> = (\<lparr>rdata = [], rerror = mpack_error_invalid\<rparr>, [], [], [])"
    by code_simp
  show ?thesis
    using assms
    by (simp add: handle_post_config_def t numeral_nat r ya_config_set_def add_entry_def safe_strncpy_def)
qed

end
