(* ===== verification/ErrorStack.thy ===== *)
theory ErrorStack
  imports Prelude
begin

text \<open>
  The error records of \<open>ya_error.h\<close> and \<open>ya_error.c\<close>: a context for each thread, made on first
  use, with the last error's code and an array of 64 entries of which the first \<open>stack_size\<close> are
  in use.  The abstract view is the list of the entries in use; it is the last 64 errors set.

  A string is its characters before the NUL; \<open>strncpy\<close> into a field of \<open>n\<close> bytes keeps the first
  \<open>n - 1\<close> of them.  The error's log message is not modelled.
\<close>

type_synonym ya_error_code = int

definition YA_ERROR_STACK_SIZE :: nat where [simp]: "YA_ERROR_STACK_SIZE = 64"
definition YA_ERROR_MSG_SIZE :: nat where [simp]: "YA_ERROR_MSG_SIZE = 256"
definition ERROR_MESSAGE_COUNT :: nat where [simp]: "ERROR_MESSAGE_COUNT = 30"

record ya_error_info =
  err_code :: ya_error_code
  err_message :: string
  err_file :: string
  err_line :: int
  err_function :: string

record ya_error_context =
  err_stack :: "ya_error_info list"
  stack_size :: nat
  last_error :: ya_error_code

text \<open>The codes in the order of their messages.\<close>

definition error_codes :: "ya_error_code list" where
  "error_codes =
     [0, -1, -100, -101, -102, -103, -200, -201, -202, -300, -301, -302, -303, -400, -401, -402,
      -500, -501, -502, -503, -600, -601, -700, -701, -702]"

fun position :: "ya_error_code list \<Rightarrow> ya_error_code \<Rightarrow> nat option" where
  "position [] c = None"
| "position (d # ds) c = (if c = d then Some 0 else map_option Suc (position ds c))"

definition error_code_to_index :: "ya_error_code \<Rightarrow> nat" where
  "error_code_to_index c = (case position error_codes c of Some i \<Rightarrow> i | None \<Rightarrow> ERROR_MESSAGE_COUNT)"

text \<open>The array has 30 elements; those without an initializer are null pointers.\<close>

definition error_messages :: "string option list" where
  "error_messages =
     map Some [''Success'', ''Unknown error'', ''Memory allocation failed'', ''Operation timed out'',
       ''System is busy'', ''Operation interrupted'', ''Invalid configuration'',
       ''Configuration item not found'', ''Configuration type mismatch'', ''Network error'',
       ''Connection error'', ''Socket error'', ''Protocol error'', ''Invalid session'', ''Session expired'',
       ''Session limit exceeded'', ''Invalid command'', ''Invalid command parameters'',
       ''Unsupported command'', ''Command execution failed'', ''Permission denied'',
       ''Authentication failed'', ''Resource is busy'', ''Resource limit exceeded'', ''Resource not found''] @
     replicate 5 None"

definition ya_error_get_message :: "ya_error_code \<Rightarrow> string option" where
  "ya_error_get_message c =
     (let i = error_code_to_index c in
      if ERROR_MESSAGE_COUNT \<le> i then Some ''Invalid error code'' else error_messages ! i)"

section \<open>Operations\<close>

definition blank_error :: ya_error_info where
  "blank_error = \<lparr>err_code = 0, err_message = [], err_file = [], err_line = 0, err_function = []\<rparr>"

text \<open>\<open>alloc\<close> is the success of the allocation, which fills the context with zeros.\<close>

definition ya_error_init :: "bool \<Rightarrow> ya_error_context option \<Rightarrow> ya_error_context option" where
  "ya_error_init alloc ec =
     (case ec of
        Some e \<Rightarrow> Some e
      | None \<Rightarrow>
          if alloc then Some \<lparr>err_stack = replicate YA_ERROR_STACK_SIZE blank_error, stack_size = 0, last_error = 0\<rparr>
          else None)"

definition ya_error_cleanup :: "ya_error_context option \<Rightarrow> ya_error_context option" where
  "ya_error_cleanup ec = None"

definition error_entry ::
  "ya_error_code \<Rightarrow> string option \<Rightarrow> string option \<Rightarrow> int \<Rightarrow> string option \<Rightarrow> ya_error_info" where
  "error_entry c message file line fname =
     \<lparr>err_code = c,
      err_message = take (YA_ERROR_MSG_SIZE - 1) (case message of Some m \<Rightarrow> m | None \<Rightarrow> []),
      err_file = take 255 (case file of Some f \<Rightarrow> f | None \<Rightarrow> []),
      err_line = line,
      err_function = take 63 (case fname of Some f \<Rightarrow> f | None \<Rightarrow> [])\<rparr>"

text \<open>A full array is moved down by one; its last element stays where it was.\<close>

definition make_room :: "ya_error_context \<Rightarrow> ya_error_context" where
  "make_room e =
     (if YA_ERROR_STACK_SIZE \<le> stack_size e
      then e\<lparr>err_stack := take (YA_ERROR_STACK_SIZE - 1) (drop 1 (err_stack e)) @
                            drop (YA_ERROR_STACK_SIZE - 1) (err_stack e),
             stack_size := YA_ERROR_STACK_SIZE - 1\<rparr>
      else e)"

definition ya_error_set ::
  "bool \<Rightarrow> ya_error_code \<Rightarrow> string option \<Rightarrow> string option \<Rightarrow> int \<Rightarrow> string option \<Rightarrow>
     ya_error_context option \<Rightarrow> ya_error_context option" where
  "ya_error_set alloc c message file line fname ec =
     (case ya_error_init alloc ec of
        None \<Rightarrow> None
      | Some e \<Rightarrow>
          let e1 = make_room (e\<lparr>last_error := c\<rparr>)
          in Some (e1\<lparr>err_stack := (err_stack e1)[stack_size e1 := error_entry c message file line fname],
                      stack_size := stack_size e1 + 1\<rparr>))"

definition ya_error_get_last :: "ya_error_context option \<Rightarrow> ya_error_code" where
  "ya_error_get_last ec = (case ec of Some e \<Rightarrow> last_error e | None \<Rightarrow> -1)"

text \<open>The array and the size stored through the pointer, if there is one.\<close>

definition ya_error_get_stack ::
  "ya_error_context option \<Rightarrow> bool \<Rightarrow> ya_error_info list option \<times> nat option" where
  "ya_error_get_stack ec size_ptr =
     (case ec of
        None \<Rightarrow> (None, if size_ptr then Some 0 else None)
      | Some e \<Rightarrow> if \<not> size_ptr then (None, None) else (Some (err_stack e), Some (stack_size e)))"

definition ya_error_clear :: "ya_error_context option \<Rightarrow> ya_error_context option" where
  "ya_error_clear ec = (case ec of Some e \<Rightarrow> Some (e\<lparr>stack_size := 0, last_error := 0\<rparr>) | None \<Rightarrow> None)"

section \<open>Bounded logs\<close>

definition take_last :: "nat \<Rightarrow> 'a list \<Rightarrow> 'a list" where
  "take_last n xs = drop (length xs - n) xs"

lemma take_last_append: "take_last n (take_last n xs @ ys) = take_last n (xs @ ys)"
proof (cases "length xs \<le> n")
  case False
  have "length xs - n + (n + length ys - n) = length xs + length ys - n" using False by simp
  with False show ?thesis by (simp add: take_last_def add.commute)
qed (simp add: take_last_def)

text \<open>The contract of a log that keeps its last entries: one push appends and forgets the oldest.\<close>

locale bounded_log =
  fixes inv :: "'s \<Rightarrow> bool" and view :: "'s \<Rightarrow> 'e list" and push :: "'e \<Rightarrow> 's \<Rightarrow> 's" and capacity :: nat
  assumes push_law: "inv s \<Longrightarrow> inv (push x s) \<and> view (push x s) = take_last capacity (view s @ [x])"
    and view_bounded: "inv s \<Longrightarrow> length (view s) \<le> capacity"
begin

lemma pushes:
  "inv s \<Longrightarrow> inv (fold push xs s) \<and> view (fold push xs s) = take_last capacity (view s @ xs)"
proof (induction xs arbitrary: s)
  case Nil
  with view_bounded show ?case by (simp add: take_last_def)
next
  case (Cons x xs)
  from push_law [OF Cons.prems, of x] Cons.IH [of "push x s"] show ?case
    using take_last_append [of capacity "view s @ [x]" xs] by simp
qed

end

definition errors_inv :: "ya_error_context \<Rightarrow> bool" where
  "errors_inv e \<longleftrightarrow> length (err_stack e) = YA_ERROR_STACK_SIZE \<and> stack_size e \<le> YA_ERROR_STACK_SIZE"

definition errors_view :: "ya_error_context \<Rightarrow> ya_error_info list" where
  "errors_view e = take (stack_size e) (err_stack e)"

text \<open>Setting an error in a context that exists, by the entry it makes.\<close>

definition push_error :: "ya_error_info \<Rightarrow> ya_error_context \<Rightarrow> ya_error_context" where
  "push_error x e =
     (let e1 = make_room (e\<lparr>last_error := err_code x\<rparr>)
      in e1\<lparr>err_stack := (err_stack e1)[stack_size e1 := x], stack_size := stack_size e1 + 1\<rparr>)"

lemma set_pushes:
  "ya_error_set alloc c message file line fname (Some e) = Some (push_error (error_entry c message file line fname) e)"
  by (simp add: ya_error_set_def push_error_def ya_error_init_def error_entry_def Let_def)

lemma take_update_Suc: "n < length xs \<Longrightarrow> take (Suc n) (xs[n := x]) = take n xs @ [x]"
  by (simp add: take_Suc_conv_app_nth)

lemma push_error_law:
  assumes "errors_inv e"
  shows "errors_inv (push_error x e) \<and> errors_view (push_error x e) = take_last 64 (errors_view e @ [x]) \<and>
    last_error (push_error x e) = err_code x"
proof (cases "stack_size e = 64")
  case True
  have "length (drop 63 (err_stack e)) = Suc 0" "take 63 (drop 1 (err_stack e)) = drop 1 (err_stack e)"
    using assms by (simp_all add: errors_inv_def)
  moreover from this(1) obtain z where "drop 63 (err_stack e) = [z]"
    by (auto simp: length_Suc_conv simp del: length_drop)
  ultimately show ?thesis using True assms
    by (simp add: errors_inv_def errors_view_def push_error_def make_room_def take_last_def Let_def
        take_update_Suc list_update_append)
next
  case False
  with assms have "stack_size e < 64" by (simp add: errors_inv_def)
  with assms show ?thesis
    by (simp add: errors_inv_def errors_view_def push_error_def make_room_def take_last_def Let_def take_update_Suc)
qed

interpretation error_log: bounded_log errors_inv errors_view push_error 64
  by unfold_locales (use push_error_law in \<open>auto simp: errors_inv_def errors_view_def\<close>)

section \<open>Properties\<close>

text \<open>What one call of \<open>ya_error_set\<close> is given.\<close>

type_synonym error_report = "ya_error_code \<times> string option \<times> string option \<times> int \<times> string option"

definition report_entry :: "error_report \<Rightarrow> ya_error_info" where
  "report_entry = (\<lambda>(c, message, file, line, fname). error_entry c message file line fname)"

definition report :: "error_report \<Rightarrow> ya_error_context option \<Rightarrow> ya_error_context option" where
  "report = (\<lambda>(c, message, file, line, fname). ya_error_set True c message file line fname)"

lemma report_pushes: "report r (Some e) = Some (push_error (report_entry r) e)"
  by (cases r) (simp add: report_def report_entry_def set_pushes)

lemma reports_push: "fold report rs (Some e) = Some (fold push_error (map report_entry rs) e)"
  by (induction rs arbitrary: e) (simp_all add: report_pushes)

lemma last_error_pushes: "xs \<noteq> [] \<Longrightarrow> last_error (fold push_error xs e) = err_code (last xs)"
  by (induction xs rule: rev_induct) (auto simp: push_error_def make_room_def Let_def)

text \<open>C30.
  The error records refine a list.  After any errors set since the thread started or the records
  were cleared, what \<open>ya_error_get_stack\<close> gives are exactly the entries of the last 64 of them
  in order, in an array whose bounds were kept, and \<open>ya_error_get_last\<close> is the code of the last
  one.
\<close>

theorem error_records_are_last_64:
  assumes "ec = None \<or> (\<exists>e. errors_inv e \<and> ec = ya_error_clear (Some e))" and "rs \<noteq> []"
  shows "\<exists>entries n. ya_error_get_stack (fold report rs ec) True = (Some entries, Some n) \<and>
    length entries = 64 \<and> n \<le> 64 \<and> take n entries = take_last 64 (map report_entry rs) \<and>
    ya_error_get_last (fold report rs ec) = fst (last rs)"
proof -
  obtain r rest where rs: "rs = r # rest" using assms(2) by (cases rs) auto
  have "\<exists>e. errors_inv e \<and> errors_view e = [] \<and> fold report rs ec = fold report rs (Some e)"
  proof (cases ec)
    case None
    let ?e = "the (ya_error_init True None)"
    have "report r None = report r (Some ?e)"
      by (cases r) (simp add: report_def ya_error_set_def ya_error_init_def)
    moreover have "errors_inv ?e" "errors_view ?e = []"
      by (simp_all add: ya_error_init_def errors_inv_def errors_view_def)
    ultimately show ?thesis using None rs by auto
  next
    case (Some e)
    with assms(1) show ?thesis
      by (intro exI [of _ "the ec"]) (auto simp: ya_error_clear_def errors_inv_def errors_view_def)
  qed
  then obtain e where e: "errors_inv e" "errors_view e = []"
    "fold report rs ec = Some (fold push_error (map report_entry rs) e)" by (auto simp: reports_push)
  let ?e = "fold push_error (map report_entry rs) e"
  from error_log.pushes [OF e(1), of "map report_entry rs"] e(2) have
    "errors_inv ?e" "errors_view ?e = take_last 64 (map report_entry rs)" by simp_all
  moreover have "last_error ?e = fst (last rs)"
    using last_error_pushes [of "map report_entry rs" e] assms(2)
    by (cases "last rs") (simp add: last_map report_entry_def error_entry_def)
  ultimately show ?thesis
    by (simp add: e(3) ya_error_get_stack_def ya_error_get_last_def errors_inv_def errors_view_def)
qed

theorem error_records_are_last_64_witness:
  "\<exists>entries. ya_error_get_stack (fold report [(- 300, Some ''down'', None, 7, None)] None) True = (Some entries, Some 1)"
proof -
  let ?rs = "[(- 300, Some ''down'', None, 7, None)] :: error_report list"
  obtain entries n where 1: "ya_error_get_stack (fold report ?rs None) True = (Some entries, Some n)"
    "length entries = 64" "n \<le> 64" "take n entries = take_last 64 (map report_entry ?rs)"
    using error_records_are_last_64 [of None ?rs] by auto
  have "length (take n entries) = 1" using 1(4) by (simp add: take_last_def)
  with 1(2,3) have "n = 1" by simp
  with 1(1) show ?thesis by blast
qed

text \<open>
  Error messages are total: the 25 codes have messages of their own, different from each other,
  and every other number has the text for an invalid code.  The null pointers at the end of the
  array, which is longer than its initializer, are never returned.
\<close>

theorem error_messages_total:
  "distinct (map ya_error_get_message error_codes) \<and> (\<forall>c. ya_error_get_message c \<noteq> None) \<and>
   {c. ya_error_get_message c \<noteq> Some ''Invalid error code''} = set error_codes"
proof (intro conjI allI)
  show "distinct (map ya_error_get_message error_codes)" by code_simp
  have pos: "(position ds c = None \<longleftrightarrow> c \<notin> set ds) \<and> (\<forall>i. position ds c = Some i \<longrightarrow> i < length ds)" for ds c
    by (induction ds) (auto split: if_splits)
  have len: "length error_codes = 25" by (simp add: error_codes_def)
  have "list_all (\<lambda>i. error_messages ! i \<noteq> None) [0..<25]" by code_simp
  then have msg: "error_messages ! i \<noteq> None" if "i < 25" for i
    using that by (simp add: list_all_iff)
  show "ya_error_get_message c \<noteq> None" for c
    using pos [of error_codes c] len msg
    by (auto simp: ya_error_get_message_def error_code_to_index_def Let_def split: option.splits)
  have "list_all (\<lambda>c. ya_error_get_message c \<noteq> Some ''Invalid error code'') error_codes" by code_simp
  moreover have "ya_error_get_message c = Some ''Invalid error code''" if "c \<notin> set error_codes" for c
    using pos [of error_codes c] that by (simp add: ya_error_get_message_def error_code_to_index_def Let_def)
  ultimately show "{c. ya_error_get_message c \<noteq> Some ''Invalid error code''} = set error_codes"
    by (auto simp: list_all_iff)
qed

end
