(* ===== verification/EndToEnd.thy ===== *)
theory EndToEnd
  imports Session
begin

text \<open>
  The servers together: what a phone that connects, authorizes itself and sends commands obtains,
  and what one obtains that does neither.  The steps are the callbacks of \<open>Session\<close>.
\<close>

section \<open>A new connection\<close>

text \<open>A failed search by descriptor means that no active client has it.\<close>

lemma find_by_fd_none:
  assumes "clients_inv (M, H)" and "ya_client_find_by_fd (M, H) fd = returns None" and "0 \<le> sint fd"
    and "cells H a = Some c" and "c_state c = YA_CLIENT_ACTIVE"
  shows "c_fd c \<noteq> fd"
proof -
  obtain xs where t: "client_table (M, H) xs" using assms(1) by (auto simp: clients_inv_def)
  have "a \<in> set (concat (map xs [0..<251]))" using table_lists(3) [OF t] assms(4) by blast
  moreover have "find_fd_buckets (cells H) fd (buckets M) = returns None"
    using assms(2,3) by (simp add: ya_client_find_by_fd_def)
  with find_fd_list [OF table_lists(1) [OF t], of fd] have
    "\<forall>a \<in> set (concat (map xs [0..<251])). \<not> (c_fd (the (cells H a)) = fd \<and> c_state (the (cells H a)) = YA_CLIENT_ACTIVE)"
    by simp
  ultimately show ?thesis using assms(4,5) by force
qed

definition new_uid :: "clients \<Rightarrow> u32" where
  "new_uid S = (if next_uid (fst S) = 0 then 1 else next_uid (fst S))"

text \<open>
  After a connection is accepted, its client is the one found by its number and by its
  descriptor, provided no active client had them.
\<close>

lemma accepted:
  assumes inv: "clients_inv (svr_clients (srv w))" and fresh: "client_cells w a = None" and fd: "0 \<le> sint fd"
    and uid: "ya_client_find_by_uid (svr_clients (srv w)) (new_uid (svr_clients (srv w))) = returns None"
    and no_fd: "ya_client_find_by_fd (svr_clients (srv w)) fd = returns None"
    and w1: "w1 = accept_cb fresh_in (Some b) (Some a) filter_ok now fd w"
  shows "\<exists>c. client_at (srv w1) a = returns c \<and> c_state c = YA_CLIENT_ACTIVE \<and> c_ref_count c = 1 \<and>
      c_uid c = new_uid (svr_clients (srv w)) \<and> c_command_index c = 0 \<and>
      clients_inv (svr_clients (srv w1)) \<and>
      (\<forall>a' c'. client_cells w1 a' = Some c' \<longrightarrow> c_state c' = YA_CLIENT_ACTIVE \<longrightarrow>
         (c_uid c' = c_uid c \<or> c_fd c' = fd) \<longleftrightarrow> a' = a) \<and>
      c_fd c = fd \<and> user_data w1 b = Some a \<and> outbuf w1 b = [] \<and> sent w1 = sent w \<and>
      srv w1 = (srv w)\<lparr>bev_fd := (bev_fd (srv w))(b := fd), svr_clients := svr_clients (srv w1)\<rparr>"
proof -
  obtain M H where MH: "svr_clients (srv w) = (M, H)" by fastforce
  obtain M' H' c where r: "ya_client_create (Some a) filter_ok now (M, H) fd (Some b) = ((M', H'), Some a)"
      "c_state c = YA_CLIENT_ACTIVE" "c_ref_count c = 1" "c_fd c = fd"
      "c_uid c = new_uid (M, H)" "H' = H\<lparr>cells := (cells H)(a \<mapsto> c)\<rparr>"
    using create_result [of "Some b" fd a filter_ok now M H] fd by (auto simp: new_uid_def)
  have "c_command_index (the (cells (snd (fst (ya_client_create (Some a) filter_ok now (M, H) fd (Some b)))) a)) = 0"
    using fd by (simp add: ya_client_create_def Let_def)
  then have idx: "c_command_index c = 0" using r(6) by (simp add: r(1))
  have w': "svr_clients (srv w1) = (M', H')" "user_data w1 b = Some a" "outbuf w1 b = []"
      "sent w1 = sent w" "srv w1 = (srv w)\<lparr>bev_fd := (bev_fd (srv w))(b := fd), svr_clients := (M', H')\<rparr>"
    using MH r(1) by (simp_all add: w1 accept_cb_def Let_def)
  have "clients_inv (M, H)" "cells H a = None" using inv fresh MH by simp_all
  from create_inv [OF this, of filter_ok now fd "Some b"] r(1) have inv': "clients_inv (M', H')" by simp
  have old: "c_uid c' \<noteq> c_uid c \<and> c_fd c' \<noteq> fd"
    if "cells H a' = Some c'" "c_state c' = YA_CLIENT_ACTIVE" for a' c'
    using find_by_uid_returns [of M H "new_uid (M, H)"] inv uid that r(5) MH
      find_by_fd_none [of M H fd a' c'] no_fd fd by auto
  show ?thesis
    using w' r idx inv' old fresh MH by (intro exI [of _ c]) (auto simp: client_at_def)
qed

section \<open>Authorization\<close>

lemma complete_frame:
  assumes laws: "evbuffer_laws ev bytes" and data: "bytes buf = frame h body @ rest"
    and short: "length (frame h body) + length rest < 2 ^ 31"
  shows "package_complete ev buf"
proof -
  have "totalSize (ya_get_package_size ev buf) = word_of_nat (length (header_bytes h) + length body + 4)"
    using package_size_frame [OF laws, of buf] data by (simp add: frame_def)
  then have "totalSize (ya_get_package_size ev buf) + 4 = word_of_nat (length (frame h body))"
    by (simp add: length_frame)
  moreover have "ev_length ev buf = length (frame h body) + length rest"
    using laws data by (simp add: evbuffer_laws_def)
  ultimately show ?thesis
    using short by (simp add: package_complete_def u32_less_iff unat_of_nat take_bit_nat_eq_self flip: of_nat_add)
qed

definition authorize_body :: "YAAuthorizeEventRequest \<Rightarrow> u8 list" where
  "authorize_body req = array_bytes 2 @ u32_bytes (client_type req) @ u32_bytes (version req)"

text \<open>The package of an authorization request, as a phone makes it.\<close>

definition authorize_package :: "u32 \<Rightarrow> YAAuthorizeEventRequest \<Rightarrow> u8 list" where
  "authorize_package i req =
     frame \<lparr>h_type = AUTHORIZE, direction = REQUEST, index = i, uid = 0\<rparr> (authorize_body req)"

lemma authorize_body_parsed: "parse_authorize_request (authorize_body req) = Defined (Some (AuthorizeReq req))"
  by (cases req) (simp add: authorize_body_def parse_authorize_request_def mpack_reader_init_data_def Let_def)

lemma length_authorize_body: "length (authorize_body req) \<le> 15" "authorize_body req \<noteq> []"
  using length_array_bytes [of 2] length_u32_bytes(1) [of "client_type req"] length_u32_bytes(1) [of "version req"]
  by (simp_all add: authorize_body_def)

lemma authorize_parsed:
  assumes laws: "evbuffer_laws ev bytes" and data: "bytes buf = authorize_package i req @ rest" and i: "i \<le> 0x7FFFFFFF"
  shows "\<exists>buf'. ya_parse_event ev oom (ev_drain ev buf 8) e (ya_get_package_size ev buf) =
      Defined (buf', Some \<lparr>header = \<lparr>h_type = AUTHORIZE, direction = REQUEST, index = i, uid = 0\<rparr>,
                           param = Some (AuthorizeReq req)\<rparr>) \<and> bytes buf' = rest"
proof -
  let ?h = "\<lparr>h_type = AUTHORIZE, direction = REQUEST, index = i, uid = 0\<rparr>"
  have len: "length (frame ?h (authorize_body req)) < 2 ^ 31"
    using length_header_bytes(1) [of ?h] length_authorize_body(1) [of req] by (simp add: length_frame)
  have "wire_header ?h" by (simp add: wire_header_def)
  from parse_frame [OF laws _ this _ _ length_authorize_body(2) len, of buf rest oom parse_authorize_request
      "AuthorizeReq req" e] data i authorize_body_parsed show ?thesis
    by (cases e) (simp add: authorize_package_def get_parser_def)
qed

text \<open>What the server answers to the client \<open>c\<close>.\<close>

definition admission :: "server \<Rightarrow> ya_client \<Rightarrow> u32 \<Rightarrow> u32 \<Rightarrow> YAEvent" where
  "admission s c i v =
     \<lparr>header = \<lparr>h_type = AUTHORIZE, direction = RESPONSE, index = i, uid = 0\<rparr>,
      param = Some (AuthorizeResp \<lparr>success = True, os_type = 3, r_uid = c_uid c,
        session_port = ntohs (session_sin_port s), command_port = ntohs (command_sin_port s),
        macs = Some (case macs_csv s of Some m \<Rightarrow> cstr m | None \<Rightarrow> []), display_scale = primary_scale s,
        client_version = v\<rparr>)\<rparr>"

definition authorized :: "nat \<Rightarrow> u32 \<Rightarrow> ya_client \<Rightarrow> ya_client" where
  "authorized b v c = c\<lparr>c_bev := Some b, c_protocol_version := v,
     c_mouse_filter := map_option (\<lambda>f. ya_mouse_filter_set_algorithms_enabled f True) (c_mouse_filter c)\<rparr>"

lemma length_cstr: "length (cstr m) \<le> length m"
  by (simp add: cstr_def length_takeWhile_le)

lemma admission_serialized:
  assumes "\<forall>m. macs_csv s = Some m \<longrightarrow> length m \<le> 2 ^ 20"
  shows "\<exists>rsp. ya_serialize_event (admission s c i v) = Defined rsp"
proof -
  let ?m = "cstr (case macs_csv s of Some m \<Rightarrow> cstr m | None \<Rightarrow> [])"
  obtain body where body: "serialize_authorize_response (param (admission s c i v)) mpack_writer_init_growable =
      Defined (mpack_writer_init_growable\<lparr>wbuf := body\<rparr>)" "length body \<le> 2 ^ 20 + 100"
  proof -
    have m: "length ?m \<le> 2 ^ 20"
    proof (cases "macs_csv s")
      case (Some m)
      then have "length (cstr (cstr m)) \<le> 2 ^ 20"
        using length_cstr [of "cstr m"] length_cstr [of m] assms by fastforce
      then show ?thesis using Some by simp
    qed (simp add: cstr_def)
    define fields where "fields = 0xc3 # u32_bytes 3 @ u32_bytes (c_uid c) @
      u32_bytes (ucast (ntohs (session_sin_port s))) @ u32_bytes (ucast (ntohs (command_sin_port s))) @
      str_bytes ?m @ mpack_encode_float (primary_scale s)"
    have "length (str_bytes ?m) \<le> length ?m + 5" by (rule length_str_bytes)
    then have len: "length fields \<le> 2 ^ 20 + 90"
      using m length_u32_bytes(1) [of "c_uid c"] length_u32_bytes(1) [of 3]
        length_u32_bytes(1) [of "ucast (ntohs (session_sin_port s))"]
        length_u32_bytes(1) [of "ucast (ntohs (command_sin_port s))"]
      by (simp add: fields_def mpack_encode_float_def length_store)
    show thesis
    proof (rule that [of "if 2 \<le> v then 0x98 # fields @ u32_bytes YA_PROTOCOL_VERSION else 0x97 # fields"])
      show "serialize_authorize_response (param (admission s c i v)) mpack_writer_init_growable =
          Defined (mpack_writer_init_growable\<lparr>wbuf := if 2 \<le> v then 0x98 # fields @ u32_bytes YA_PROTOCOL_VERSION
            else 0x97 # fields\<rparr>)"
        by (simp add: admission_def fields_def Let_def growable_writes mpack_write_bool_def mpack_write_float_def
            mpack_write_native_growable array_bytes_eq)
      show "length (if 2 \<le> v then 0x98 # fields @ u32_bytes YA_PROTOCOL_VERSION else 0x97 # fields) \<le> 2 ^ 20 + 100"
        using len length_u32_bytes(1) [of YA_PROTOCOL_VERSION] by simp
    qed
  qed
  have "get_serializer AUTHORIZE RESPONSE = Some serialize_authorize_response"
    by (simp add: get_serializer_def)
  moreover have "length (frame (header (admission s c i v)) body) < 2 ^ 31"
    using body(2) length_header_bytes(1) [of "header (admission s c i v)"] by (simp add: length_frame)
  ultimately show ?thesis
    using serialize_frame [of "admission s c i v" serialize_authorize_response body] body(1)
    by (auto simp: admission_def)
qed

text \<open>A client that is the only active one with a descriptor or a number is the one found.\<close>

lemma found_by_fd:
  assumes inv: "clients_inv (M, H)" and c: "cells H a = Some c" "c_state c = YA_CLIENT_ACTIVE" "0 \<le> sint (c_fd c)"
    and only: "\<And>a' c'. cells H a' = Some c' \<Longrightarrow> c_state c' = YA_CLIENT_ACTIVE \<Longrightarrow> c_fd c' = c_fd c \<Longrightarrow> a' = a"
  shows "ya_client_find_by_fd (M, H) (c_fd c) = returns (Some a)"
proof -
  obtain r where r: "ya_client_find_by_fd (M, H) (c_fd c) = returns r"
      "\<And>a'. r = Some a' \<Longrightarrow> \<exists>c'. cells H a' = Some c' \<and> c_fd c' = c_fd c \<and> c_state c' = YA_CLIENT_ACTIVE"
    using find_by_fd_returns [OF inv, of "c_fd c"] by blast
  moreover have "r \<noteq> None" using r(1) find_by_fd_none [OF inv _ c(3,1,2)] by auto
  ultimately show ?thesis using only by blast
qed

lemma found_by_uid:
  assumes inv: "clients_inv (M, H)" and c: "cells H a = Some c" "c_state c = YA_CLIENT_ACTIVE"
    and only: "\<And>a' c'. cells H a' = Some c' \<Longrightarrow> c_state c' = YA_CLIENT_ACTIVE \<Longrightarrow> c_uid c' = c_uid c \<Longrightarrow> a' = a"
  shows "ya_client_find_by_uid (M, H) (c_uid c) = returns (Some a)"
proof -
  obtain r where r: "ya_client_find_by_uid (M, H) (c_uid c) = returns r"
      "case r of Some a' \<Rightarrow> \<exists>c'. cells H a' = Some c' \<and> c_uid c' = c_uid c \<and> c_state c' = YA_CLIENT_ACTIVE
       | None \<Rightarrow> \<forall>a' c'. cells H a' = Some c' \<longrightarrow> c_uid c' = c_uid c \<longrightarrow> c_state c' \<noteq> YA_CLIENT_ACTIVE"
    using find_by_uid_returns [OF inv, of "c_uid c"] by blast
  show ?thesis
  proof (cases r)
    case None
    with r(2) c show ?thesis by simp
  next
    case (Some a')
    with r(2) only have "a' = a" by auto
    with Some r(1) show ?thesis by simp
  qed
qed

lemma authorize_handled:
  assumes req: "1 \<le> version req" "client_type req \<in> {1, 2}" and "malloc_ok s" and MH: "svr_clients s = (M, H)"
    and "ya_client_find_by_fd (M, H) (bev_fd s b) = returns (Some a)" and "cells H a = Some c"
    and h: "h = \<lparr>h_type = AUTHORIZE, direction = REQUEST, index = i, uid = 0\<rparr>"
  shows "handle_authorize (Some b) \<lparr>header = h, param = Some (AuthorizeReq req)\<rparr> s =
    returns (s\<lparr>authorize_error := None,
               svr_clients := (M, H\<lparr>cells := (cells H)(a \<mapsto> authorized b (version req) c)\<rparr>)\<rparr>,
             Some (admission s c i (version req)))"
proof -
  have "\<not> version req < 1" using req(1) by (simp only: not_less)
  then have "authorize (Some req) = (True, None)" using req(2) by (auto simp: authorize_def)
  then show ?thesis
    using assms by (simp add: handle_authorize_def assign_response_def h MH client_at_def modify_client_def
        authorized_def admission_def Let_def)
qed

lemma authorize_reply:
  assumes "\<forall>m. macs_csv s = Some m \<longrightarrow> length m \<le> 2 ^ 20"
  shows "\<exists>rsp. ya_serialize_event (admission s c i v) = Defined rsp \<and> reply (Some (admission s c i v)) = returns (Some rsp)"
  using admission_serialized [OF assms, of c i v] by (auto simp: reply_def admission_def ya_free_event_param_def Let_def)

text \<open>
  One callback on a connection whose buffer starts with an authorization request: the client is
  recorded, the answer appended to the output, and the input devices are left alone.
\<close>

lemma authorization_processed:
  assumes laws: "evbuffer_laws ev bytes" and i: "i \<le> 0x7FFFFFFF"
    and req: "1 \<le> version req" "client_type req \<in> {1, 2}"
    and MH: "svr_clients (srv w) = (M, H)" and inv: "clients_inv (M, H)"
    and c: "cells H a = Some c" "c_state c = YA_CLIENT_ACTIVE" "c_ref_count c = 1" "0 \<le> sint (c_fd c)"
    and only: "\<And>a' c'. cells H a' = Some c' \<Longrightarrow> c_state c' = YA_CLIENT_ACTIVE \<Longrightarrow> c_fd c' = c_fd c \<Longrightarrow> a' = a"
    and fd: "bev_fd (srv w) b = c_fd c" and mem: "malloc_ok (srv w)"
    and macs: "\<forall>m. macs_csv (srv w) = Some m \<longrightarrow> length m \<le> 2 ^ 20"
    and data: "bytes (inbuf w b) = authorize_package i req @ rest" "length (bytes (inbuf w b)) < 2 ^ 31"
  shows "\<exists>w' rsp H'. conn_readcb ev oom b (Some a) w = returns w'
    \<and> ya_serialize_event (admission (srv w) c i (version req)) = Defined rsp
    \<and> outbuf w' b = outbuf w b @ rsp \<and> bytes (inbuf w' b) = rest
    \<and> clients_inv (M, H') \<and> cells H' = (cells H)(a \<mapsto> authorized b (version req) c)
    \<and> srv w' = (srv w)\<lparr>authorize_error := None, svr_clients := (M, H')\<rparr> \<and> sent w' = sent w"
proof -
  let ?h = "\<lparr>h_type = AUTHORIZE, direction = REQUEST, index = i, uid = 0\<rparr>"
  let ?e = "\<lparr>header = ?h, param = Some (AuthorizeReq req)\<rparr>"
  obtain xs where t: "client_table (M, H) xs" using inv by (auto simp: clients_inv_def)
  let ?c1 = "c\<lparr>c_ref_count := c_ref_count c + 1\<rparr>" and ?v = "version req"
  let ?H1 = "H\<lparr>cells := (cells H)(a \<mapsto> ?c1)\<rparr>"
  note ref = ref_effect [OF t c(1)]
  have inv1: "clients_inv (M, ?H1)" using ref(2) by (auto simp: clients_inv_def)
  let ?s1 = "(srv w)\<lparr>svr_clients := (M, ?H1)\<rparr>"
  have find: "ya_client_find_by_fd (M, ?H1) (bev_fd ?s1 b) = returns (Some a)"
    using found_by_fd [OF inv1, of a ?c1] c(2,4) only fd by (auto split: if_splits)
  let ?H2 = "?H1\<lparr>cells := (cells ?H1)(a \<mapsto> authorized b ?v ?c1)\<rparr>"
  let ?s2 = "?s1\<lparr>authorize_error := None, svr_clients := (M, ?H2)\<rparr>"
  have "admission ?s1 ?c1 i ?v = admission (srv w) c i ?v" by (simp add: admission_def)
  then have "handle_authorize (Some b) ?e ?s1 = returns (?s2, Some (admission (srv w) c i ?v))"
    using authorize_handled [OF req _ _ find _ refl, of ?c1 i] mem by simp
  then have process: "process_server_event (Some b) ?e (Some a) ?s1 = returns (?s2, Some (admission (srv w) c i ?v))"
    by (simp add: process_server_event_def find_event_handler_def event_handlers_def need_command_index_check_def)
  have t2: "client_table (M, ?H2) xs"
    using table_update [OF ref(2), of a ?c1 "authorized b ?v ?c1"] by (simp add: authorized_def)
  let ?c2 = "authorized b ?v ?c1"
  have given: "?c2\<lparr>c_ref_count := c_ref_count ?c2 - 1\<rparr> = authorized b ?v c"
    using c(3) by (cases c) (simp add: authorized_def)
  have two: "c_ref_count ?c2 = 2" using c(3) by (simp add: authorized_def)
  have "cells ?H2 a = Some ?c2" by simp
  moreover have "\<not> (c_ref_count ?c2 = 1 \<and> c_state ?c2 = YA_CLIENT_DISCONNECTED)" using two by simp
  ultimately have "ya_client_unref (M, ?H2) (Some a) = returns (M, ?H2\<lparr>cells := (cells ?H2)(a \<mapsto> authorized b ?v c)\<rparr>)"
    and t3: "client_table (M, ?H2\<lparr>cells := (cells ?H2)(a \<mapsto> authorized b ?v c)\<rparr>) xs"
    using unref_keep [OF t2, of a ?c2] two given by auto
  note unref = this(1)
  obtain rsp where rsp: "ya_serialize_event (admission (srv w) c i ?v) = Defined rsp"
      "reply (Some (admission (srv w) c i ?v)) = returns (Some rsp)"
    using authorize_reply [OF macs] by blast
  obtain buf' where p: "ya_parse_event ev oom (ev_drain ev (inbuf w b) 8) no_event
      (ya_get_package_size ev (inbuf w b)) = Defined (buf', Some ?e)" "bytes buf' = rest"
    using authorize_parsed [OF laws data(1) i] by blast
  have "package_complete ev (inbuf w b)"
    using complete_frame [OF laws, of "inbuf w b"] data by (simp add: authorize_package_def)
  then have "conn_readcb ev oom b (Some a) w = returns (w\<lparr>inbuf := (inbuf w)(b := buf'),
      srv := ?s2\<lparr>svr_clients := (M, ?H2\<lparr>cells := (cells ?H2)(a \<mapsto> authorized b ?v c)\<rparr>)\<rparr>,
      outbuf := (outbuf w)(b := outbuf w b @ rsp)\<rparr>)"
    using p(1) c(1,2) MH ref(1) process rsp(2) unref by (simp add: conn_readcb_def client_at_def Let_def)
  then show ?thesis
    using rsp(1) p(2) t3 by (auto simp: clients_inv_def intro!: exI [of _ rsp])
qed

section \<open>Clicks\<close>

abbreviation click :: "u32 \<Rightarrow> u32 \<Rightarrow> u32 \<Rightarrow> YAEvent" where
  "click u k l \<equiv> \<lparr>header = \<lparr>h_type = MOUSE_CLICK, direction = REQUEST, index = k, uid = u\<rparr>,
                   param = Some (CommonReq \<lparr>lparam = l, rparam = 2\<rparr>)\<rparr>"

definition click_log :: "u32 \<Rightarrow> input_event list" where
  "click_log l = map event_of [(EV_KEY, button_to_linux_code l, 1), syn_event,
     (EV_KEY, button_to_linux_code l, 0), syn_event]"

lemma clients_logged [simp]: "svr_clients (logged es s) = svr_clients s"
  by (simp add: logged_def)

text \<open>Datagrams that arrive one after the other.\<close>

fun datagrams :: "'b evbuffer_api \<Rightarrow> (u8 list \<Rightarrow> 'b) \<Rightarrow> bool \<Rightarrow> (nat \<times> u8 list) list \<Rightarrow> 'b net \<Rightarrow> 'b net run" where
  "datagrams ev mk oom [] w = returns w"
| "datagrams ev mk oom (d # ds) w = run_bind (udp_readcb ev mk oom (Some d) w) (datagrams ev mk oom ds)"

lemma click_carried:
  assumes "evbuffer_laws ev bytes" and "ya_serialize_event (click u k l) = Defined pkg"
    and "u \<le> 0x7FFFFFFF" and "k \<le> 0x7FFFFFFF"
  shows "carried ev bytes oom (click u k l) pkg \<and> length pkg \<le> 2048"
proof -
  from common_carried [OF assms(1), of "header (click u k l)" oom "\<lparr>lparam = l, rparam = 2\<rparr>"] assms(3,4)
  obtain pkg' where "carried ev bytes oom (click u k l) pkg'" "length pkg' \<le> 2048" by auto
  with assms(2) show ?thesis by (auto simp: carried_def)
qed

lemma click_received:
  assumes laws: "evbuffer_laws ev bytes" and mk: "\<And>data. bytes (mk data) = data"
    and ids: "u \<le> 0x7FFFFFFF" "k \<le> 0x7FFFFFFF" and pkg: "ya_serialize_event (click u k l) = Defined pkg"
    and client: "ya_client_find_by_uid (svr_clients (srv w)) u = returns client"
    and process: "process_server_event None (click u k l) client (srv w) = returns (s, None)"
  shows "udp_readcb ev mk oom (Some (addr, pkg)) w = returns (w\<lparr>srv := s\<rparr>)"
proof -
  note c = click_carried [OF laws pkg ids, of oom]
  have "udp_readcb ev mk oom (Some (addr, pkg)) w =
    run_bind (ya_client_find_by_uid (svr_clients (srv w)) (uid (header (click u k l)))) (\<lambda>client.
    run_bind (process_server_event None (click u k l) client (srv w)) (\<lambda>(s1, response).
    run_bind (reply response) (\<lambda>rsp.
      returns (w\<lparr>srv := s1, sent := sent w @ (case rsp of None \<Rightarrow> [] | Some bs \<Rightarrow> [(addr, bs)])\<rparr>))))"
    by (rule udp_carried [where mk = mk and bytes = bytes, OF laws mk]) (use c in blast)+
  also have "\<dots> = returns (w\<lparr>srv := s, sent := sent w\<rparr>)"
    using client process by (simp add: reply_def)
  finally show ?thesis by simp
qed

text \<open>The same command again does nothing.\<close>

lemma old_click_ignored:
  assumes laws: "evbuffer_laws ev bytes" and mk: "\<And>data. bytes (mk data) = data"
    and ids: "u \<le> 0x7FFFFFFF" "k \<le> 0x7FFFFFFF" and pkg: "ya_serialize_event (click u k l) = Defined pkg"
    and client: "ya_client_find_by_uid (svr_clients (srv w)) u = returns (Some a)"
      "client_at (srv w) a = returns c" "k \<le> c_command_index c"
  shows "udp_readcb ev mk oom (Some (addr, pkg)) w = returns w"
proof -
  have "process_server_event None (click u k l) (Some a) (srv w) = returns (srv w, None)"
    using client(2,3) by (simp add: process_server_event_def find_event_handler_def event_handlers_def
        need_command_index_check_def)
  from click_received [where mk = mk and bytes = bytes, OF laws mk ids pkg client(1) this] show ?thesis by simp
qed

text \<open>A click under a number no client has is carried out without any check.\<close>

lemma anonymous_click:
  assumes laws: "evbuffer_laws ev bytes" and mk: "\<And>data. bytes (mk data) = data"
    and ids: "u \<le> 0x7FFFFFFF" "k \<le> 0x7FFFFFFF" and pkg: "ya_serialize_event (click u k l) = Defined pkg"
    and nobody: "ya_client_find_by_uid (svr_clients (srv w)) u = returns None"
    and dev: "writable (srv w)" "l \<in> {0, 1, 2}"
  shows "\<exists>w'. udp_readcb ev mk oom (Some (addr, pkg)) w = returns w' \<and>
    ev_log (srv w') = ev_log (srv w) @ click_log l \<and> svr_clients (srv w') = svr_clients (srv w) \<and>
    writable (srv w') \<and> sent w' = sent w"
proof -
  have "process_server_event None (click u k l) None (srv w) = handle_mouse_click None (click u k l) (srv w)"
    by (simp add: process_server_event_def find_event_handler_def event_handlers_def)
  also note button_click [OF dev]
  finally have "process_server_event None (click u k l) None (srv w) = returns (logged
      [(EV_KEY, button_to_linux_code l, 1), syn_event, (EV_KEY, button_to_linux_code l, 0), syn_event] (srv w), None)" .
  note click_received [where mk = mk and bytes = bytes, OF laws mk ids pkg nobody this]
  then show ?thesis using writable_logged [OF dev(1)] by (simp add: click_log_def)
qed

text \<open>A command of a client that is the only active one with its number, with a new sequence number.\<close>

lemma new_click:
  assumes laws: "evbuffer_laws ev bytes" and mk: "\<And>data. bytes (mk data) = data"
    and ids: "c_uid c \<le> 0x7FFFFFFF" "k \<le> 0x7FFFFFFF" and pkg: "ya_serialize_event (click (c_uid c) k l) = Defined pkg"
    and MH: "svr_clients (srv w) = (M, H)" and inv: "clients_inv (M, H)"
    and c: "cells H a = Some c" "c_state c = YA_CLIENT_ACTIVE" "c_command_index c < k"
    and only: "\<And>a' c'. cells H a' = Some c' \<Longrightarrow> c_state c' = YA_CLIENT_ACTIVE \<Longrightarrow> c_uid c' = c_uid c \<Longrightarrow> a' = a"
    and dev: "writable (srv w)" "l \<in> {0, 1, 2}"
  shows "\<exists>w' H'. udp_readcb ev mk oom (Some (addr, pkg)) w = returns w' \<and>
    ev_log (srv w') = ev_log (srv w) @ click_log l \<and> sent w' = sent w \<and> svr_clients (srv w') = (M, H') \<and>
    clients_inv (M, H') \<and> cells H' = (cells H)(a \<mapsto> c\<lparr>c_command_index := k\<rparr>)"
proof -
  let ?H = "H\<lparr>cells := (cells H)(a \<mapsto> c\<lparr>c_command_index := k\<rparr>)\<rparr>"
  let ?s = "(srv w)\<lparr>svr_clients := (M, ?H)\<rparr>"
  obtain xs where "client_table (M, H) xs" using inv by (auto simp: clients_inv_def)
  from table_update [OF this c(1), of "c\<lparr>c_command_index := k\<rparr>"] have inv': "clients_inv (M, ?H)"
    by (auto simp: clients_inv_def)
  have find: "ya_client_find_by_uid (svr_clients (srv w)) (c_uid c) = returns (Some a)"
    unfolding MH by (rule found_by_uid [OF inv c(1,2) only])
  have "writable ?s" using dev(1) by (simp add: writable_def)
  note button_click [OF this dev(2), of None "header (click (c_uid c) k l)"]
  moreover have "process_server_event None (click (c_uid c) k l) (Some a) (srv w) =
      handle_mouse_click None (click (c_uid c) k l) ?s"
    using process_new [of "click (c_uid c) k l" handle_mouse_click "srv w" a c None] c(1,3) MH
    by (simp add: guarded_def need_command_index_check_def find_event_handler_def event_handlers_def client_at_def)
  ultimately have "process_server_event None (click (c_uid c) k l) (Some a) (srv w) = returns (logged
      [(EV_KEY, button_to_linux_code l, 1), syn_event, (EV_KEY, button_to_linux_code l, 0), syn_event] ?s, None)"
    by simp
  note click_received [where mk = mk and bytes = bytes, OF laws mk ids pkg find this]
  then show ?thesis using inv' by (intro exI conjI) (assumption | simp add: click_log_def)+
qed

lemma old_clicks_ignored:
  assumes "evbuffer_laws ev bytes" and "\<And>data. bytes (mk data) = data"
    and "u \<le> 0x7FFFFFFF" "k \<le> 0x7FFFFFFF" and "ya_serialize_event (click u k l) = Defined pkg"
    and "ya_client_find_by_uid (svr_clients (srv w)) u = returns (Some a)"
    and "client_at (srv w) a = returns c" "k \<le> c_command_index c"
  shows "datagrams ev mk oom (map (\<lambda>addr. (addr, pkg)) addrs) w = returns w"
  using old_click_ignored [where bytes = bytes and mk = mk, OF assms] by (induction addrs) simp_all

text \<open>C26.
  A phone's session from end to end.  When a phone connects, with a descriptor and a number no
  active client has, and its authorization request arrives on the connection, the server answers
  with the number it gave the client and the ports, and nothing else.  A click the phone then
  sends under that number, from any address, presses and releases the button on the device, once:
  however often the datagram is delivered again, nothing more happens.
\<close>

theorem phone_session_clicks:
  assumes "evbuffer_laws ev bytes" and "\<And>data. bytes (mk data) = data"
    and "clients_inv (svr_clients (srv w))" and "client_cells w a = None" and "0 \<le> sint fd"
    and "ya_client_find_by_uid (svr_clients (srv w)) (new_uid (svr_clients (srv w))) = returns None"
    and "ya_client_find_by_fd (svr_clients (srv w)) fd = returns None"
    and "malloc_ok (srv w)" and "\<forall>m. macs_csv (srv w) = Some m \<longrightarrow> length m \<le> 2 ^ 20" and "writable (srv w)"
    and "1 \<le> version req" and "client_type req \<in> {1, 2}" and "i \<le> 0x7FFFFFFF"
    and "u = new_uid (svr_clients (srv w))" and "u \<le> 0x7FFFFFFF" and "0 < k" and "k \<le> 0x7FFFFFFF" and "l \<in> {0, 1, 2}"
    and "bytes buf = authorize_package i req" and "ya_serialize_event (click u k l) = Defined pkg"
    and "w1 = accept_cb fresh_in (Some b) (Some a) filter_ok now fd w"
  shows "\<exists>c w2 rsp. conn_readcb ev oom b (user_data w1 b) (w1\<lparr>inbuf := (inbuf w1)(b := buf)\<rparr>) = returns w2 \<and>
    c_uid c = u \<and> ya_serialize_event (admission (srv w) c i (version req)) = Defined rsp \<and>
    outbuf w2 b = rsp \<and> sent w2 = sent w \<and> ev_log (srv w2) = ev_log (srv w) \<and>
    (\<forall>addr addrs. \<exists>w3. datagrams ev mk oom (map (\<lambda>addr. (addr, pkg)) (addr # addrs)) w2 = returns w3 \<and>
       ev_log (srv w3) = ev_log (srv w) @ click_log l \<and> sent w3 = sent w)"
proof -
  from accepted [where w = w and a = a and b = b, OF assms(3-5) assms(6,7,21)] obtain c where
    c: "client_at (srv w1) a = returns c" "c_state c = YA_CLIENT_ACTIVE" "c_ref_count c = 1" "c_uid c = u"
      "c_command_index c = 0" "clients_inv (svr_clients (srv w1))" "c_fd c = fd"
    and only: "\<And>a' c'. client_cells w1 a' = Some c' \<Longrightarrow> c_state c' = YA_CLIENT_ACTIVE \<Longrightarrow>
         c_uid c' = c_uid c \<or> c_fd c' = fd \<Longrightarrow> a' = a"
    and w1: "user_data w1 b = Some a" "outbuf w1 b = []" "sent w1 = sent w"
      "srv w1 = (srv w)\<lparr>bev_fd := (bev_fd (srv w))(b := fd), svr_clients := svr_clients (srv w1)\<rparr>"
    unfolding assms(14) by blast
  obtain M H where MH: "svr_clients (srv w1) = (M, H)" by fastforce
  let ?w = "w1\<lparr>inbuf := (inbuf w1)(b := buf)\<rparr>" and ?v = "version req"
  have other: "bev_fd (srv w1) b = fd" "malloc_ok (srv w1) = malloc_ok (srv w)" "macs_csv (srv w1) = macs_csv (srv w)"
      "ev_log (srv w1) = ev_log (srv w)" "writable (srv w1) = writable (srv w)"
      "admission (srv w1) c i ?v = admission (srv w) c i ?v"
    by (subst w1(4), simp add: writable_def admission_def)+
  have cH: "cells H a = Some c" using c(1) MH by (simp add: client_at_returns)
  have "length (authorize_package i req) < 2 ^ 31"
    using length_authorize_body(1) [of req]
      length_header_bytes(1) [of "\<lparr>h_type = AUTHORIZE, direction = REQUEST, index = i, uid = 0\<rparr>"]
    by (simp add: authorize_package_def length_frame)
  then have p: "svr_clients (srv ?w) = (M, H)" "clients_inv (M, H)" "0 \<le> sint (c_fd c)" "bev_fd (srv ?w) b = c_fd c"
      "malloc_ok (srv ?w)" "\<forall>m. macs_csv (srv ?w) = Some m \<longrightarrow> length m \<le> 2 ^ 20"
      "bytes (inbuf ?w b) = authorize_package i req @ []" "length (bytes (inbuf ?w b)) < 2 ^ 31"
    using MH c(6,7) assms(5,8,9,19) other(1-3) by simp_all
  have only_fd: "a' = a" if "cells H a' = Some c'" "c_state c' = YA_CLIENT_ACTIVE" "c_fd c' = c_fd c" for a' c'
    using only [of a' c'] that c(7) MH by simp
  have "\<exists>w2 rsp H2. conn_readcb ev oom b (Some a) ?w = returns w2
    \<and> ya_serialize_event (admission (srv ?w) c i ?v) = Defined rsp
    \<and> outbuf w2 b = outbuf ?w b @ rsp \<and> bytes (inbuf w2 b) = []
    \<and> clients_inv (M, H2) \<and> cells H2 = (cells H)(a \<mapsto> authorized b ?v c)
    \<and> srv w2 = (srv ?w)\<lparr>authorize_error := None, svr_clients := (M, H2)\<rparr> \<and> sent w2 = sent ?w"
    by (rule authorization_processed [OF assms(1,13,11,12) p(1,2) cH c(2,3) p(3) _ p(4-8)]) (rule only_fd)
  then obtain w2 rsp H2 where auth: "conn_readcb ev oom b (user_data w1 b) ?w = returns w2"
      "ya_serialize_event (admission (srv w) c i ?v) = Defined rsp" "outbuf w2 b = rsp" "clients_inv (M, H2)"
      "cells H2 = (cells H)(a \<mapsto> authorized b ?v c)" "sent w2 = sent w"
      "srv w2 = (srv w1)\<lparr>authorize_error := None, svr_clients := (M, H2)\<rparr>"
    using w1(1-3) other(6) by (force simp del: fun_upd_apply)
  have s2: "svr_clients (srv w2) = (M, H2)" "ev_log (srv w2) = ev_log (srv w)" "writable (srv w2)"
    using assms(10) other unfolding auth(7) by (simp_all add: writable_def)
  let ?c = "authorized b ?v c"
  have ca: "c_uid ?c = u" "c_state ?c = YA_CLIENT_ACTIVE" "c_command_index ?c = 0"
    using c by (simp_all add: authorized_def)
  have only2: "a' = a" if "cells H2 a' = Some c'" "c_state c' = YA_CLIENT_ACTIVE" "c_uid c' = u" for a' c'
    using only [of a' c'] that c(4) MH unfolding auth(5) by (auto split: if_splits)
  have "\<exists>w3. datagrams ev mk oom (map (\<lambda>addr. (addr, pkg)) (addr # addrs)) w2 = returns w3 \<and>
      ev_log (srv w3) = ev_log (srv w) @ click_log l \<and> sent w3 = sent w" for addr addrs
  proof -
    have "\<exists>w3 H3. udp_readcb ev mk oom (Some (addr, pkg)) w2 = returns w3 \<and>
        ev_log (srv w3) = ev_log (srv w2) @ click_log l \<and> sent w3 = sent w2 \<and> svr_clients (srv w3) = (M, H3) \<and>
        clients_inv (M, H3) \<and> cells H3 = (cells H2)(a \<mapsto> ?c\<lparr>c_command_index := k\<rparr>)"
      using assms(15-18,20) ca auth(4,5) s2 only2
      by (intro new_click [OF assms(1,2)]) simp_all
    then obtain w3 H3 where w3: "udp_readcb ev mk oom (Some (addr, pkg)) w2 = returns w3"
        "ev_log (srv w3) = ev_log (srv w2) @ click_log l" "sent w3 = sent w2" "svr_clients (srv w3) = (M, H3)"
        "clients_inv (M, H3)" "cells H3 = (cells H2)(a \<mapsto> ?c\<lparr>c_command_index := k\<rparr>)" by blast
    have "ya_client_find_by_uid (M, H3) (c_uid (?c\<lparr>c_command_index := k\<rparr>)) = returns (Some a)"
      by (rule found_by_uid [OF w3(5)]) (use w3(6) ca only2 in \<open>auto split: if_splits\<close>)
    then have "datagrams ev mk oom (map (\<lambda>addr. (addr, pkg)) addrs) w3 = returns w3"
      using assms(15,17,20) ca w3(4,6)
      by (intro old_clicks_ignored [where u = u and k = k and l = l and a = a and
            c = "?c\<lparr>c_command_index := k\<rparr>", OF assms(1,2)]) (simp_all add: client_at_def)
    with w3 auth(6) s2(2) show ?thesis by simp
  qed
  with auth c(4) s2(2) show ?thesis by blast
qed

text \<open>C27.
  Commands need neither a session nor an authorization.  A click under a number no client has,
  0 included, is carried out for whoever sends it, and as there is no client there is no sequence
  number either: every copy of the datagram, from any address, clicks again.
\<close>

theorem anonymous_commands_carried_out:
  assumes laws: "evbuffer_laws ev bytes" and mk: "\<And>data. bytes (mk data) = data"
    and ids: "u \<le> 0x7FFFFFFF" "k \<le> 0x7FFFFFFF" and pkg: "ya_serialize_event (click u k l) = Defined pkg"
    and nobody: "ya_client_find_by_uid (svr_clients (srv w)) u = returns None"
    and dev: "writable (srv w)" "l \<in> {0, 1, 2}"
  shows "\<exists>w'. datagrams ev mk oom (map (\<lambda>addr. (addr, pkg)) addrs) w = returns w' \<and>
    ev_log (srv w') = ev_log (srv w) @ concat (replicate (length addrs) (click_log l)) \<and>
    svr_clients (srv w') = svr_clients (srv w) \<and> sent w' = sent w"
  using nobody dev(1)
proof (induction addrs arbitrary: w)
  case (Cons addr addrs)
  obtain w1 where w1: "udp_readcb ev mk oom (Some (addr, pkg)) w = returns w1"
      "ev_log (srv w1) = ev_log (srv w) @ click_log l" "svr_clients (srv w1) = svr_clients (srv w)"
      "writable (srv w1)" "sent w1 = sent w"
    using anonymous_click [where bytes = bytes and mk = mk, OF laws mk ids pkg Cons.prems(1,2) dev(2)] by blast
  have "ya_client_find_by_uid (svr_clients (srv w1)) u = returns None" using w1(3) Cons.prems(1) by simp
  from Cons.IH [OF this w1(4)] w1 show ?case by auto
qed simp

lemma idle_finds_nobody:
  "clients_inv (svr_clients (srv idle_net))"
  "ya_client_find_by_uid (svr_clients (srv idle_net)) u = returns None"
  "ya_client_find_by_fd (svr_clients (srv idle_net)) fd = returns None"
proof -
  have start: "net_start idle_net" by (simp add: net_start_def idle_net_def)
  then show inv: "clients_inv (svr_clients (srv idle_net))" using net_inv_start by (auto simp: net_inv_def)
  obtain M H where MH: "svr_clients (srv idle_net) = (M, H)" by fastforce
  have none: "cells H a = None" for a using start MH by (simp add: net_start_def)
  show "ya_client_find_by_uid (svr_clients (srv idle_net)) u = returns None"
    using find_by_uid_returns [of M H u] inv none MH by (auto split: option.splits)
  show "ya_client_find_by_fd (svr_clients (srv idle_net)) fd = returns None"
    using find_by_fd_returns [of M H fd] inv none MH by auto
qed

lemma click_serialized: "\<exists>pkg. ya_serialize_event (click 1 5 0) = Defined pkg"
  using common_carried [OF list_evbuffer_laws, of "header (click 1 5 0)" False "\<lparr>lparam = 0, rparam = 2\<rparr>"]
  by (auto simp: carried_def)

theorem anonymous_commands_carried_out_witness:
  "\<exists>pkg w'. ya_serialize_event (click 1 5 0) = Defined pkg \<and>
    datagrams list_evbuffer (\<lambda>d. d) False [(9, pkg), (8, pkg), (9, pkg)] idle_net = returns w' \<and>
    length (ev_log (srv w')) = 12"
proof -
  obtain pkg where pkg: "ya_serialize_event (click 1 5 0) = Defined pkg" using click_serialized by blast
  have w: "writable (srv idle_net)" "ev_log (srv idle_net) = []" by (simp_all add: idle_net_def writable_def)
  from anonymous_commands_carried_out [OF list_evbuffer_laws _ _ _ pkg idle_finds_nobody(2) w(1), of "\<lambda>d. d" False "[9, 8, 9]"]
    w(2) pkg show ?thesis by (auto simp: click_log_def)
qed

theorem phone_session_clicks_witness:
  "\<exists>pkg w2 w3. ya_serialize_event (click 1 5 0) = Defined pkg \<and>
    conn_readcb list_evbuffer False 3 (Some 0) ((accept_cb [] (Some 3) (Some 0) True 1700000000 7 idle_net)
      \<lparr>inbuf := (\<lambda>_. [])(3 := authorize_package 1 \<lparr>client_type = 1, version = 3\<rparr>)\<rparr>) = returns w2 \<and>
    datagrams list_evbuffer (\<lambda>d. d) False [(9, pkg), (8, pkg)] w2 = returns w3 \<and> length (ev_log (srv w3)) = 4"
proof -
  obtain pkg where pkg: "ya_serialize_event (click 1 5 0) = Defined pkg" using click_serialized by blast
  let ?w1 = "accept_cb [] (Some 3) (Some 0) True 1700000000 7 idle_net"
  let ?req = "\<lparr>client_type = 1, version = 3\<rparr>"
  have no_macs: "macs_csv sample_server = None"
    by (simp add: sample_server_def open_world_def input_world.defs input_dev.defs)
  have w: "writable (srv idle_net)" "ev_log (srv idle_net) = []" "client_cells idle_net 0 = None"
      "malloc_ok (srv idle_net)" "\<forall>m. macs_csv (srv idle_net) = Some m \<longrightarrow> length m \<le> 2 ^ 20"
      "(1 :: u32) = new_uid (svr_clients (srv idle_net))"
    by (simp_all add: idle_net_def no_macs writable_def new_uid_def ya_client_manager_init_def)
  have u: "user_data ?w1 3 = Some 0" "inbuf ?w1 = (\<lambda>_. [])"
    by (auto simp: idle_net_def accept_cb_def ya_client_create_def ya_client_manager_init_def Let_def)
  from phone_session_clicks [OF list_evbuffer_laws _ idle_finds_nobody(1) w(3) _ idle_finds_nobody(2,3) w(4,5,1) _ _ _
      w(6) _ _ _ _ _ pkg refl, of "\<lambda>d. d" 7 ?req 1 "authorize_package 1 ?req" False 3 "[]" True 1700000000] w(2)
  obtain w2 where w2: "conn_readcb list_evbuffer False 3 (Some 0) (?w1\<lparr>inbuf := (inbuf ?w1)(3 := authorize_package 1 ?req)\<rparr>) = returns w2"
      "\<forall>addr addrs. \<exists>w3. datagrams list_evbuffer (\<lambda>d. d) False (map (\<lambda>addr. (addr, pkg)) (addr # addrs)) w2 = returns w3 \<and>
         ev_log (srv w3) = click_log 0 \<and> sent w3 = sent idle_net"
    unfolding u(1) by auto
  from w2(2) [rule_format, of 9 "[8]"] obtain w3 where
    w3: "datagrams list_evbuffer (\<lambda>d. d) False [(9, pkg), (8, pkg)] w2 = returns w3" "ev_log (srv w3) = click_log 0"
    by auto
  then have "length (ev_log (srv w3)) = 4" by (simp add: click_log_def)
  with pkg w2(1) w3(1) show ?thesis unfolding u(2) by blast
qed

section \<open>A stream of requests\<close>

text \<open>
  What the server owes one request of a connection's client: with a reference to the client, it
  is dispatched, and its response serialized.
\<close>

definition serve_one :: "nat \<Rightarrow> addr \<Rightarrow> YAEvent \<Rightarrow> server \<Rightarrow> (server \<times> u8 list) run" where
  "serve_one b a e s =
     run_bind (ya_client_ref (svr_clients s) (Some a)) (\<lambda>S1.
     run_bind (process_server_event (Some b) e (Some a) (s\<lparr>svr_clients := S1\<rparr>)) (\<lambda>(s2, response).
     run_bind (reply response) (\<lambda>rsp.
     run_bind (ya_client_unref (svr_clients s2) (Some a)) (\<lambda>S3.
       returns (s2\<lparr>svr_clients := S3\<rparr>, case rsp of None \<Rightarrow> [] | Some bs \<Rightarrow> bs)))))"

fun serve :: "nat \<Rightarrow> addr \<Rightarrow> YAEvent list \<Rightarrow> server \<Rightarrow> (server \<times> u8 list) run" where
  "serve b a [] s = returns (s, [])"
| "serve b a (e # es) s =
     run_bind (serve_one b a e s) (\<lambda>(s1, out).
     run_bind (serve b a es s1) (\<lambda>(s2, outs). returns (s2, out @ outs)))"

text \<open>The read callback called \<open>n\<close> times.\<close>

fun reads :: "'b evbuffer_api \<Rightarrow> bool \<Rightarrow> nat \<Rightarrow> addr \<Rightarrow> nat \<Rightarrow> 'b net \<Rightarrow> 'b net run" where
  "reads ev oom b a 0 w = returns w"
| "reads ev oom b a (Suc n) w = run_bind (conn_readcb ev oom b (Some a) w) (reads ev oom b a n)"

definition served :: "nat \<Rightarrow> 'b \<Rightarrow> 'b net \<Rightarrow> server \<times> u8 list \<Rightarrow> 'b net" where
  "served b buf w = (\<lambda>(s, out). w\<lparr>inbuf := (inbuf w)(b := buf), srv := s, outbuf := (outbuf w)(b := outbuf w b @ out)\<rparr>)"

lemma carried_read:
  assumes laws: "evbuffer_laws ev bytes" and carried: "carried ev bytes oom e pkg"
    and c: "client_at (srv w) a = returns c" "c_state c = YA_CLIENT_ACTIVE"
    and data: "bytes (inbuf w b) = pkg @ rest" "length pkg + length rest < 2 ^ 31"
  shows "\<exists>buf'. bytes buf' = rest \<and>
    conn_readcb ev oom b (Some a) w = run_bind (serve_one b a e (srv w)) (\<lambda>r. returns (served b buf' w r))"
proof -
  have ser: "ya_serialize_event e = Defined pkg" using carried by (simp add: carried_def)
  from carried data(1) obtain buf' where p: "ya_parse_event ev oom (ev_drain ev (inbuf w b) 8) no_event
      (ya_get_package_size ev (inbuf w b)) = Defined (buf', Some e)" "bytes buf' = rest"
    unfolding carried_def by blast
  have "package_complete ev (inbuf w b)" by (rule complete_package [OF laws ser data])
  then have "conn_readcb ev oom b (Some a) w = run_bind (serve_one b a e (srv w)) (\<lambda>r. returns (served b buf' w r))"
    using p(1) c by (auto simp: conn_readcb_def serve_one_def served_def run_bind_def Let_def
        split: option.split ub.split)
  with p(2) show ?thesis by blast
qed

lemma reads_serve:
  assumes laws: "evbuffer_laws ev bytes"
    and "list_all2 (carried ev bytes oom) es pkgs" and "clients_inv (svr_clients (srv w))"
    and "client_at (srv w) a = returns c" "c_state c = YA_CLIENT_ACTIVE" "c_ref_count c + 1 \<noteq> 0"
    and "bytes (inbuf w b) = concat pkgs @ rest" "length (concat pkgs) + length rest < 2 ^ 31"
  shows "\<exists>buf'. bytes buf' = rest \<and>
    reads ev oom b a (length es) w = run_bind (serve b a es (srv w)) (\<lambda>r. returns (served b buf' w r))"
  using assms(2-)
proof (induction es pkgs arbitrary: w c rule: list_all2_induct)
  case Nil
  then show ?case by (intro exI [of _ "inbuf w b"]) (simp add: served_def)
next
  case (Cons e es pkg pkgs)
  have "bytes (inbuf w b) = pkg @ (concat pkgs @ rest)" "length pkg + length (concat pkgs @ rest) < 2 ^ 31"
    using Cons.prems(5,6) by simp_all
  from carried_read [OF laws Cons.hyps(1) Cons.prems(2,3) this] obtain buf where
    buf: "bytes buf = concat pkgs @ rest"
      "conn_readcb ev oom b (Some a) w = run_bind (serve_one b a e (srv w)) (\<lambda>r. returns (served b buf w r))"
    by blast
  have end_buf: "\<exists>buf'. bytes buf' = rest"
    using drain_bytes [OF laws, of buf "length (concat pkgs)"] buf(1) by auto
  show ?case
  proof (cases "\<exists>r. serve_one b a e (srv w) = returns r")
    case False
    then have "run_bind (serve_one b a e (srv w)) f = run_bind (serve_one b a e (srv w)) g" for f g :: "_ \<Rightarrow> 'a net run"
      by (cases "serve_one b a e (srv w)") (auto simp: run_bind_def split: ub.splits)
    moreover have "reads ev oom b a (length (e # es)) w = run_bind (serve_one b a e (srv w)) (\<lambda>r. reads ev oom b a (length es) (served b buf w r))"
      using False by (cases "serve_one b a e (srv w)") (auto simp: buf(2) run_bind_def split: ub.splits)
    moreover have "run_bind (serve b a (e # es) (srv w)) (\<lambda>r. returns (served b buf' w r)) =
        run_bind (serve_one b a e (srv w)) (\<lambda>r. None)" for buf'
      using False by (cases "serve_one b a e (srv w)") (auto simp: run_bind_def split: ub.splits)
    ultimately show ?thesis using end_buf by metis
  next
    case True
    then obtain s out where r: "serve_one b a e (srv w) = returns (s, out)" by fastforce
    let ?w = "served b buf w (s, out)"
    have read: "conn_readcb ev oom b (Some a) w = returns ?w" using buf(2) r by simp
    have cell: "client_cells w a = Some c" using Cons.prems(2) by (simp add: client_at_returns)
    have sw: "srv ?w = s" "bytes (inbuf ?w b) = concat pkgs @ rest" using buf(1) by (simp_all add: served_def)
    from readcb_refs [OF read Cons.prems(1) cell Cons.prems(4)] have
      inv: "clients_inv (svr_clients (srv ?w))" and refs: "refs_kept (client_cells w) (client_cells ?w)" by blast+
    from refs_kept_Some [OF refs cell] obtain c' where
      c': "client_at (srv ?w) a = returns c'" "c_state c' = YA_CLIENT_ACTIVE" "c_ref_count c' + 1 \<noteq> 0"
      using Cons.prems(3,4) by (auto simp: same_refs_def client_at_returns)
    have "length (concat pkgs) + length rest < 2 ^ 31" using Cons.prems(6) by simp
    from Cons.IH [OF inv c' sw(2) this] obtain buf' where
      IH: "bytes buf' = rest"
        "reads ev oom b a (length es) ?w = run_bind (serve b a es s) (\<lambda>r. returns (served b buf' ?w r))"
      unfolding sw(1) by blast
    have "served b buf' ?w r = served b buf' w (fst r, out @ snd r)" for r
      by (simp add: served_def case_prod_unfold)
    then have "reads ev oom b a (length (e # es)) w =
        run_bind (serve b a (e # es) (srv w)) (\<lambda>r. returns (served b buf' w r))"
      using read IH(2) r by (simp add: run_bind_def case_prod_unfold split: option.split ub.split)
    with IH(1) show ?thesis by blast
  qed
qed


lemma stream_clicks: "\<exists>pkgs. map ya_serialize_event [click 1 5 0, click 1 6 1] = map Defined pkgs"
proof -
  have "\<exists>pkg. ya_serialize_event (click 1 k l) = Defined pkg" if "k \<le> 0x7FFFFFFF" for k l
    using common_carried [OF list_evbuffer_laws, of "header (click 1 k l)" False "\<lparr>lparam = l, rparam = 2\<rparr>"] that
    by (auto simp: carried_def)
  from this [of 5 0] this [of 6 1] obtain p q where
    "ya_serialize_event (click 1 5 0) = Defined p" "ya_serialize_event (click 1 6 1) = Defined q" by auto
  then have "map ya_serialize_event [click 1 5 0, click 1 6 1] = map Defined [p, q]" by simp
  then show ?thesis by blast
qed


end
