(* ===== verification/Utils.thy ===== *)
theory Utils
  imports Config FloatC
begin

text \<open>
  The helpers of \<open>ya_utils.c\<close> (Linux): paths and directories, the hardware addresses of the
  network interfaces as a text, and the scale of the display.  \<open>to_uint32\<close> is in \<open>Event\<close> and
  \<open>ya_get_peer_addr\<close> in \<open>Http\<close>.

  Texts are the bytes before the NUL.  The environment's variables, the user's entry in the
  password file and the link of the executable are arguments; \<open>strtod\<close> is one too, as the value
  it reads and the number of characters it uses.
\<close>

abbreviation (input) slash :: u8 where "slash \<equiv> 47"
abbreviation (input) backslash :: u8 where "backslash \<equiv> 92"

definition is_separator :: "u8 \<Rightarrow> bool" where
  "is_separator c \<longleftrightarrow> c = slash \<or> c = backslash"

section \<open>Memory\<close>

text \<open>A pointer to a pointer to a block, and the blocks freed so far.\<close>

definition safe_free :: "nat option option \<Rightarrow> nat list \<Rightarrow> nat option option \<times> nat list" where
  "safe_free p freed = (case p of Some (Some b) \<Rightarrow> (Some None, freed @ [b]) | _ \<Rightarrow> (p, freed))"

section \<open>Directories\<close>

text \<open>
  The directories there are, by name, and the names the system lets the process create.
  \<open>mkdir\<close> fails with \<open>EEXIST\<close> for a name there is.
\<close>

record filesystem =
  dirs :: "u8 list list"
  creatable :: "u8 list \<Rightarrow> bool"

datatype mkdir_result = Made | Exists | Refused

definition mkdir :: "u8 list \<Rightarrow> filesystem \<Rightarrow> filesystem \<times> mkdir_result" where
  "mkdir path fs =
     (if path \<in> set (dirs fs) then (fs, Exists)
      else if creatable fs path then (fs\<lparr>dirs := path # dirs fs\<rparr>, Made)
      else (fs, Refused))"

text \<open>
  The walk of \<open>ya_ensure_dir\<close> along its copy of the path: \<open>passed\<close> is the part already passed, in
  which a separator that was replaced by a NUL is a slash again.
\<close>

fun ensure_walk :: "u8 list \<Rightarrow> u8 list \<Rightarrow> filesystem \<Rightarrow> filesystem \<times> int" where
  "ensure_walk passed [] fs =
     (case mkdir passed fs of (fs', r) \<Rightarrow> (fs', if r = Refused then - 1 else 0))"
| "ensure_walk passed (c # rest) fs =
     (if is_separator c then
        (if passed = [] \<or> last passed = 58 then ensure_walk (passed @ [c]) rest fs
         else case mkdir passed fs of (fs', r) \<Rightarrow>
           if r = Refused then (fs', - 1) else ensure_walk (passed @ [slash]) rest fs')
      else ensure_walk (passed @ [c]) rest fs)"

definition ya_ensure_dir :: "u8 list option \<Rightarrow> filesystem \<Rightarrow> filesystem \<times> int" where
  "ya_ensure_dir path fs =
     (case path of
        None \<Rightarrow> (fs, 0)
      | Some p \<Rightarrow>
          if p = [] then (fs, 0)
          else let tmp = take 511 p;
                   tmp' = (if 1 < length tmp \<and> is_separator (last tmp) then butlast tmp else tmp)
               in ensure_walk [] tmp' fs)"

section \<open>Paths\<close>

definition ya_normalize_path :: "u8 list \<Rightarrow> u8 list" where
  "ya_normalize_path path =
     rev (dropWhile (\<lambda>c. c = slash) (rev (map (\<lambda>c. if c = backslash then slash else c) path)))"

text \<open>The path up to its last separator.\<close>

definition ya_get_dir_path :: "u8 list \<Rightarrow> u8 list option" where
  "ya_get_dir_path file_path =
     (if \<exists>c \<in> set file_path. is_separator c
      then Some (rev (tl (dropWhile (\<lambda>c. \<not> is_separator c) (rev file_path)))) else None)"

definition get_real_path_limit :: nat where "get_real_path_limit = 4096"

definition file_exists :: "(u8 list \<Rightarrow> bool) \<Rightarrow> u8 list \<Rightarrow> bool" where
  "file_exists stat_ok path =
     stat_ok (map (\<lambda>c. if c = backslash then slash else c) (take (get_real_path_limit - 1) path))"

text \<open>The target of \<open>/proc/self/exe\<close>, \<open>None\<close> when it cannot be read.\<close>

definition ya_get_executable_path :: "u8 list option \<Rightarrow> nat \<Rightarrow> u8 list option" where
  "ya_get_executable_path link buf_len = map_option (take (buf_len - 1)) link"

definition ya_get_home_dir :: "u8 list option \<Rightarrow> nat \<Rightarrow> u8 list option" where
  "ya_get_home_dir pw_dir out_size =
     (if out_size = 0 then None
      else case pw_dir of
        Some d \<Rightarrow> if d = [] then None else Some (take (out_size - 1) d)
      | None \<Rightarrow> None)"

type_synonym environment = "string \<Rightarrow> u8 list option"

definition ya_is_wayland_session :: "environment \<Rightarrow> bool" where
  "ya_is_wayland_session getenv \<longleftrightarrow>
     getenv ''XDG_SESSION_TYPE'' = Some (bytes_of_string ''wayland'') \<and>
     getenv ''WAYLAND_DISPLAY'' \<notin> {None, Some []}"

section \<open>Hardware addresses\<close>

text \<open>\<open>%02x\<close> of a byte.\<close>

definition hex_digit :: "u8 \<Rightarrow> u8" where
  "hex_digit n = (if n < 10 then 48 + n else 87 + n)"

definition hex_byte :: "u8 \<Rightarrow> u8 list" where
  "hex_byte b = [hex_digit (drop_bit 4 b), hex_digit (b AND 15)]"

definition format_mac_lower_colon :: "u8 list \<Rightarrow> nat \<Rightarrow> u8 list option" where
  "format_mac_lower_colon bytes out_size =
     (if length bytes < 6 \<or> out_size < 18 then None
      else Some (take (out_size - 1)
        (hex_byte (bytes ! 0) @ [58] @ hex_byte (bytes ! 1) @ [58] @ hex_byte (bytes ! 2) @ [58] @
         hex_byte (bytes ! 3) @ [58] @ hex_byte (bytes ! 4) @ [58] @ hex_byte (bytes ! 5))))"

text \<open>
  An interface: the family of its address, if it has one, the address of a packet socket
  (\<open>sll_halen\<close> and \<open>sll_addr\<close>), and whether it is the loopback.
\<close>

record interface =
  has_addr :: bool
  loopback :: bool
  is_packet :: bool
  sll_halen :: nat
  sll_addr :: "u8 list"

text \<open>The text the loop adds for an interface, if any.\<close>

definition interface_mac :: "interface \<Rightarrow> u8 list option" where
  "interface_mac ifa =
     (if \<not> has_addr ifa \<or> loopback ifa \<or> \<not> is_packet ifa \<or> sll_halen ifa \<noteq> 6 then None
      else if list_all (\<lambda>b. b = 0) (take 6 (sll_addr ifa)) then None
      else format_mac_lower_colon (take 6 (sll_addr ifa)) 32)"

text \<open>
  The buffer: its capacity and the characters in it.  The new capacity is doubled until it is
  enough; in 64 bits it could become 0 and the loop not end.
\<close>

record mac_buffer =
  mb_cap :: u64
  mb_text :: "u8 list"

partial_function (option) double_until :: "u64 \<Rightarrow> u64 \<Rightarrow> u64 run" where
  "double_until needed newcap =
     (if newcap \<le> needed then double_until needed (newcap * 2) else returns newcap)"

text \<open>Writing past the end of the buffer is undefined behaviour.\<close>

definition put_mac :: "u8 list \<Rightarrow> mac_buffer \<Rightarrow> mac_buffer run" where
  "put_mac macstr b =
     (let t = mb_text b @ (if mb_text b = [] then [] else [44]) @ macstr
      in if unat (mb_cap b) < length t + 1 then Some UB else returns (b\<lparr>mb_text := t\<rparr>))"

definition add_mac :: "(u64 \<Rightarrow> bool) \<Rightarrow> u8 list \<Rightarrow> mac_buffer \<Rightarrow> mac_buffer option run" where
  "add_mac realloc_ok macstr b =
     (let len = word_of_nat (length (mb_text b));
          need = word_of_nat (length macstr) + 1 + (if 0 < len then 1 else 0)
      in if mb_cap b \<le> len + need then
           run_bind (double_until (len + need) (mb_cap b * 2)) (\<lambda>newcap.
             if \<not> realloc_ok newcap then returns None
             else run_bind (put_mac macstr (b\<lparr>mb_cap := newcap\<rparr>)) (\<lambda>b'. returns (Some b')))
         else run_bind (put_mac macstr b) (\<lambda>b'. returns (Some b')))"

fun collect_macs :: "(u64 \<Rightarrow> bool) \<Rightarrow> interface list \<Rightarrow> mac_buffer \<Rightarrow> mac_buffer option run" where
  "collect_macs realloc_ok [] b = returns (Some b)"
| "collect_macs realloc_ok (ifa # ifs) b =
     (case interface_mac ifa of
        None \<Rightarrow> collect_macs realloc_ok ifs b
      | Some macstr \<Rightarrow>
          run_bind (add_mac realloc_ok macstr b) (\<lambda>r.
            case r of None \<Rightarrow> returns None | Some b' \<Rightarrow> collect_macs realloc_ok ifs b'))"

text \<open>\<open>ifaddr\<close> is \<open>None\<close> when the interfaces cannot be listed.\<close>

definition ya_get_macs_csv :: "interface list option \<Rightarrow> bool \<Rightarrow> (u64 \<Rightarrow> bool) \<Rightarrow> u8 list option run" where
  "ya_get_macs_csv ifaddr malloc_ok realloc_ok =
     (case ifaddr of
        None \<Rightarrow> returns None
      | Some ifs \<Rightarrow>
          if \<not> malloc_ok then returns None
          else run_bind (collect_macs realloc_ok ifs \<lparr>mb_cap = 128, mb_text = []\<rparr>) (\<lambda>r.
            case r of
              None \<Rightarrow> returns None
            | Some b \<Rightarrow> returns (if mb_text b = [] then None else Some (mb_text b))))"

section \<open>Numbers in texts\<close>

definition is_digit :: "u8 \<Rightarrow> bool" where
  "is_digit c \<longleftrightarrow> 48 \<le> c \<and> c \<le> 57"

definition digits_value :: "u8 list \<Rightarrow> int" where
  "digits_value ds = foldl (\<lambda>n d. 10 * n + (int (unat d) - 48)) 0 ds"

text \<open>\<open>strtol\<close> in base 10: space, a sign, digits; the nearest \<open>long\<close> out of range.\<close>

definition strtol10 :: "u8 list \<Rightarrow> int" where
  "strtol10 s =
     (let t = dropWhile isspace s;
          neg = (t \<noteq> [] \<and> hd t = 45);
          u = (if t \<noteq> [] \<and> (hd t = 45 \<or> hd t = 43) then tl t else t);
          v = digits_value (takeWhile is_digit u)
      in max (- (2 ^ 63)) (min (2 ^ 63 - 1) (if neg then - v else v)))"

section \<open>The scale of the display\<close>

type_synonym strtod = "u8 list \<Rightarrow> fp \<times> nat"

definition ya_parse_scale_env :: "environment \<Rightarrow> strtod \<Rightarrow> string \<Rightarrow> fp" where
  "ya_parse_scale_env getenv strtod env_name =
     (case getenv env_name of
        None \<Rightarrow> Fin 0
      | Some v \<Rightarrow>
          if v = [] then Fin 0
          else case strtod v of (d, used) \<Rightarrow>
            if used = 0 then Fin 0
            else if d \<in> {PosInf, NegInf, NaN} \<or> fp_le d (Fin 0) then Fin 0
            else fp_convert round32 d)"

definition gdk_scale :: "environment \<Rightarrow> strtod \<Rightarrow> fp" where
  "gdk_scale getenv strtod =
     (let s = ya_parse_scale_env getenv strtod ''GDK_SCALE'' in
      if fp_le s (Fin 0) then
        (case getenv ''GDK_SCALE'' of
           Some gv \<Rightarrow> if gv \<noteq> [] \<and> 0 < strtol10 gv then fp_of_int round32 (strtol10 gv) else s
         | None \<Rightarrow> s)
      else s)"

definition positive :: "fp \<Rightarrow> bool" where
  "positive x = fp_less (Fin 0) x"

definition ya_primary_scale :: "environment \<Rightarrow> strtod \<Rightarrow> fp" where
  "ya_primary_scale getenv strtod =
     (let s = ya_parse_scale_env getenv strtod ''MH_DISPLAY_SCALE'' in
      if positive s then s
      else
        let gdk = gdk_scale getenv strtod;
            gdk_dpi = ya_parse_scale_env getenv strtod ''GDK_DPI_SCALE'';
            qt_scale = ya_parse_scale_env getenv strtod ''QT_SCALE_FACTOR'';
            qt_dpr = ya_parse_scale_env getenv strtod ''QT_DEVICE_PIXEL_RATIO'';
            base = (if positive gdk then gdk else Fin 1);
            fine = (if positive gdk_dpi then gdk_dpi else Fin 1);
            scale = fp_mul round32 base fine
        in if (positive gdk \<or> positive gdk_dpi) \<and> positive scale \<and> scale \<noteq> PosInf then scale
           else if positive qt_scale then qt_scale
           else if positive qt_dpr then qt_dpr
           else Fin 1)"

section \<open>The list of hardware addresses\<close>

fun join_with :: "u8 \<Rightarrow> u8 list list \<Rightarrow> u8 list" where
  "join_with sep [] = []"
| "join_with sep [m] = m"
| "join_with sep (m # ms) = m @ [sep] @ join_with sep ms"

abbreviation comma_join :: "u8 list list \<Rightarrow> u8 list" where
  "comma_join \<equiv> join_with 44"

lemma join_with_snoc: "ms \<noteq> [] \<Longrightarrow> join_with sep (ms @ [m]) = join_with sep ms @ [sep] @ m"
  by (induction sep ms rule: join_with.induct) auto

lemma join_with_empty: "\<forall>m \<in> set ms. m \<noteq> [] \<Longrightarrow> join_with sep ms = [] \<longleftrightarrow> ms = []"
  by (cases "(sep, ms)" rule: join_with.cases) auto

definition interface_macs :: "interface list \<Rightarrow> u8 list list" where
  "interface_macs ifs = List.map_filter interface_mac ifs"

lemma interface_mac_length: "interface_mac ifa = Some m \<Longrightarrow> length m = 17"
  by (auto simp: interface_mac_def format_mac_lower_colon_def hex_byte_def split: if_splits)

lemma interface_macs_simps [simp]:
  "interface_macs [] = []"
  "interface_macs (ifa # ifs) = (case interface_mac ifa of None \<Rightarrow> interface_macs ifs | Some m \<Rightarrow> m # interface_macs ifs)"
  by (simp_all add: interface_macs_def List.map_filter_simps split: option.split)

lemma double_until_enough: "\<not> newcap \<le> needed \<Longrightarrow> double_until needed newcap = returns newcap"
  by (simp add: double_until.simps)

text \<open>
  The buffer after some addresses: they are its text, which with its NUL fits, and the capacity
  has not outgrown them.
\<close>

definition mac_inv :: "u8 list list \<Rightarrow> mac_buffer \<Rightarrow> bool" where
  "mac_inv ms b \<longleftrightarrow> mb_text b = comma_join ms \<and> (\<forall>m \<in> set ms. length m = 17) \<and>
     length (mb_text b) < unat (mb_cap b) \<and> length (mb_text b) \<le> 18 * length ms \<and>
     128 \<le> unat (mb_cap b) \<and> unat (mb_cap b) \<le> 128 + 36 * length ms"

lemma add_mac_step:
  assumes "mac_inv ms b" "length macstr = 17" "length ms < 2 ^ 50"
  shows "\<exists>r. add_mac realloc_ok macstr b = returns r \<and>
    (r = None \<or> (\<exists>b'. r = Some b' \<and> mac_inv (ms @ [macstr]) b')) \<and> ((\<forall>n. realloc_ok n) \<longrightarrow> r \<noteq> None)"
proof -
  let ?len = "word_of_nat (length (mb_text b)) :: u64"
  let ?need = "word_of_nat (length macstr) + 1 + (if 0 < ?len then 1 else 0) :: u64"
  let ?t = "mb_text b @ (if mb_text b = [] then [] else [44]) @ macstr"
  have t: "?t = comma_join (ms @ [macstr])"
    using assms(1) join_with_snoc [of ms 44 macstr] join_with_empty [of ms 44]
    by (cases "ms = []") (fastforce simp: mac_inv_def)+
  have l: "length (mb_text b) \<le> 18 * length ms" "length (mb_text b) < unat (mb_cap b)"
    "128 \<le> unat (mb_cap b)" "unat (mb_cap b) \<le> 128 + 36 * length ms"
    using assms(1) unfolding mac_inv_def by blast+
  with assms(3) have ulen: "unat ?len = length (mb_text b)"
    by (simp add: unat_of_nat take_bit_nat_eq_self)
  then have pos: "0 < ?len \<longleftrightarrow> mb_text b \<noteq> []" by (auto simp: word_less_nat_alt)
  have uneed: "unat ?need = (if mb_text b = [] then 18 else 19)"
    using assms(2) pos by simp
  have usum: "unat (?len + ?need) = length ?t + 1"
    using l assms(2,3) uneed ulen by (subst unat_word_ariths) (auto simp: pos)
  have udouble: "unat (mb_cap b * 2) = 2 * unat (mb_cap b)"
    using l assms(3) by (subst unat_word_ariths) simp
  have len_t: "length ?t \<le> 18 * length (ms @ [macstr])" "length ?t \<le> length (mb_text b) + 18"
    using l assms(2) by simp_all
  have all17: "\<forall>m \<in> set (ms @ [macstr]). length m = 17" using assms(1,2) by (auto simp: mac_inv_def)
  show ?thesis
  proof (cases "mb_cap b \<le> ?len + ?need")
    case True
    then have full: "unat (mb_cap b) \<le> length ?t + 1" using usum by (simp add: word_le_nat_alt)
    have "\<not> mb_cap b * 2 \<le> ?len + ?need"
      using usum udouble len_t l by (simp add: word_le_nat_alt)
    then have d: "double_until (?len + ?need) (mb_cap b * 2) = returns (mb_cap b * 2)"
      by (rule double_until_enough)
    have "put_mac macstr (b\<lparr>mb_cap := mb_cap b * 2\<rparr>) = returns (b\<lparr>mb_cap := mb_cap b * 2, mb_text := ?t\<rparr>)"
      using udouble len_t l by (simp add: put_mac_def Let_def)
    moreover have "mac_inv (ms @ [macstr]) (b\<lparr>mb_cap := mb_cap b * 2, mb_text := ?t\<rparr>)"
      using t all17 len_t l udouble full by (simp add: mac_inv_def)
    ultimately show ?thesis using True d by (cases "realloc_ok (mb_cap b * 2)") (auto simp: add_mac_def Let_def)
  next
    case False
    then have "length ?t + 1 < unat (mb_cap b)" using usum by (simp add: word_le_nat_alt)
    then have "put_mac macstr b = returns (b\<lparr>mb_text := ?t\<rparr>)" and "mac_inv (ms @ [macstr]) (b\<lparr>mb_text := ?t\<rparr>)"
      using t all17 len_t l by (simp_all add: put_mac_def Let_def mac_inv_def)
    then show ?thesis using False by (auto simp: add_mac_def Let_def)
  qed
qed

lemma collect_macs_step:
  "mac_inv ms b \<Longrightarrow> length ms + length ifs < 2 ^ 50 \<Longrightarrow>
    \<exists>r. collect_macs realloc_ok ifs b = returns r \<and>
      (r = None \<or> (\<exists>b'. r = Some b' \<and> mac_inv (ms @ interface_macs ifs) b')) \<and> ((\<forall>n. realloc_ok n) \<longrightarrow> r \<noteq> None)"
proof (induction ifs arbitrary: ms b)
  case (Cons ifa ifs)
  show ?case
  proof (cases "interface_mac ifa")
    case None
    then show ?thesis using Cons.IH [OF Cons.prems(1)] Cons.prems(2) by simp
  next
    case (Some m)
    have "length ms < 2 ^ 50" using Cons.prems(2) by simp
    from add_mac_step [OF Cons.prems(1) interface_mac_length [OF Some] this, of realloc_ok]
    obtain r where r: "add_mac realloc_ok m b = returns r"
      "r = None \<or> (\<exists>b'. r = Some b' \<and> mac_inv (ms @ [m]) b')" "(\<forall>n. realloc_ok n) \<longrightarrow> r \<noteq> None"
      by blast
    show ?thesis
    proof (cases r)
      case None
      then show ?thesis using r Some by simp
    next
      case (Some b')
      then have "mac_inv (ms @ [m]) b'" using r by simp
      moreover have "length (ms @ [m]) + length ifs < 2 ^ 50" using Cons.prems(2) by simp
      ultimately obtain r' where r': "collect_macs realloc_ok ifs b' = returns r'"
        "r' = None \<or> (\<exists>b''. r' = Some b'' \<and> mac_inv ((ms @ [m]) @ interface_macs ifs) b'')"
        "(\<forall>n. realloc_ok n) \<longrightarrow> r' \<noteq> None"
        using Cons.IH [of "ms @ [m]" b'] by blast
      have "collect_macs realloc_ok (ifa # ifs) b = returns r'"
        using r(1) r'(1) Some \<open>interface_mac ifa = Some m\<close> by simp
      moreover have "ms @ interface_macs (ifa # ifs) = (ms @ [m]) @ interface_macs ifs"
        using \<open>interface_mac ifa = Some m\<close> by simp
      ultimately show ?thesis using r'(2,3) by (auto simp only:)
    qed
  qed
qed simp

text \<open>C39.
  The list of hardware addresses is built whatever the interfaces: for fewer than \<open>2 ^ 50\<close> of them
  the loops end, the buffer never overflows, and the result is the addresses of the interfaces
  that have one, in order and separated by commas, or nothing when there are none or when memory
  runs out; it is the former when it does not.
\<close>

theorem macs_csv_joins:
  assumes "length ifs < 2 ^ 50"
  shows "\<exists>r. ya_get_macs_csv (Some ifs) malloc_ok realloc_ok = returns r \<and>
    (r = None \<or> r = Some (comma_join (interface_macs ifs))) \<and>
    (malloc_ok \<and> (\<forall>n. realloc_ok n) \<and> interface_macs ifs \<noteq> [] \<longrightarrow> r \<noteq> None)"
proof (cases malloc_ok)
  case True
  have "mac_inv [] \<lparr>mb_cap = 128, mb_text = []\<rparr>" by (simp add: mac_inv_def)
  from collect_macs_step [OF this, of ifs realloc_ok] assms obtain r where
    r: "collect_macs realloc_ok ifs \<lparr>mb_cap = 128, mb_text = []\<rparr> = returns r"
      "r = None \<or> (\<exists>b. r = Some b \<and> mac_inv (interface_macs ifs) b)" "(\<forall>n. realloc_ok n) \<longrightarrow> r \<noteq> None"
    by auto
  show ?thesis
  proof (cases r)
    case (Some b)
    then have b: "mb_text b = comma_join (interface_macs ifs)" "\<forall>m \<in> set (interface_macs ifs). m \<noteq> []"
      using r(2) by (auto simp: mac_inv_def)
    with join_with_empty [OF b(2)] Some r True show ?thesis by (simp add: ya_get_macs_csv_def)
  qed (use r True in \<open>simp add: ya_get_macs_csv_def\<close>)
qed (simp add: ya_get_macs_csv_def)

definition sample_interface :: interface where
  "sample_interface = \<lparr>has_addr = True, loopback = False, is_packet = True, sll_halen = 6,
     sll_addr = [2, 0xAB, 0, 0, 0x10, 0xFF, 0, 0]\<rparr>"

theorem macs_csv_joins_witness:
  "\<exists>r. ya_get_macs_csv (Some [sample_interface, sample_interface\<lparr>loopback := True\<rparr>]) True (\<lambda>_. True) = returns r \<and>
    (r = None \<or> r = Some (comma_join (interface_macs [sample_interface, sample_interface\<lparr>loopback := True\<rparr>])))"
  using macs_csv_joins [of "[sample_interface, sample_interface\<lparr>loopback := True\<rparr>]" True "\<lambda>_. True"] by auto

lemma sample_macs: "interface_macs [sample_interface, sample_interface\<lparr>loopback := True\<rparr>] =
    [bytes_of_string ''02:ab:00:00:10:ff'']"
  by code_simp

section \<open>Making directories\<close>

text \<open>A list of directories in turn, up to the first the system refuses.\<close>

fun mkdir_all :: "u8 list list \<Rightarrow> filesystem \<Rightarrow> filesystem \<times> int" where
  "mkdir_all [] fs = (fs, 0)"
| "mkdir_all (n # ns) fs =
     (case mkdir n fs of (fs', r) \<Rightarrow> if r = Refused then (fs', - 1) else mkdir_all ns fs')"

definition available :: "filesystem \<Rightarrow> u8 list \<Rightarrow> bool" where
  "available fs n \<longleftrightarrow> n \<in> set (dirs fs) \<or> creatable fs n"

lemma mkdir_available:
  "mkdir n fs = (fs', r) \<Longrightarrow> (r \<noteq> Refused \<longleftrightarrow> available fs n) \<and> creatable fs' = creatable fs \<and>
     set (dirs fs') = (if available fs n then insert n (set (dirs fs)) else set (dirs fs))"
  by (auto simp: mkdir_def available_def split: if_splits)

lemma mkdir_all_available:
  "(snd (mkdir_all ns fs) = 0 \<longleftrightarrow> (\<forall>n \<in> set ns. available fs n)) \<and>
   (snd (mkdir_all ns fs) = 0 \<longrightarrow> set (dirs (fst (mkdir_all ns fs))) = set (dirs fs) \<union> set ns)"
proof (induction ns arbitrary: fs)
  case (Cons n ns)
  obtain fs' r where m: "mkdir n fs = (fs', r)" by fastforce
  note a = mkdir_available [OF m]
  show ?case
  proof (cases "available fs n")
    case True
    then have "available fs' k \<longleftrightarrow> available fs k" if "k \<noteq> n" for k
      using a that by (simp add: available_def)
    moreover have "available fs' n" using a True by (simp add: available_def)
    ultimately show ?thesis using a True Cons.IH [of fs'] m by (auto simp: available_def)
  qed (use a m in simp)
qed simp

text \<open>Names of directories, and a path of them; \<open>lead\<close> is a slash or nothing.\<close>

definition plain_name :: "u8 list \<Rightarrow> bool" where
  "plain_name c \<longleftrightarrow> c \<noteq> [] \<and> last c \<noteq> 58 \<and> (\<forall>x \<in> set c. \<not> is_separator x)"

definition ancestors :: "u8 list \<Rightarrow> u8 list list \<Rightarrow> u8 list list" where
  "ancestors lead cs = map (\<lambda>i. lead @ join_with slash (take i cs)) [1..<Suc (length cs)]"

lemma walk_name: "\<forall>x \<in> set c. \<not> is_separator x \<Longrightarrow> ensure_walk passed (c @ rest) fs = ensure_walk (passed @ c) rest fs"
  by (induction c arbitrary: passed) simp_all

lemma ancestors_Cons:
  "cs \<noteq> [] \<Longrightarrow> ancestors lead (c # cs) = (lead @ c) # ancestors (lead @ c @ [slash]) cs"
proof -
  assume ne: "cs \<noteq> []"
  have j: "join_with slash (c # take (Suc i) cs) = c @ [slash] @ join_with slash (take (Suc i) cs)" for i
    using ne by (cases cs) simp_all
  have "[1..<Suc (length (c # cs))] = 1 # map Suc [1..<Suc (length cs)]"
    by (simp add: upt_conv_Cons map_Suc_upt del: upt_Suc)
  then have "ancestors lead (c # cs) =
      (lead @ c) # map (\<lambda>i. lead @ join_with slash (take (Suc i) (c # cs))) [1..<Suc (length cs)]"
    by (simp only: ancestors_def list.map map_map comp_def) simp
  moreover have "map (\<lambda>i. lead @ join_with slash (take (Suc i) (c # cs))) [1..<Suc (length cs)] =
      ancestors (lead @ c @ [slash]) cs"
    unfolding ancestors_def
  proof (rule map_cong [OF refl])
    fix i assume "i \<in> set [1..<Suc (length cs)]"
    then have "i \<noteq> 0" by (simp only: set_upt atLeastLessThan_iff) simp
    then obtain k where "i = Suc k" by (cases i) simp_all
    with j [of k] show "lead @ join_with slash (take (Suc i) (c # cs)) = (lead @ c @ [slash]) @ join_with slash (take i cs)"
      by simp
  qed
  ultimately show ?thesis by simp
qed

lemma walk_path:
  "cs \<noteq> [] \<Longrightarrow> list_all plain_name cs \<Longrightarrow>
     ensure_walk passed (join_with slash cs) fs = mkdir_all (ancestors passed cs) fs"
proof (induction cs arbitrary: passed fs rule: induct_list012)
  case (2 c)
  then have "ensure_walk passed (c @ []) fs = ensure_walk (passed @ c) [] fs"
    by (intro walk_name) (simp add: plain_name_def)
  then show ?case by (simp add: ancestors_def split: prod.split)
next
  case (3 c d cs)
  then have c: "\<forall>x \<in> set c. \<not> is_separator x" "passed @ c \<noteq> []" "last (passed @ c) \<noteq> 58"
    by (simp_all add: plain_name_def)
  have "ensure_walk passed (join_with slash (c # d # cs)) fs =
      ensure_walk (passed @ c) (slash # join_with slash (d # cs)) fs"
    using walk_name [OF c(1)] by simp
  also have "\<dots> = (case mkdir (passed @ c) fs of (fs', r) \<Rightarrow>
      if r = Refused then (fs', - 1) else ensure_walk ((passed @ c) @ [slash]) (join_with slash (d # cs)) fs')"
    using c(2,3) by (auto simp: is_separator_def)
  also have "\<dots> = mkdir_all (ancestors passed (c # d # cs)) fs"
    using 3 by (simp add: ancestors_Cons split: prod.split)
  finally show ?case .
qed simp

lemma last_join: "cs \<noteq> [] \<Longrightarrow> list_all plain_name cs \<Longrightarrow> join_with sep cs \<noteq> [] \<and> last (join_with sep cs) = last (last cs)"
  by (induction sep cs rule: join_with.induct) (auto simp: plain_name_def)

text \<open>
  A directory is made with all its ancestors.  For a path of plain names, absolute or relative and
  of at most 511 bytes, the call succeeds exactly when each ancestor, the path included, exists or
  may be created; then the directories are those there were, the ancestors and the path.
\<close>

theorem ensure_dir_creates:
  assumes "cs \<noteq> []" "list_all plain_name cs" "lead \<in> {[], [slash]}"
    and "length (lead @ join_with slash cs) \<le> 511"
  shows "(snd (ya_ensure_dir (Some (lead @ join_with slash cs)) fs) = 0 \<longleftrightarrow>
      (\<forall>n \<in> set (ancestors lead cs). available fs n)) \<and>
    (snd (ya_ensure_dir (Some (lead @ join_with slash cs)) fs) = 0 \<longrightarrow>
      set (dirs (fst (ya_ensure_dir (Some (lead @ join_with slash cs)) fs))) = set (dirs fs) \<union> set (ancestors lead cs))"
proof -
  let ?p = "lead @ join_with slash cs"
  have l: "join_with slash cs \<noteq> []" "last (join_with slash cs) = last (last cs)"
    using last_join [OF assms(1,2)] by blast+
  have "plain_name (last cs)" using assms(1,2) by (simp add: list_all_iff)
  then have nosep: "\<not> is_separator (last ?p)" using l by (simp add: plain_name_def)
  have "ensure_walk [] ?p fs = ensure_walk lead (join_with slash cs) fs"
    using assms(3) by (auto simp: is_separator_def)
  then have "ya_ensure_dir (Some ?p) fs = mkdir_all (ancestors lead cs) fs"
    using l(1) nosep assms(4) walk_path [OF assms(1,2)] by (simp add: ya_ensure_dir_def Let_def)
  then show ?thesis using mkdir_all_available [of "ancestors lead cs" fs] by simp
qed

theorem ensure_dir_creates_witness:
  "snd (ya_ensure_dir (Some ([slash] @ join_with slash [bytes_of_string ''var'', bytes_of_string ''log'']))
     \<lparr>dirs = [], creatable = \<lambda>_. True\<rparr>) = 0"
proof -
  have "list_all plain_name [bytes_of_string ''var'', bytes_of_string ''log'']" by code_simp
  from ensure_dir_creates [OF _ this, of "[slash]" "\<lparr>dirs = [], creatable = \<lambda>_. True\<rparr>"]
  show ?thesis by (simp add: bytes_of_string_def available_def)
qed

text \<open>A normalized path has no backslash, does not end in a slash, and is a fixed point.\<close>

lemma normalized:
  "backslash \<notin> set (ya_normalize_path path) \<and> (ya_normalize_path path \<noteq> [] \<longrightarrow> last (ya_normalize_path path) \<noteq> slash) \<and>
     ya_normalize_path (ya_normalize_path path) = ya_normalize_path path"
proof -
  let ?m = "map (\<lambda>c. if c = backslash then slash else c)"
  let ?n = "ya_normalize_path path"
  have b: "backslash \<notin> set ?n" by (auto simp: ya_normalize_path_def dest!: set_dropWhileD)
  moreover have e: "?n \<noteq> [] \<Longrightarrow> last ?n \<noteq> slash"
    using hd_dropWhile [of "\<lambda>c. c = slash" "rev (?m path)"] by (auto simp: ya_normalize_path_def last_rev)
  moreover have "?m ?n = ?n" using b by (intro map_idI) auto
  then have "ya_normalize_path ?n = ?n" using e
    unfolding ya_normalize_path_def [of ?n]
    by (cases "rev ?n") (auto simp: last_rev [symmetric] hd_rev)
  ultimately show ?thesis by blast
qed

section \<open>The scale\<close>

lemma scale_positive: "positive (ya_primary_scale getenv strtod)"
  by (simp add: ya_primary_scale_def Let_def positive_def)

lemma round32_overflow:
  assumes "2 powi 128 \<le> q" shows "round32 q = PosInf"
proof -
  have q: "0 < q" using assms powi_2_pos [of 128] by linarith
  let ?k = "fp_quantum 24 (-149) q"
  have ge: "2 powi 128 \<le> of_int (round_half_even (q / 2 powi ?k)) * (2 powi ?k :: rat)"
  proof (cases "?k \<le> 128")
    case True
    have "(2 :: rat) powi (128 - ?k) * 2 powi ?k = 2 powi 128" by (simp flip: powi_2_split)
    moreover have z: "(2 :: rat) powi (128 - ?k) = of_int (2 ^ nat (128 - ?k))" using True by (intro powi_2_nonneg_int) simp
    ultimately have "of_int (2 ^ nat (128 - ?k)) \<le> q / 2 powi ?k"
      using assms by (simp add: pos_le_divide_eq)
    then have "2 ^ nat (128 - ?k) \<le> round_half_even (q / 2 powi ?k)" by (rule round_half_even_ge)
    then have "(2 :: rat) powi (128 - ?k) \<le> of_int (round_half_even (q / 2 powi ?k))" unfolding z by (simp only: of_int_le_iff)
    then have "(2 :: rat) powi (128 - ?k) * 2 powi ?k \<le> of_int (round_half_even (q / 2 powi ?k)) * 2 powi ?k"
      by (rule mult_right_mono) (simp add: less_imp_le)
    then show ?thesis by (simp flip: powi_2_split)
  next
    case False
    then have k: "?k = ilog2 q - 23" using q by (simp add: fp_quantum_def)
    have "2 powi ilog2 q \<le> q" using ilog2_bounds [OF q] by simp
    then have "1 * 2 powi ?k \<le> q" using k powi_2_mono [of ?k "ilog2 q"] by (auto intro: order_trans)
    then have "of_int 1 \<le> q / 2 powi ?k" by (simp add: pos_le_divide_eq)
    then have "1 \<le> round_half_even (q / 2 powi ?k)" by (rule round_half_even_ge)
    then have "1 * 2 powi ?k \<le> of_int (round_half_even (q / 2 powi ?k)) * (2 powi ?k :: rat)"
      by (intro mult_right_mono) (simp_all add: less_imp_le)
    then have "2 powi ?k \<le> of_int (round_half_even (q / 2 powi ?k)) * (2 powi ?k :: rat)" by (simp only: mult_1)
    moreover have "(2 :: rat) powi 128 \<le> 2 powi ?k" using False by (intro powi_2_mono) simp
    ultimately show ?thesis by (rule order_trans [rotated])
  qed
  then have "2 powi 128 \<le> \<bar>of_int (round_half_even (q / 2 powi ?k)) * (2 powi ?k :: rat)\<bar>" by linarith
  with q show ?thesis by (simp add: round32_def fp_round_def Let_def)
qed

text \<open>
  The scale can be infinite.  A finite number of at least \<open>2 ^ 128\<close> in the variable that overrides
  the scale passes the test for finite numbers, which is made before the conversion to
  \<open>float\<close>, and the scale is infinity.
\<close>

theorem scale_can_be_infinite:
  assumes "getenv ''MH_DISPLAY_SCALE'' = Some v" "v \<noteq> []" "strtod v = (Fin q, n)" "0 < n" "2 powi 128 \<le> q"
  shows "ya_primary_scale getenv strtod = PosInf"
proof -
  have "0 < q" using assms(5) powi_2_pos [of 128] by linarith
  then have "ya_parse_scale_env getenv strtod ''MH_DISPLAY_SCALE'' = PosInf"
    using assms round32_overflow by (simp add: ya_parse_scale_env_def fp_le_def)
  then show ?thesis by (simp add: ya_primary_scale_def positive_def)
qed

theorem scale_can_be_infinite_witness:
  "ya_primary_scale (\<lambda>n. if n = ''MH_DISPLAY_SCALE'' then Some (bytes_of_string ''1e39'') else None)
     (\<lambda>v. (Fin (10 ^ 39), length v)) = PosInf"
proof (rule scale_can_be_infinite)
  show "(\<lambda>v. (Fin (10 ^ 39), length v)) (bytes_of_string ''1e39'') = (Fin (10 ^ 39), 4)"
    by (simp add: bytes_of_string_def)
qed (simp_all add: bytes_of_string_def power_int_def)

end
