(* ===== verification/Logger.thy ===== *)
theory Logger
  imports Utils
begin

text \<open>
  The logger of \<open>ya_logger.h\<close> and \<open>ya_logger.c\<close> (Linux release build): levels, the line written for
  a message, and the rotation of the log file into numbered backups.

  The name of the log file is a pointer into the configuration, as \<open>init_logger\<close> passes it, and
  is read at every message.  Files are their contents by name; a stream is the name it was opened
  with, and appends to that file.  A message is its formatted text, before it is cut to its buffer;
  the time stamp is the text \<open>strftime\<close> makes.
\<close>

section \<open>Levels\<close>

datatype ya_log_level =
    YA_LOG_LEVEL_TRACE | YA_LOG_LEVEL_DEBUG | YA_LOG_LEVEL_INFO | YA_LOG_LEVEL_WARN
  | YA_LOG_LEVEL_ERROR | YA_LOG_LEVEL_FATAL | YA_LOG_LEVEL_OFF

fun level_number :: "ya_log_level \<Rightarrow> nat" where
  "level_number YA_LOG_LEVEL_TRACE = 0"
| "level_number YA_LOG_LEVEL_DEBUG = 1"
| "level_number YA_LOG_LEVEL_INFO = 2"
| "level_number YA_LOG_LEVEL_WARN = 3"
| "level_number YA_LOG_LEVEL_ERROR = 4"
| "level_number YA_LOG_LEVEL_FATAL = 5"
| "level_number YA_LOG_LEVEL_OFF = 6"

lemma level_number_inject: "level_number a = level_number b \<Longrightarrow> a = b"
  by (cases a; cases b) simp_all

text \<open>Levels are compared by their numbers.\<close>

instantiation ya_log_level :: linorder
begin

definition less_eq_ya_log_level :: "ya_log_level \<Rightarrow> ya_log_level \<Rightarrow> bool" where
  "less_eq_ya_log_level a b \<longleftrightarrow> level_number a \<le> level_number b"

definition less_ya_log_level :: "ya_log_level \<Rightarrow> ya_log_level \<Rightarrow> bool" where
  "less_ya_log_level a b \<longleftrightarrow> level_number a < level_number b"

instance
  by standard (auto simp: less_eq_ya_log_level_def less_ya_log_level_def intro: level_number_inject)

end

fun ya_logger_level_name :: "ya_log_level \<Rightarrow> u8 list" where
  "ya_logger_level_name YA_LOG_LEVEL_TRACE = bytes_of_string ''TRACE''"
| "ya_logger_level_name YA_LOG_LEVEL_DEBUG = bytes_of_string ''DEBUG''"
| "ya_logger_level_name YA_LOG_LEVEL_INFO = bytes_of_string ''INFO''"
| "ya_logger_level_name YA_LOG_LEVEL_WARN = bytes_of_string ''WARN''"
| "ya_logger_level_name YA_LOG_LEVEL_ERROR = bytes_of_string ''ERROR''"
| "ya_logger_level_name YA_LOG_LEVEL_FATAL = bytes_of_string ''FATAL''"
| "ya_logger_level_name YA_LOG_LEVEL_OFF = bytes_of_string ''OFF''"

section \<open>State\<close>

record ya_logger_config =
  lc_level :: ya_log_level
  lc_log_file :: "cfg_ptr option"
  lc_use_console :: bool
  lc_use_system_log :: bool
  lc_max_file_size :: u64
  lc_max_backup_files :: i32

record ya_logger =
  lg_config :: ya_logger_config
  log_fp :: "u8 list option"
  lg_last_error :: "u8 list option"

text \<open>
  What the logger works on: the configuration its file name is in, the files, which of them can be
  opened for appending and written, the text of the last system error, the directories, the time
  stamp, the console, and the system log with the priorities of its entries.
\<close>

record log_world =
  settings_cfg :: YA_Config
  files :: "u8 list \<Rightarrow> u8 list option"
  can_open :: "u8 list \<Rightarrow> bool"
  can_write :: bool
  errno_text :: "u8 list"
  log_dirs :: filesystem
  stamp :: "u8 list"
  console :: "u8 list"
  syslog_entries :: "(int \<times> u8 list) list"

definition MAX_TIMESTAMP_SIZE :: nat where "MAX_TIMESTAMP_SIZE = 32"
definition MAX_MESSAGE_SIZE :: nat where "MAX_MESSAGE_SIZE = 8192"
definition MAX_FINAL_MESSAGE_SIZE :: nat where "MAX_FINAL_MESSAGE_SIZE = 16384"

text \<open>\<open>fopen\<close> for appending makes a file there was not.\<close>

definition open_append :: "u8 list \<Rightarrow> log_world \<Rightarrow> log_world \<times> u8 list option" where
  "open_append name w =
     (if can_open w name then
        (w\<lparr>files := (files w)(name := Some (case files w name of None \<Rightarrow> [] | Some c \<Rightarrow> c))\<rparr>, Some name)
      else (w, None))"

text \<open>\<open>rename\<close> fails when there is no such file; its result is not looked at.\<close>

definition rename_file :: "'n \<Rightarrow> 'n \<Rightarrow> ('n \<Rightarrow> 'c option) \<Rightarrow> ('n \<Rightarrow> 'c option)" where
  "rename_file old_name new_name fs =
     (case fs old_name of
        None \<Rightarrow> fs
      | Some c \<Rightarrow> if old_name = new_name then fs else fs(old_name := None, new_name := Some c))"

section \<open>Rotation\<close>

text \<open>\<open>%d\<close> of a number that is not negative.\<close>

fun decimal :: "nat \<Rightarrow> u8 list" where
  "decimal n = (if n < 10 then [word_of_nat (48 + n)] else decimal (n div 10) @ [word_of_nat (48 + n mod 10)])"

declare decimal.simps [simp del]

text \<open>The names are cut to their buffers of 256 bytes.\<close>

definition backup_name :: "u8 list \<Rightarrow> nat \<Rightarrow> u8 list" where
  "backup_name log_file i = take 255 (if i = 0 then log_file else log_file @ [46] @ decimal i)"

text \<open>The loop from \<open>n - 1\<close> down to 0, over the names of the log file (0) and its backups.\<close>

fun rotate_files :: "(nat \<Rightarrow> 'n) \<Rightarrow> nat \<Rightarrow> ('n \<Rightarrow> 'c option) \<Rightarrow> ('n \<Rightarrow> 'c option)" where
  "rotate_files name 0 fs = fs"
| "rotate_files name (Suc i) fs = rotate_files name i (rename_file (name i) (name (Suc i)) fs)"

text \<open>
  The size is compared as an unsigned number.  The first index overflows for the least number of
  backups.  A stream that cannot be opened again is a null
  pointer afterwards.
\<close>

definition check_and_rotate_log :: "ya_logger \<Rightarrow> log_world \<Rightarrow> (ya_logger \<times> log_world) ub" where
  "check_and_rotate_log lg w =
     (case (lc_log_file (lg_config lg), log_fp lg) of
        (Some p, Some _) \<Rightarrow>
          ub_bind (cfg_deref (settings_cfg w) p) (\<lambda>name.
            case files w name of
              None \<Rightarrow> Defined (lg, w)
            | Some contents \<Rightarrow>
                if lc_max_file_size (lg_config lg) \<le> word_of_nat (length contents) then
                  let n = sint (lc_max_backup_files (lg_config lg));
                      w1 = w\<lparr>files := rotate_files (backup_name name) (nat n) (files w)\<rparr>
                  in if n = - (2 ^ 31) then UB
                  else case open_append name w1 of (w2, fp) \<Rightarrow> Defined (lg\<lparr>log_fp := fp\<rparr>, w2)
                else Defined (lg, w))
      | _ \<Rightarrow> Defined (lg, w))"

section \<open>Messages\<close>

fun syslog_level :: "ya_log_level \<Rightarrow> int" where
  "syslog_level YA_LOG_LEVEL_TRACE = 7"
| "syslog_level YA_LOG_LEVEL_DEBUG = 7"
| "syslog_level YA_LOG_LEVEL_INFO = 6"
| "syslog_level YA_LOG_LEVEL_WARN = 4"
| "syslog_level YA_LOG_LEVEL_ERROR = 3"
| "syslog_level YA_LOG_LEVEL_FATAL = 2"
| "syslog_level YA_LOG_LEVEL_OFF = 6"

definition write_to_system_log :: "ya_log_level \<Rightarrow> u8 list \<Rightarrow> log_world \<Rightarrow> log_world" where
  "write_to_system_log level message w =
     w\<lparr>syslog_entries := syslog_entries w @ [(syslog_level level, message)]\<rparr>"

text \<open>\<open>strftime\<close> leaves nothing when the result does not fit.\<close>

definition format_timestamp :: "u8 list \<Rightarrow> nat \<Rightarrow> u8 list" where
  "format_timestamp text n = (if length text < n then text else [])"

text \<open>
  The line: each part is appended by \<open>snprintf\<close> into what is left of the buffer (\<open>put_part\<close>), and
  \<open>written\<close> counts what would have been written.
\<close>

definition put_part :: "u8 list \<Rightarrow> u8 list \<times> nat \<Rightarrow> u8 list \<times> nat" where
  "put_part part = (\<lambda>(buf, written).
     (take written buf @ take (MAX_FINAL_MESSAGE_SIZE - written - 1) part, written + length part))"

definition final_message :: "u8 list \<Rightarrow> ya_log_level \<Rightarrow> u8 list \<Rightarrow> u8 list" where
  "final_message timestamp level message =
     fst (put_part (message @ [10])
       (put_part ([91] @ ya_logger_level_name level @ [93, 32])
         (put_part ([91] @ timestamp @ [93, 32]) ([], 0))))"

text \<open>The stream's name after rotation; writing to a null stream is undefined behaviour.\<close>

definition write_log_file :: "u8 list \<Rightarrow> ya_logger \<Rightarrow> log_world \<Rightarrow> (ya_logger \<times> log_world) ub" where
  "write_log_file line lg w =
     (if log_fp lg = None then Defined (lg, w)
      else ub_bind (check_and_rotate_log lg w) (\<lambda>(lg1, w1).
        case log_fp lg1 of
          None \<Rightarrow> UB
        | Some name \<Rightarrow>
            if can_write w1 then
              Defined (lg1, w1\<lparr>files := (files w1)(name := Some
                ((case files w1 name of None \<Rightarrow> [] | Some c \<Rightarrow> c) @ line))\<rparr>)
            else Defined (lg1\<lparr>lg_last_error := Some (errno_text w1)\<rparr>, w1)))"

definition ya_logger_log ::
  "ya_log_level \<Rightarrow> u8 list option \<Rightarrow> ya_logger option \<Rightarrow> log_world \<Rightarrow> (ya_logger option \<times> log_world) ub" where
  "ya_logger_log level formatted logger w =
     (case (logger, formatted) of
        (Some lg, Some text) \<Rightarrow>
          if level = YA_LOG_LEVEL_OFF \<or> level < lc_level (lg_config lg) then Defined (logger, w)
          else
            let timestamp = format_timestamp (stamp w) MAX_TIMESTAMP_SIZE;
                message = take (MAX_MESSAGE_SIZE - 1) text;
                line = final_message timestamp level message
            in ub_bind (write_log_file line lg w) (\<lambda>(lg1, w1).
                 let w2 = (if lc_use_console (lg_config lg1) then w1\<lparr>console := console w1 @ line\<rparr> else w1);
                     w3 = (if lc_use_system_log (lg_config lg1) then write_to_system_log level message w2 else w2)
                 in Defined (Some lg1, w3))
      | _ \<Rightarrow> Defined (logger, w))"

section \<open>Life cycle\<close>

text \<open>
  The directory of the log file is made, but not its ancestors; the result is not looked at.  A
  directory name of 256 bytes or more is skipped.
\<close>

definition make_log_dir :: "u8 list \<Rightarrow> log_world \<Rightarrow> log_world" where
  "make_log_dir name w =
     (let dir = rev (tl (dropWhile (\<lambda>c. c \<noteq> slash) (rev name))) in
      if slash \<in> set name \<and> length dir < 256
      then w\<lparr>log_dirs := fst (mkdir dir (log_dirs w))\<rparr> else w)"

definition ya_logger_init ::
  "bool \<Rightarrow> ya_logger_config option \<Rightarrow> ya_logger option \<Rightarrow> log_world \<Rightarrow> (ya_logger option \<times> ya_logger option \<times> log_world) ub" where
  "ya_logger_init malloc_ok cfg g_logger w =
     (case cfg of
        None \<Rightarrow> Defined (None, g_logger, w)
      | Some c \<Rightarrow>
          if \<not> malloc_ok then Defined (None, g_logger, w)
          else
            let logger = \<lparr>lg_config = c, log_fp = None, lg_last_error = None\<rparr>
            in case lc_log_file c of
                 None \<Rightarrow> Defined (Some logger, Some logger, w)
               | Some p \<Rightarrow>
                   ub_bind (cfg_deref (settings_cfg w) p) (\<lambda>name.
                     case open_append name (make_log_dir name w) of
                       (w1, None) \<Rightarrow> Defined (None, g_logger, w1)
                     | (w1, Some fp) \<Rightarrow> Defined (Some (logger\<lparr>log_fp := Some fp\<rparr>), Some (logger\<lparr>log_fp := Some fp\<rparr>), w1)))"

text \<open>The global logger is the only one; destroying it leaves none.\<close>

definition ya_logger_destroy :: "ya_logger option \<Rightarrow> ya_logger option" where
  "ya_logger_destroy g_logger = None"

definition ya_logger_set_level :: "ya_log_level \<Rightarrow> ya_logger option \<Rightarrow> ya_logger option" where
  "ya_logger_set_level level logger =
     map_option (\<lambda>lg. lg\<lparr>lg_config := (lg_config lg)\<lparr>lc_level := level\<rparr>\<rparr>) logger"

section \<open>Numbers in names\<close>

lemma digits_value_snoc: "digits_value (ds @ [d]) = 10 * digits_value ds + (int (unat d) - 48)"
  by (simp add: digits_value_def)

lemma unat_digit: "n < 10 \<Longrightarrow> unat (word_of_nat (48 + n) :: u8) = 48 + n"
  by (subst unat_of_nat) (simp add: take_bit_nat_eq_self)

lemma uint_digit: "n < 10 \<Longrightarrow> uint (48 + word_of_nat n :: u8) = 48 + int n"
proof -
  assume "n < 10"
  have "uint (word_of_nat (48 + n) :: u8) = int (unat (word_of_nat (48 + n) :: u8))" by (rule uint_nat)
  also have "\<dots> = 48 + int n" unfolding unat_digit [OF \<open>n < 10\<close>] by simp
  finally show ?thesis by simp
qed

lemma decimal_value: "digits_value (decimal n) = int n"
proof (induction n rule: decimal.induct)
  case (1 n)
  show ?case
  proof (cases "n < 10")
    case True
    then show ?thesis by (simp add: decimal.simps digits_value_def uint_digit)
  next
    case False
    then have "decimal n = decimal (n div 10) @ [word_of_nat (48 + n mod 10)]" by (simp add: decimal.simps)
    then show ?thesis using 1 False uint_digit [of "n mod 10"] by (simp add: digits_value_snoc) presburger
  qed
qed

lemma decimal_digits: "\<forall>d \<in> set (decimal n). is_digit d"
proof (induction n rule: decimal.induct)
  case (1 n)
  have d: "is_digit (word_of_nat (48 + k))" if "k < 10" for k
    unfolding is_digit_def word_le_nat_alt unat_digit [OF that] using that by simp
  show ?case
  proof (cases "n < 10")
    case True
    then show ?thesis using d [OF True] by (simp add: decimal.simps)
  next
    case False
    then have "decimal n = decimal (n div 10) @ [word_of_nat (48 + n mod 10)]" by (subst decimal.simps) simp
    moreover have "is_digit (word_of_nat (48 + n mod 10))" by (rule d) simp
    ultimately show ?thesis using 1 [OF False] by (simp only: set_append ball_Un list.set ball_simps)
  qed
qed

lemma decimal_inject: "decimal m = decimal n \<Longrightarrow> m = n"
  by (drule arg_cong [where f = digits_value]) (simp only: decimal_value of_nat_eq_iff)

lemma decimal_nonempty: "decimal n \<noteq> []"
  by (subst decimal.simps) simp

lemma decimal_length: "n < 10 ^ Suc k \<Longrightarrow> length (decimal n) \<le> Suc k"
proof (induction k arbitrary: n)
  case (Suc k)
  then have "n div 10 < 10 ^ Suc k" by (simp add: div_less_iff_less_mult)
  from Suc.IH [OF this] show ?case by (subst decimal.simps) simp
qed (simp add: decimal.simps)

lemma backup_name_inj:
  assumes "length f \<le> 244" "n < 2 ^ 31"
  shows "inj_on (backup_name f) {..n}"
proof (rule inj_onI)
  fix i j assume ij: "i \<in> {..n}" "j \<in> {..n}" and eq: "backup_name f i = backup_name f j"
  have len: "length (decimal k) \<le> 10" if "k \<in> {..n}" for k
    by (rule decimal_length [of k 9, simplified]) (use that assms(2) in simp)
  have whole: "backup_name f k = (if k = 0 then f else f @ [46] @ decimal k)" if "k \<in> {..n}" for k
    using len [OF that] assms(1) by (simp add: backup_name_def)
  from eq show "i = j" unfolding whole [OF ij(1)] whole [OF ij(2)]
    by (auto split: if_splits dest: decimal_inject)
qed

section \<open>Rotation\<close>

text \<open>
  Files with numbered names: what moving each to the next number does, and the history of their
  contents from the highest number to the lowest.
\<close>

definition slot :: "('n \<Rightarrow> 'c list option) \<Rightarrow> 'n \<Rightarrow> 'c list" where
  "slot fs x = (case fs x of None \<Rightarrow> [] | Some c \<Rightarrow> c)"

definition history :: "(nat \<Rightarrow> 'n) \<Rightarrow> nat \<Rightarrow> ('n \<Rightarrow> 'c list option) \<Rightarrow> 'c list" where
  "history name n fs = concat (map (\<lambda>i. slot fs (name i)) (rev [0..<Suc n]))"

locale rotation =
  fixes name :: "'f \<Rightarrow> nat \<Rightarrow> 'n" and ok :: "'f \<Rightarrow> nat \<Rightarrow> bool"
  assumes names_distinct: "ok f n \<Longrightarrow> inj_on (name f) {..n}"
begin

lemma name_eq: "ok f n \<Longrightarrow> i \<le> n \<Longrightarrow> j \<le> n \<Longrightarrow> name f i = name f j \<longleftrightarrow> i = j"
  using names_distinct [of f n] by (auto simp: inj_on_def)

lemma rotated:
  assumes "ok f n" "m \<le> n" "j \<le> n"
  shows "rotate_files (name f) m fs (name f j) =
    (if m < j \<or> m = 0 then fs (name f j)
     else if j = 0 then None
     else case fs (name f (j - 1)) of Some c \<Rightarrow> Some c | None \<Rightarrow> if j = m then fs (name f j) else None)"
  using assms(2)
proof (induction m arbitrary: fs)
  case (Suc m)
  have ne: "name f m \<noteq> name f (Suc m)" using name_eq [OF assms(1), of m "Suc m"] Suc.prems by simp
  have moved: "rename_file (name f m) (name f (Suc m)) fs (name f k) =
      (case fs (name f m) of None \<Rightarrow> fs (name f k)
       | Some c \<Rightarrow> if k = m then None else if k = Suc m then Some c else fs (name f k))" if "k \<le> n" for k
    using ne name_eq [OF assms(1) that, of m] name_eq [OF assms(1) that, of "Suc m"] Suc.prems
    by (auto simp: rename_file_def split: option.split)
  show ?case
    using Suc.IH [of "rename_file (name f m) (name f (Suc m)) fs"] Suc.prems assms(3)
      moved [OF assms(3)] moved [of "j - 1"]
    by (cases "fs (name f m)") (auto split: option.split)
qed simp

lemma rotated_slot:
  assumes "ok f n" "0 < n" "j \<le> n"
  shows "slot (rotate_files (name f) n fs) (name f j) =
    (if j = 0 then [] else if j = n \<and> fs (name f (j - 1)) = None then slot fs (name f n) else slot fs (name f (j - 1)))"
  using rotated [OF assms(1) order_refl assms(3), of fs] assms(2,3)
  by (cases "fs (name f (j - 1))") (simp_all add: slot_def)

lemma rotated_other:
  "x \<notin> name f ` {..n} \<Longrightarrow> rotate_files (name f) n fs x = fs x"
  by (induction n arbitrary: fs) (auto simp: rename_file_def atMost_Suc split: option.split)

text \<open>Rotation forgets at most the contents of the oldest file.\<close>

lemma history_rotated:
  assumes "ok f n"
  shows "\<exists>dropped. history (name f) n fs = dropped @ history (name f) n (rotate_files (name f) n fs) \<and>
    (dropped = [] \<or> dropped = slot fs (name f n))"
proof (cases n)
  case (Suc m)
  let ?fs' = "rotate_files (name f) n fs" and ?s = "\<lambda>i. slot fs (name f i)"
  have "[1..<n] = map Suc [0..<m]" using Suc by (simp add: map_Suc_upt)
  then have "map (\<lambda>i. slot ?fs' (name f i)) [1..<n] = map (\<lambda>i. slot ?fs' (name f (Suc i))) [0..<m]"
    by (simp only: map_map comp_def)
  also have "\<dots> = map ?s [0..<m]"
  proof (rule map_cong [OF refl])
    fix x assume "x \<in> set [0..<m]"
    then show "slot ?fs' (name f (Suc x)) = ?s x"
      using rotated_slot [OF assms, of "Suc x" fs] Suc by (simp del: rotate_files.simps)
  qed
  finally have "map (\<lambda>i. slot ?fs' (name f i)) [1..<n] = map ?s [0..<m]" .
  then have mid: "concat (map (\<lambda>i. slot ?fs' (name f i)) (rev [1..<n])) = concat (map ?s (rev [0..<m]))"
    by (simp add: rev_map [symmetric])
  have z: "slot ?fs' (name f 0) = []" using rotated_slot [OF assms, of 0] Suc by simp
  have split0: "[0..<Suc n] = 0 # [1..<n] @ [n]" using Suc by (simp add: upt_conv_Cons)
  have after: "history (name f) n ?fs' = slot ?fs' (name f n) @ concat (map ?s (rev [0..<m]))"
    using mid z by (simp add: history_def split0 del: upt_Suc)
  have bef: "history (name f) n fs = ?s n @ ?s m @ concat (map ?s (rev [0..<m]))"
    by (simp add: history_def Suc)
  show ?thesis
  proof (cases "fs (name f m)")
    case None
    then have "slot ?fs' (name f n) = ?s n" using rotated_slot [OF assms, of n fs] Suc by (simp del: rotate_files.simps)
    moreover have "?s m = []" using None by (simp add: slot_def)
    ultimately show ?thesis unfolding after bef by simp
  next
    case (Some c)
    then have "slot ?fs' (name f n) = ?s m" using rotated_slot [OF assms, of n fs] Suc by (simp del: rotate_files.simps)
    then show ?thesis unfolding after bef by simp
  qed
qed simp

end

interpretation backups: rotation backup_name "\<lambda>f n. length f \<le> 244 \<and> n < 2 ^ 31"
  by unfold_locales (use backup_name_inj in blast)

text \<open>Writing to the log file appends to the history.\<close>

lemma history_append:
  assumes "length f \<le> 244 \<and> n < 2 ^ 31"
  shows "history (backup_name f) n (fs(f := Some (slot fs f @ line))) = history (backup_name f) n fs @ line"
proof -
  have f: "backup_name f 0 = f" using assms by (simp add: backup_name_def)
  have other: "slot (fs(f := Some c)) (backup_name f i) = slot fs (backup_name f i)" if "i \<in> set [1..<Suc n]" for i c
    using backups.name_eq [OF assms, of i 0] that f by (auto simp: slot_def)
  have split0: "[0..<Suc n] = 0 # [1..<Suc n]" by (simp add: upt_conv_Cons)
  have "map (\<lambda>i. slot (fs(f := Some (slot fs f @ line))) (backup_name f i)) (rev [1..<Suc n]) =
      map (\<lambda>i. slot fs (backup_name f i)) (rev [1..<Suc n])"
    using other by (intro map_cong) (simp_all del: upt_Suc)
  then show ?thesis by (simp only: history_def split0 rev.simps map_append concat_append f) (simp add: slot_def f)
qed

section \<open>The line of a message\<close>

abbreviation line_limit :: nat where "line_limit \<equiv> 8234"

lemma level_name_length: "length (ya_logger_level_name lv) \<le> 5"
  by (cases lv) (simp_all add: bytes_of_string_def)

lemma final_message_exact:
  assumes "length ts \<le> 31" "length msg \<le> 8191"
  shows "final_message ts lv msg = [91] @ ts @ [93, 32] @ [91] @ ya_logger_level_name lv @ [93, 32] @ msg @ [10] \<and>
    length (final_message ts lv msg) \<le> line_limit"
  using assms level_name_length [of lv] by (simp add: final_message_def put_part_def MAX_FINAL_MESSAGE_SIZE_def)

definition log_line :: "u8 list \<Rightarrow> ya_log_level \<Rightarrow> u8 list \<Rightarrow> u8 list" where
  "log_line st lv body = final_message (format_timestamp st MAX_TIMESTAMP_SIZE) lv (take (MAX_MESSAGE_SIZE - 1) body)"

lemma log_line_length: "length (log_line st lv body) \<le> line_limit"
  unfolding log_line_def
  by (rule final_message_exact [THEN conjunct2])
    (simp_all add: format_timestamp_def MAX_TIMESTAMP_SIZE_def MAX_MESSAGE_SIZE_def)

section \<open>Logging to a file\<close>

definition enabled :: "ya_logger \<Rightarrow> ya_log_level \<Rightarrow> bool" where
  "enabled lg lv \<longleftrightarrow> lv \<noteq> YA_LOG_LEVEL_OFF \<and> lc_level (lg_config lg) \<le> lv"

definition backups_of :: "ya_logger \<Rightarrow> nat" where
  "backups_of lg = nat (sint (lc_max_backup_files (lg_config lg)))"

text \<open>
  A logger in order: its file's name is in the configuration and short, the file is open, can be
  opened again and written, and the number of backups is not negative.
\<close>

definition logging_to :: "u8 list \<Rightarrow> ya_logger \<Rightarrow> log_world \<Rightarrow> bool" where
  "logging_to f lg w \<longleftrightarrow>
     (\<exists>p. lc_log_file (lg_config lg) = Some p \<and> cfg_deref (settings_cfg w) p = Defined f) \<and>
     log_fp lg = Some f \<and> files w f \<noteq> None \<and> can_open w f \<and> can_write w \<and>
     length f \<le> 244 \<and> 0 \<le> sint (lc_max_backup_files (lg_config lg))"

text \<open>The files after one line.\<close>

definition files_after :: "u8 list \<Rightarrow> ya_logger \<Rightarrow> u8 list \<Rightarrow> (u8 list \<Rightarrow> u8 list option) \<Rightarrow> (u8 list \<Rightarrow> u8 list option)" where
  "files_after f lg line fs =
     (let r = (if lc_max_file_size (lg_config lg) \<le> word_of_nat (length (slot fs f))
               then rotate_files (backup_name f) (backups_of lg) fs else fs)
      in r(f := Some (slot r f @ line)))"

lemma backups_ok: "logging_to f lg w \<Longrightarrow> length f \<le> 244 \<and> backups_of lg < 2 ^ 31"
  using sint_i32_range [of "lc_max_backup_files (lg_config lg)"] by (auto simp: logging_to_def backups_of_def)

lemma write_log_file_step:
  assumes "logging_to f lg w"
  shows "write_log_file line lg w = Defined (lg, w\<lparr>files := files_after f lg line (files w)\<rparr>)"
proof -
  from assms obtain p c where p: "lc_log_file (lg_config lg) = Some p" "cfg_deref (settings_cfg w) p = Defined f"
    and c: "files w f = Some c" and lg: "log_fp lg = Some f" "can_open w f" "can_write w"
      "0 \<le> sint (lc_max_backup_files (lg_config lg))"
    by (auto simp: logging_to_def)
  have same: "lg\<lparr>log_fp := Some f\<rparr> = lg" using lg(1) by (cases lg) simp
  have n: "sint (lc_max_backup_files (lg_config lg)) \<noteq> - (2 ^ 31)" using lg(4) by auto
  show ?thesis
  proof (cases "lc_max_file_size (lg_config lg) \<le> word_of_nat (length c)")
    case True
    let ?r = "rotate_files (backup_name f) (backups_of lg) (files w)"
    have "check_and_rotate_log lg w = Defined (lg, w\<lparr>files := ?r(f := Some (slot ?r f))\<rparr>)"
      using p c lg True
      by (simp add: check_and_rotate_log_def open_append_def backups_of_def slot_def n same Let_def del: rotate_files.simps)
    with True c lg show ?thesis
      by (simp add: write_log_file_def files_after_def slot_def Let_def del: rotate_files.simps)
  next
    case False
    with p c lg show ?thesis
      by (simp add: write_log_file_def check_and_rotate_log_def files_after_def slot_def)
  qed
qed

lemma log_step:
  assumes "logging_to f lg w"
  shows "\<exists>w'. ya_logger_log lv (Some body) (Some lg) w = Defined (Some lg, w') \<and> logging_to f lg w' \<and>
    files w' = (if enabled lg lv then files_after f lg (log_line (stamp w) lv body) (files w) else files w)"
proof (cases "enabled lg lv")
  case True
  then have nl: "lv \<noteq> YA_LOG_LEVEL_OFF" "\<not> lv < lc_level (lg_config lg)" by (simp_all add: enabled_def not_less)
  have f': "files_after f lg l fs f \<noteq> None" for l fs by (simp add: files_after_def Let_def)
  show ?thesis
    using True write_log_file_step [OF assms] assms f'
    by (cases "lc_use_console (lg_config lg)"; cases "lc_use_system_log (lg_config lg)")
      (simp_all add: ya_logger_log_def nl write_to_system_log_def log_line_def Let_def not_less logging_to_def)
qed (use assms in \<open>auto simp: ya_logger_log_def enabled_def not_le\<close>)

text \<open>A run of the logger: messages with the time stamps of their moments.\<close>

fun log_all :: "(u8 list \<times> ya_log_level \<times> u8 list) list \<Rightarrow> ya_logger option \<Rightarrow> log_world \<Rightarrow> (ya_logger option \<times> log_world) ub" where
  "log_all [] lg w = Defined (lg, w)"
| "log_all ((st, lv, body) # ms) lg w =
     ub_bind (ya_logger_log lv (Some body) lg (w\<lparr>stamp := st\<rparr>)) (\<lambda>(lg', w'). log_all ms lg' w')"

definition log_lines :: "ya_logger \<Rightarrow> (u8 list \<times> ya_log_level \<times> u8 list) list \<Rightarrow> u8 list" where
  "log_lines lg ms = concat (map (\<lambda>(st, lv, body). if enabled lg lv then log_line st lv body else []) ms)"

lemma log_all_step:
  assumes "logging_to f lg w"
  shows "\<exists>w'. log_all ((st, lv, body) # ms) (Some lg) w = log_all ms (Some lg) w' \<and> logging_to f lg w' \<and>
    files w' = (if enabled lg lv then files_after f lg (log_line st lv body) (files w) else files w)"
proof -
  have "logging_to f lg (w\<lparr>stamp := st\<rparr>)" using assms by (simp add: logging_to_def)
  from log_step [OF this, of lv body] show ?thesis by auto
qed

text \<open>Backups that rotation has made: each of at least the maximal size, with none missing before it.\<close>

definition backups_full :: "u8 list \<Rightarrow> ya_logger \<Rightarrow> (u8 list \<Rightarrow> u8 list option) \<Rightarrow> bool" where
  "backups_full f lg fs \<longleftrightarrow>
     (\<forall>i. 0 < i \<and> i \<le> backups_of lg \<and> fs (backup_name f i) \<noteq> None \<longrightarrow>
        unat (lc_max_file_size (lg_config lg)) \<le> length (slot fs (backup_name f i)) \<and> fs (backup_name f (i - 1)) \<noteq> None)"

lemma backups_fullD:
  assumes "backups_full f lg fs" "Suc k \<le> backups_of lg" "fs (backup_name f (Suc k)) \<noteq> None"
  shows "unat (lc_max_file_size (lg_config lg)) \<le> length (slot fs (backup_name f (Suc k)))" "fs (backup_name f k) \<noteq> None"
  using assms(1) [unfolded backups_full_def, rule_format, of "Suc k"] assms(2,3) by simp_all

lemma files_after_backup:
  assumes "length f \<le> 244 \<and> n < 2 ^ 31" "0 < i" "i \<le> n"
  shows "(fs(f := c)) (backup_name f i) = fs (backup_name f i)"
  using backups.name_eq [OF assms(1,3), of 0] assms by (auto simp: backup_name_def)

lemma unat_le_length: "x \<le> word_of_nat (length c) \<Longrightarrow> unat (x :: u64) \<le> length c"
  using unat_of_nat [of "length c", where 'a = 64] take_bit_nat_less_eq_self [of 64 "length c"]
  by (simp add: word_le_nat_alt)

lemma full_after:
  assumes "logging_to f lg w" "backups_full f lg fs" "fs f \<noteq> None"
  shows "backups_full f lg (files_after f lg line fs)"
proof -
  let ?max = "lc_max_file_size (lg_config lg)" and ?n = "backups_of lg"
  note ok = backups_ok [OF assms(1)]
  have f: "backup_name f 0 = f" using ok by (simp add: backup_name_def)
  let ?r = "if ?max \<le> word_of_nat (length (slot fs f)) then rotate_files (backup_name f) ?n fs else fs"
  have r: "unat ?max \<le> length (slot ?r (backup_name f i)) \<and> (1 < i \<longrightarrow> ?r (backup_name f (i - 1)) \<noteq> None)"
    if i: "0 < i" "i \<le> ?n" "?r (backup_name f i) \<noteq> None" for i
  proof (cases "?max \<le> word_of_nat (length (slot fs f))")
    case False
    with i assms(2) show ?thesis by (auto simp: backups_full_def)
  next
    case True
    obtain k where k: "i = Suc k" using i(1) by (cases i) simp_all
    have prev: "fs (backup_name f k) \<noteq> None"
    proof (rule ccontr)
      assume none: "\<not> fs (backup_name f k) \<noteq> None"
      with backups.rotated [OF ok order_refl i(2), of fs] i True k have "fs (backup_name f i) \<noteq> None"
        by (auto split: if_splits)
      with assms(2) i(1,2) none k show False by (auto simp: backups_full_def)
    qed
    have "unat ?max \<le> length (slot fs (backup_name f k))"
    proof (cases k)
      case 0
      then show ?thesis using unat_le_length [OF True] f by simp
    next
      case (Suc j)
      then show ?thesis using assms(2) i(2) prev k by (auto simp: backups_full_def)
    qed
    moreover have "slot ?r (backup_name f i) = slot fs (backup_name f k)"
      using backups.rotated_slot [OF ok _ i(2), of fs] True i prev k by simp
    moreover have "?r (backup_name f (i - 1)) \<noteq> None" if "1 < i"
    proof -
      have "0 < k" using that k by simp
      then obtain j where j: "k = Suc j" by (cases k) simp_all
      have "fs (backup_name f j) \<noteq> None" by (rule backups_fullD(2) [OF assms(2)]) (use i(2) prev k j in simp_all)
      then show ?thesis
        using backups.rotated [OF ok order_refl, of k fs] i(2) True k j by (auto split: option.splits)
    qed
    ultimately show ?thesis by simp
  qed
  have fa: "files_after f lg line fs = ?r(f := Some (slot ?r f @ line))" by (simp add: files_after_def Let_def)
  show ?thesis unfolding backups_full_def
  proof (intro allI impI, elim conjE)
    fix i assume i: "0 < i" "i \<le> ?n" "files_after f lg line fs (backup_name f i) \<noteq> None"
    have same: "files_after f lg line fs (backup_name f i) = ?r (backup_name f i)"
      unfolding fa by (rule files_after_backup [OF ok i(1,2)])
    from r [OF i(1,2)] i(3) same have
      "unat ?max \<le> length (slot ?r (backup_name f i))" "1 < i \<longrightarrow> ?r (backup_name f (i - 1)) \<noteq> None" by simp_all
    moreover have "files_after f lg line fs (backup_name f (i - 1)) \<noteq> None" if "i = 1" using that f by (simp add: fa)
    moreover have "files_after f lg line fs (backup_name f (i - 1)) = ?r (backup_name f (i - 1))" if "1 < i"
      unfolding fa using that i(2) by (intro files_after_backup [OF ok]) simp_all
    ultimately show "unat ?max \<le> length (slot (files_after f lg line fs) (backup_name f i)) \<and>
        files_after f lg line fs (backup_name f (i - 1)) \<noteq> None"
      using i(1) same by (cases "i = 1") (simp_all add: slot_def)
  qed
qed

lemma history_length:
  assumes "\<And>i. 0 < i \<Longrightarrow> i \<le> n \<Longrightarrow> M \<le> length (slot fs (name i))"
  shows "n * M \<le> length (history name n fs)"
  using assms
proof (induction n)
  case (Suc n)
  have "history name (Suc n) fs = slot fs (name (Suc n)) @ history name n fs" by (simp add: history_def)
  then show ?case using Suc.IH Suc.prems [of "Suc n"] Suc.prems by (simp add: add_mono)
qed simp

lemma history_after:
  assumes "logging_to f lg w" "backups_full f lg fs" "fs f \<noteq> None"
  shows "\<exists>dropped. dropped @ history (backup_name f) (backups_of lg) (files_after f lg line fs) =
      history (backup_name f) (backups_of lg) fs @ line \<and>
    (dropped = [] \<or> backups_of lg * unat (lc_max_file_size (lg_config lg)) \<le>
       length (history (backup_name f) (backups_of lg) (files_after f lg line fs)))"
proof (cases "lc_max_file_size (lg_config lg) \<le> word_of_nat (length (slot fs f))")
  case False
  then have "files_after f lg line fs = fs(f := Some (slot fs f @ line))" by (simp add: files_after_def)
  then show ?thesis using history_append [OF backups_ok [OF assms(1)], of fs line] by simp
next
  case True
  let ?n = "backups_of lg" and ?max = "unat (lc_max_file_size (lg_config lg))"
  note ok = backups_ok [OF assms(1)]
  have f: "backup_name f 0 = f" using ok by (simp add: backup_name_def)
  let ?fs' = "rotate_files (backup_name f) ?n fs"
  have fa: "files_after f lg line fs = ?fs'(f := Some (slot ?fs' f @ line))" using True by (simp add: files_after_def Let_def)
  from backups.history_rotated [OF ok, of fs] obtain d where
    d: "history (backup_name f) ?n fs = d @ history (backup_name f) ?n ?fs'" "d = [] \<or> d = slot fs (backup_name f ?n)" by blast
  have "?n * ?max \<le> length (history (backup_name f) ?n ?fs')" if "d \<noteq> []"
  proof (rule history_length)
    fix i assume i: "0 < i" "i \<le> ?n"
    have present: "fs (backup_name f ?n) \<noteq> None" using that d(2) by (cases "fs (backup_name f ?n)") (simp_all add: slot_def)
    have all: "fs (backup_name f j) \<noteq> None" if "j \<le> ?n" for j
      using that
    proof (induction rule: inc_induct)
      case (step k)
      from backups_fullD(2) [OF assms(2) _ step.IH] step.hyps show ?case by simp
    qed (rule present)
    obtain k where k: "i = Suc k" using i(1) by (cases i) simp_all
    have "?max \<le> length (slot fs (backup_name f k))"
    proof (cases k)
      case 0
      then show ?thesis using unat_le_length [OF True] f by simp
    next
      case (Suc j)
      then show ?thesis using assms(2) all [of k] i(2) k by (auto simp: backups_full_def)
    qed
    moreover have "slot ?fs' (backup_name f i) = slot fs (backup_name f k)"
      using backups.rotated_slot [OF ok _ i(2), of fs] i all [of k] k by simp
    ultimately show "?max \<le> length (slot ?fs' (backup_name f i))" by simp
  qed
  then show ?thesis
    using d(1) history_append [OF ok, of ?fs' line] unfolding fa
    by (intro exI [of _ d], cases "d = []") (simp_all add: trans_le_add1)
qed

text \<open>C37.
  The log keeps the newest messages.  Over any sequence of messages the logger is without undefined
  behaviour and in order, and the log file with its backups, read from the oldest backup on,
  is what was there before and the lines of the messages at or above the level, in order, less a
  part at the beginning.  Something is lost only when what is kept is at least the maximal size
  for every backup.
\<close>

theorem log_keeps_newest:
  assumes "logging_to f lg w" "backups_full f lg (files w)"
  shows "\<exists>w' dropped. log_all ms (Some lg) w = Defined (Some lg, w') \<and> logging_to f lg w' \<and>
    dropped @ history (backup_name f) (backups_of lg) (files w') =
      history (backup_name f) (backups_of lg) (files w) @ log_lines lg ms \<and>
    (dropped = [] \<or> backups_of lg * unat (lc_max_file_size (lg_config lg)) \<le>
       length (history (backup_name f) (backups_of lg) (files w')))"
  using assms
proof (induction ms arbitrary: w)
  case (Cons m ms)
  obtain st lv body where m: "m = (st, lv, body)" by (cases m) auto
  let ?h = "history (backup_name f) (backups_of lg)"
  let ?b = "backups_of lg * unat (lc_max_file_size (lg_config lg))"
  from log_all_step [OF Cons.prems(1), of st lv body ms] obtain w1 where
    w1: "log_all (m # ms) (Some lg) w = log_all ms (Some lg) w1" "logging_to f lg w1"
      "files w1 = (if enabled lg lv then files_after f lg (log_line st lv body) (files w) else files w)"
    unfolding m by blast
  have cur: "files w f \<noteq> None" using Cons.prems(1) by (simp add: logging_to_def)
  have full: "backups_full f lg (files w1)"
    using full_after [OF Cons.prems cur] Cons.prems(2) w1(3) by simp
  have "\<exists>d1. d1 @ ?h (files w1) = ?h (files w) @ (if enabled lg lv then log_line st lv body else []) \<and>
      (d1 = [] \<or> ?b \<le> length (?h (files w1)))"
    using history_after [OF Cons.prems cur] w1(3) by (cases "enabled lg lv") simp_all
  then obtain d1 where d1: "d1 @ ?h (files w1) = ?h (files w) @ (if enabled lg lv then log_line st lv body else [])"
    "d1 = [] \<or> ?b \<le> length (?h (files w1))" by blast
  from Cons.IH [OF w1(2) full] obtain w' d where
    w': "log_all ms (Some lg) w1 = Defined (Some lg, w')" "logging_to f lg w'"
      "d @ ?h (files w') = ?h (files w1) @ log_lines lg ms" "d = [] \<or> ?b \<le> length (?h (files w'))"
    by blast
  have "(d1 @ d) @ ?h (files w') = (d1 @ ?h (files w1)) @ log_lines lg ms" using w'(3) by simp
  also have "\<dots> = ?h (files w) @ log_lines lg (m # ms)" unfolding d1(1) by (simp add: log_lines_def m)
  finally have "(d1 @ d) @ ?h (files w') = ?h (files w) @ log_lines lg (m # ms)" .
  moreover have "d1 @ d = [] \<or> ?b \<le> length (?h (files w'))"
  proof (cases "d = []")
    case True
    then have "?h (files w') = ?h (files w1) @ log_lines lg ms" using w'(3) by simp
    with True d1(2) show ?thesis by auto
  qed (use w'(4) in simp)
  ultimately show ?case using w1(1) w'(1,2) by (metis (no_types))
qed (simp add: log_lines_def)

definition files_bounded :: "u8 list \<Rightarrow> ya_logger \<Rightarrow> (u8 list \<Rightarrow> u8 list option) \<Rightarrow> bool" where
  "files_bounded f lg fs \<longleftrightarrow>
     (\<forall>i \<le> backups_of lg. length (slot fs (backup_name f i)) \<le> unat (lc_max_file_size (lg_config lg)) + line_limit)"

lemma bounded_after:
  assumes "logging_to f lg w" "0 < backups_of lg" "files_bounded f lg fs"
    and "unat (lc_max_file_size (lg_config lg)) + line_limit < 2 ^ 64" and "length line \<le> line_limit"
  shows "files_bounded f lg (files_after f lg line fs)"
proof -
  let ?max = "lc_max_file_size (lg_config lg)" and ?n = "backups_of lg"
  note ok = backups_ok [OF assms(1)]
  have f: "backup_name f 0 = f" using ok by (simp add: backup_name_def)
  have other: "slot (fs'(f := c)) (backup_name f i) = slot fs' (backup_name f i)" if "0 < i" "i \<le> ?n" for i c fs'
    using backups.name_eq [OF ok that(2), of 0] that f by (auto simp: slot_def)
  have old: "length (slot fs (backup_name f i)) \<le> unat ?max + line_limit" if "i \<le> ?n" for i
    using assms(3) that by (simp add: files_bounded_def)
  show ?thesis unfolding files_bounded_def
  proof (intro allI impI)
    fix i assume i: "i \<le> ?n"
    show "length (slot (files_after f lg line fs) (backup_name f i)) \<le> unat ?max + line_limit"
    proof (cases "?max \<le> word_of_nat (length (slot fs f))")
      case True
      then have fa: "files_after f lg line fs = (rotate_files (backup_name f) ?n fs)
          (f := Some (slot (rotate_files (backup_name f) ?n fs) f @ line))"
        by (simp add: files_after_def Let_def)
      show ?thesis
      proof (cases "i = 0")
        case True
        then show ?thesis unfolding fa
          using backups.rotated_slot [OF ok assms(2), of 0 fs] f assms(5) by (simp add: slot_def)
      next
        case False
        then obtain k where k: "i = Suc k" by (cases i) simp_all
        then have "0 < i" by simp
        then show ?thesis unfolding fa other [OF \<open>0 < i\<close> i]
          using backups.rotated_slot [OF ok assms(2) i, of fs] old [of k] old [of ?n] i k
          by (simp split: if_splits)
      qed
    next
      case False
      have "length (slot fs f) < 2 ^ 64" using old [of 0] f assms(4) by simp
      then have "length (slot fs f) < unat ?max"
        using False by (simp add: word_le_nat_alt unat_of_nat take_bit_nat_eq_self)
      moreover have fa: "files_after f lg line fs = fs(f := Some (slot fs f @ line))" using False by (simp add: files_after_def)
      ultimately show ?thesis
        using old [OF i] f assms(5) i by (cases "i = 0") (simp_all add: fa other slot_def)
    qed
  qed
qed

text \<open>C38.
  The log files are bounded.  With at least one backup, no file of the log ever grows past the
  maximal size and one line, which is at most 8234 bytes.
\<close>

theorem log_files_bounded:
  assumes "logging_to f lg w" "0 < backups_of lg" "files_bounded f lg (files w)"
    and "unat (lc_max_file_size (lg_config lg)) + line_limit < 2 ^ 64"
  shows "\<exists>w'. log_all ms (Some lg) w = Defined (Some lg, w') \<and> files_bounded f lg (files w')"
  using assms(1,3)
proof (induction ms arbitrary: w)
  case (Cons m ms)
  obtain st lv body where m: "m = (st, lv, body)" by (cases m) auto
  from log_all_step [OF Cons.prems(1), of st lv body ms] obtain w1 where
    w1: "log_all (m # ms) (Some lg) w = log_all ms (Some lg) w1" "logging_to f lg w1"
      "files w1 = (if enabled lg lv then files_after f lg (log_line st lv body) (files w) else files w)"
    unfolding m by blast
  have "files_bounded f lg (files w1)"
    using bounded_after [OF Cons.prems(1) assms(2) Cons.prems(2) assms(4) log_line_length] Cons.prems(2) w1(3) by simp
  with Cons.IH [OF w1(2)] w1(1) show ?case by simp
qed simp

definition sample_logger :: ya_logger where
  "sample_logger = \<lparr>lg_config = \<lparr>lc_level = YA_LOG_LEVEL_INFO, lc_log_file = Some (1, 0), lc_use_console = True,
      lc_use_system_log = False, lc_max_file_size = 20, lc_max_backup_files = 2\<rparr>,
     log_fp = Some [97], lg_last_error = None\<rparr>"

definition sample_log_world :: log_world where
  "sample_log_world = \<lparr>settings_cfg = \<lparr>entries = [\<lparr>e_section = [108], e_key = [102], e_value = [97]\<rparr>], capacity = 1,
       cfg_block = 1\<rparr>,
     files = [[97] \<mapsto> replicate 20 120], can_open = \<lambda>_. True, can_write = True, errno_text = [], log_dirs = \<lparr>dirs = [], creatable = \<lambda>_. True\<rparr>,
     stamp = [48], console = [], syslog_entries = []\<rparr>"

lemma sample_logging: "logging_to [97] sample_logger sample_log_world"
  by (simp add: logging_to_def sample_logger_def sample_log_world_def cfg_deref_def)

theorem log_keeps_newest_witness:
  "\<exists>w' dropped. log_all [([48], YA_LOG_LEVEL_WARN, [104]), ([49], YA_LOG_LEVEL_DEBUG, [105])] (Some sample_logger)
       sample_log_world = Defined (Some sample_logger, w') \<and>
    dropped @ history (backup_name [97]) (backups_of sample_logger) (files w') =
      history (backup_name [97]) (backups_of sample_logger) (files sample_log_world) @
      log_lines sample_logger [([48], YA_LOG_LEVEL_WARN, [104]), ([49], YA_LOG_LEVEL_DEBUG, [105])]"
proof -
  have "backups_full [97] sample_logger (files sample_log_world)"
    using backups.name_eq [OF backups_ok [OF sample_logging], of _ 0]
    by (auto simp: backups_full_def sample_log_world_def backup_name_def)
  from log_keeps_newest [OF sample_logging this] show ?thesis by blast
qed

theorem log_files_bounded_witness:
  "\<exists>w'. log_all [([48], YA_LOG_LEVEL_WARN, [104])] (Some sample_logger) sample_log_world = Defined (Some sample_logger, w') \<and>
    files_bounded [97] sample_logger (files w')"
proof (rule log_files_bounded [OF sample_logging])
  have "length (slot (files sample_log_world) x) \<le> 20" for x
    by (simp add: sample_log_world_def slot_def)
  then have "length (slot (files sample_log_world) x) \<le> 20 + line_limit" for x
    by (rule order_trans) simp
  then show "files_bounded [97] sample_logger (files sample_log_world)"
    by (simp add: files_bounded_def sample_logger_def)
qed (simp_all add: backups_of_def sample_logger_def)

text \<open>Without backups nothing is ever dropped: the file is reopened for each message and grows.\<close>

lemma no_backups_no_bound:
  assumes "logging_to f lg w" "backups_of lg = 0"
  shows "\<exists>w'. log_all ms (Some lg) w = Defined (Some lg, w') \<and> slot (files w') f = slot (files w) f @ log_lines lg ms"
  using assms(1)
proof (induction ms arbitrary: w)
  case (Cons m ms)
  obtain st lv body where m: "m = (st, lv, body)" by (cases m) auto
  from log_all_step [OF Cons.prems, of st lv body ms] obtain w1 where
    w1: "log_all (m # ms) (Some lg) w = log_all ms (Some lg) w1" "logging_to f lg w1"
      "files w1 = (if enabled lg lv then files_after f lg (log_line st lv body) (files w) else files w)"
    unfolding m by blast
  have "slot (files w1) f = slot (files w) f @ (if enabled lg lv then log_line st lv body else [])"
    using w1(3) assms(2) by (simp add: files_after_def slot_def Let_def)
  with Cons.IH [OF w1(2)] w1(1) show ?case by (auto simp: log_lines_def m)
qed (simp add: log_lines_def)

text \<open>
  A failed rotation crashes the server.  When the log file is full and cannot be opened again, the
  stream is a null pointer, and the message that caused the rotation is written to it.
\<close>

theorem failed_rotation_crashes:
  assumes "lc_log_file (lg_config lg) = Some p" "cfg_deref (settings_cfg w) p = Defined f"
    and "log_fp lg = Some g" "files w f = Some c" "lc_max_file_size (lg_config lg) \<le> word_of_nat (length c)"
    and "\<not> can_open w f" "enabled lg lv"
  shows "ya_logger_log lv (Some body) (Some lg) w = UB"
  using assms
  by (simp add: ya_logger_log_def enabled_def not_less write_log_file_def check_and_rotate_log_def open_append_def Let_def
      del: rotate_files.simps)

theorem failed_rotation_crashes_witness:
  "ya_logger_log YA_LOG_LEVEL_ERROR (Some [104]) (Some sample_logger) (sample_log_world\<lparr>can_open := \<lambda>_. False\<rparr>) = UB"
  by (rule failed_rotation_crashes [where p = "(1, 0)" and f = "[97]" and g = "[97]" and c = "replicate 20 120"])
    (simp_all add: sample_logger_def sample_log_world_def cfg_deref_def enabled_def less_eq_ya_log_level_def)

text \<open>
  Growing the configuration leaves the logger with a dangling file name.  After a new setting that
  moves the array of entries, the next message at or above the level reads the name of the log
  file from freed memory.
\<close>

theorem log_after_growth:
  assumes "lc_log_file (lg_config lg) = Some (cfg_block (settings_cfg w), i)" "log_fp lg = Some f" "enabled lg lv"
    and "entry_index s k (entries (settings_cfg w)) = None"
    and "length (entries (settings_cfg w)) = capacity (settings_cfg w)"
    and "grow (capacity (settings_cfg w) * 2 + 8) = Moved"
  shows "\<exists>cfg. ya_config_set grow (settings_cfg w) (Some s) (Some k) (Some v) = (cfg, 0) \<and>
    ya_logger_log lv (Some body) (Some lg) (w\<lparr>settings_cfg := cfg\<rparr>) = UB"
proof -
  let ?cfg = "(settings_cfg w)\<lparr>capacity := capacity (settings_cfg w) * 2 + 8, cfg_block := cfg_block (settings_cfg w) + 1,
    entries := entries (settings_cfg w) @ [\<lparr>e_section = take 63 s, e_key = take 63 k, e_value = take 255 v\<rparr>]\<rparr>"
  have "ya_config_set grow (settings_cfg w) (Some s) (Some k) (Some v) = (?cfg, 0)"
    using assms by (simp add: ya_config_set_def add_entry_def safe_strncpy_def Let_def)
  moreover have "ya_logger_log lv (Some body) (Some lg) (w\<lparr>settings_cfg := ?cfg\<rparr>) = UB"
    using assms(1,2,3) by (simp add: ya_logger_log_def enabled_def not_less write_log_file_def check_and_rotate_log_def
        cfg_deref_def Let_def)
  ultimately show ?thesis by blast
qed

theorem log_after_growth_witness:
  "\<exists>cfg. ya_config_set (\<lambda>_. Moved) (settings_cfg sample_log_world) (Some [97]) (Some [98]) (Some [99]) = (cfg, 0) \<and>
    ya_logger_log YA_LOG_LEVEL_FATAL (Some [104]) (Some sample_logger) (sample_log_world\<lparr>settings_cfg := cfg\<rparr>) = UB"
proof (rule log_after_growth [where i = 0])
  show "entry_index [97] [98] (entries (settings_cfg sample_log_world)) = None" by code_simp
qed (simp_all add: sample_logger_def sample_log_world_def enabled_def less_eq_ya_log_level_def)

end
