(* ===== verification/Startup.thy ===== *)
theory Startup
  imports Session Http Logger
begin

text \<open>
  The start and the end of the program: \<open>start_server\<close> and \<open>stop\<close> of \<open>ya_server.c\<close>, and \<open>main\<close>,
  \<open>init_logger\<close> and the choice of the configuration file of \<open>run.c\<close> (Linux release build).

  \<open>process\<close> is the state of the process around the servers: the configuration and the addresses
  taken from it, the event base, the descriptor of the command socket, and what is running.
  \<open>platform\<close> gives the results of the calls of the system and of libevent during the start.
  The event loop is a function of the process; what it may do is a sequence of the steps of
  \<open>Session\<close>.  The messages logged on the way are left out.
\<close>

record 'b process =
  net :: "'b net"
  p_config :: YA_Config
  p_session_addr :: "cfg_ptr option"
  p_command_addr :: "cfg_ptr option"
  p_http_addr :: "cfg_ptr option"
  base_open :: bool
  session_listening :: bool
  command_fd :: i32
  command_listening :: bool
  http_running :: bool
  discovery_running :: bool
  closed_fds :: "i32 list"

record platform =
  pf_uinput :: "i32 \<times> bool \<times> bool \<times> bool"
  pf_xkb :: "xkb_global \<Rightarrow> xkb_global \<times> int"
  pf_base :: bool
  pf_listener :: bool
  pf_command_fd :: i32
  pf_nonblocking :: bool
  pf_bind :: bool
  pf_event :: bool
  pf_http :: "bool \<times> bool \<times> bool"
  pf_interfaces :: "interface list option"
  pf_malloc :: bool
  pf_realloc :: "u64 \<Rightarrow> bool"
  pf_parse_port :: "u8 list \<Rightarrow> u16 option"

definition config_ptr :: "YA_Config \<Rightarrow> string \<Rightarrow> string \<Rightarrow> cfg_ptr option" where
  "config_ptr cfg s k = ya_config_get cfg (Some (bytes_of_string s)) (Some (bytes_of_string k))"

definition config_text :: "YA_Config \<Rightarrow> string \<Rightarrow> string \<Rightarrow> u8 list option" where
  "config_text cfg s k =
     (case config_ptr cfg s k of
        None \<Rightarrow> None
      | Some p \<Rightarrow> (case cfg_deref cfg p of Defined v \<Rightarrow> Some v | UB \<Rightarrow> None))"

abbreviation with_srv :: "(server \<Rightarrow> server) \<Rightarrow> 'b process \<Rightarrow> 'b process" where
  "with_srv f p \<equiv> p\<lparr>net := (net p)\<lparr>srv := f (srv (net p))\<rparr>\<rparr>"

abbreviation with_ctx :: "(svr_context \<Rightarrow> svr_context) \<Rightarrow> 'b process \<Rightarrow> 'b process" where
  "with_ctx f p \<equiv> p\<lparr>net := (net p)\<lparr>ctx := f (ctx (net p))\<rparr>\<rparr>"

section \<open>Stop\<close>

text \<open>
  \<open>svr_context.listener\<close> is never assigned, so the listener of the sessions is not freed, and
  nothing stops the discovery thread.
\<close>

definition stop :: "'b process \<Rightarrow> 'b process run" where
  "stop p =
     (let p1 = with_srv (\<lambda>s. input_linux_shutdown (s\<lparr>xkb := xkbmap_free (xkb s)\<rparr>)) p;
          p2 = (if command_fd p1 \<noteq> 0 then p1\<lparr>closed_fds := closed_fds p1 @ [command_fd p1], command_fd := 0\<rparr> else p1);
          p3 = p2\<lparr>http_running := stop_http_server (http_running p2)\<rparr>
      in run_bind (ya_client_manager_cleanup (svr_clients (srv (net p3)))) (\<lambda>S.
           returns (with_srv (\<lambda>s. s\<lparr>svr_clients := S, macs_csv := None\<rparr>) (p3\<lparr>base_open := False\<rparr>))))"

section \<open>Start\<close>

definition start_input :: "platform \<Rightarrow> 'b process \<Rightarrow> 'b process" where
  "start_input pf p =
     (case pf_uinput pf of (fd, evbits_ok, setup_ok, create_ok) \<Rightarrow>
        with_srv (\<lambda>s.
          let s1 = fst (input_linux_init fd evbits_ok setup_ok create_ok s);
              s2 = s1\<lparr>xkb := fst (pf_xkb pf (xkb s1))\<rparr>
          in clipboard_helper_init
               (map_option (map (\<lambda>b. char_of (unat b))) (config_text (p_config p) ''input'' ''clipboard_fallback''))
               (map_option (map (\<lambda>b. char_of (unat b))) (config_text (p_config p) ''input'' ''clipboard_paste_key'')) s2) p)"

text \<open>What comes before the first server: \<open>False\<close> when there is no event base.\<close>

definition start_common :: "platform \<Rightarrow> 'b process \<Rightarrow> ('b process \<times> bool) run" where
  "start_common pf p =
     (let p1 = with_ctx (\<lambda>c. ya_server_set_state YA_SERVER_INIT (c\<lparr>svr_stats := no_stats, components_state := no_components\<rparr>))
                 (with_srv (\<lambda>s. s\<lparr>macs_csv := None\<rparr>) p);
          p2 = (start_input pf p1)\<lparr>base_open := pf_base pf\<rparr>
      in if \<not> pf_base pf then returns (p2, False)
         else run_bind (ya_get_macs_csv (pf_interfaces pf) (pf_malloc pf) (pf_realloc pf)) (\<lambda>macs.
           returns (with_srv (\<lambda>s. s\<lparr>svr_clients := (ya_client_manager_init, snd (svr_clients s)), macs_csv := macs\<rparr>) p2,
             True)))"

definition flag :: "string \<Rightarrow> 'b process \<Rightarrow> 'b process" where
  "flag component p = with_ctx (ya_server_set_component_ready component True) p"

definition start_session :: "platform \<Rightarrow> 'b process \<Rightarrow> 'b process \<times> int" where
  "start_session pf p =
     (let r = run_session_server (pf_listener pf) in (p\<lparr>session_listening := pf_listener pf\<rparr>, r))"

text \<open>The address is taken anew; that it cannot be parsed is only logged.\<close>

definition take_http_addr :: "'b process \<Rightarrow> 'b process" where
  "take_http_addr p = p\<lparr>p_http_addr := config_ptr (p_config p) ''http'' ''listener''\<rparr>"

definition start_command :: "platform \<Rightarrow> 'b process \<Rightarrow> 'b process \<times> int" where
  "start_command pf p =
     (let r = run_command_server (0 \<le> sint (pf_command_fd pf)) (pf_nonblocking pf) (pf_bind pf) (pf_event pf)
      in (p\<lparr>command_fd := pf_command_fd pf, command_listening := (r = 0)\<rparr>, r))"

text \<open>\<open>run_discovery_server\<close> makes the thread and does not look at the result.\<close>

definition run_discovery_server :: "'b process \<Rightarrow> 'b process \<times> int" where
  "run_discovery_server p = (p\<lparr>discovery_running := True\<rparr>, 0)"

definition stop_discovery_server :: "'b process \<Rightarrow> 'b process" where
  "stop_discovery_server p = p\<lparr>discovery_running := False\<rparr>"

definition start_http :: "platform \<Rightarrow> 'b process \<Rightarrow> 'b process \<times> int" where
  "start_http pf p =
     (case pf_http pf of (new_ok, dup_ok, bind_ok) \<Rightarrow>
        case run_http_server (config_text (p_config p) ''http'' ''listener'') new_ok dup_ok bind_ok of
          (r, running) \<Rightarrow> (p\<lparr>http_running := running\<rparr>, r))"

text \<open>The servers in turn.  A negative result stops the server; \<open>True\<close> when all are started.\<close>

definition start_servers :: "platform \<Rightarrow> 'b process \<Rightarrow> ('b process \<times> bool) run" where
  "start_servers pf p =
     (case start_session pf p of (p1, r1) \<Rightarrow>
        if r1 < 0 then run_bind (stop p1) (\<lambda>p'. returns (p', False))
        else case start_command pf (take_http_addr (flag ''session'' p1)) of (p2, r2) \<Rightarrow>
          if r2 < 0 then run_bind (stop p2) (\<lambda>p'. returns (p', False))
          else
            let p3 = flag ''command'' p2;
                p4 = (case run_discovery_server p3 of (q, r) \<Rightarrow> if r = 0 then flag ''discovery'' q else q)
            in case start_http pf p4 of (p5, r5) \<Rightarrow>
              if r5 < 0 then run_bind (stop p5) (\<lambda>p'. returns (p', False))
              else returns (flag ''http'' p5, True))"

definition start_server :: "platform \<Rightarrow> ('b process \<Rightarrow> 'b process run) \<Rightarrow> 'b process \<Rightarrow> ('b process \<times> int) run" where
  "start_server pf event_loop p =
     run_bind (start_common pf p) (\<lambda>(p1, ok).
       if \<not> ok then returns (p1, - 1)
       else run_bind (start_servers pf p1) (\<lambda>(p2, ok').
         if \<not> ok' then returns (p2, - 1)
         else run_bind (event_loop p2) (\<lambda>p3.
              run_bind (stop (with_ctx (ya_server_set_state YA_SERVER_STOPPING) p3)) (\<lambda>p4.
                returns (with_ctx (ya_server_set_state YA_SERVER_STOPPED) p4, 0)))))"

section \<open>The logger's configuration\<close>

text \<open>\<open>atoi\<close> converts the \<open>long\<close> to \<open>int\<close>.\<close>

definition atoi :: "u8 list \<Rightarrow> i32" where
  "atoi s = word_of_int (strtol10 s)"

definition level_of_text :: "u8 list \<Rightarrow> ya_log_level" where
  "level_of_text t =
     (if t = bytes_of_string ''TRACE'' then YA_LOG_LEVEL_TRACE
      else if t = bytes_of_string ''DEBUG'' then YA_LOG_LEVEL_DEBUG
      else if t = bytes_of_string ''INFO'' then YA_LOG_LEVEL_INFO
      else if t = bytes_of_string ''WARN'' then YA_LOG_LEVEL_WARN
      else if t = bytes_of_string ''ERROR'' then YA_LOG_LEVEL_ERROR
      else if t = bytes_of_string ''FATAL'' then YA_LOG_LEVEL_FATAL
      else if t = bytes_of_string ''OFF'' then YA_LOG_LEVEL_OFF
      else YA_LOG_LEVEL_INFO)"

definition ensure_log_directory :: "u8 list option \<Rightarrow> filesystem \<Rightarrow> filesystem \<times> int" where
  "ensure_log_directory log_file fs =
     (case log_file of
        None \<Rightarrow> (fs, 0)
      | Some f \<Rightarrow>
          (case ya_get_dir_path f of
             None \<Rightarrow> (fs, 0)
           | Some dir \<Rightarrow> if dir = [] \<or> 512 \<le> length dir then (fs, 0) else ya_ensure_dir (Some dir) fs))"

definition logger_config :: "YA_Config \<Rightarrow> ya_logger_config" where
  "logger_config cfg =
     \<lparr>lc_level = (case config_text cfg ''logger'' ''level'' of None \<Rightarrow> YA_LOG_LEVEL_INFO | Some t \<Rightarrow> level_of_text t),
      lc_log_file = config_ptr cfg ''logger'' ''file'',
      lc_use_console = (case config_text cfg ''logger'' ''use_console'' of None \<Rightarrow> True | Some t \<Rightarrow> atoi t \<noteq> 0),
      lc_use_system_log = (case config_text cfg ''logger'' ''use_system_log'' of None \<Rightarrow> True | Some t \<Rightarrow> atoi t \<noteq> 0),
      lc_max_file_size = (case config_text cfg ''logger'' ''max_file_size'' of
        None \<Rightarrow> 10 * 1024 * 1024 | Some t \<Rightarrow> word_of_int (strtol10 t)),
      lc_max_backup_files = (case config_text cfg ''logger'' ''max_backup_files'' of None \<Rightarrow> 5 | Some t \<Rightarrow> atoi t)\<rparr>"

text \<open>The result, the logger and the world; \<open>cfg\<close> is the configuration of the world.\<close>

definition init_logger :: "bool \<Rightarrow> ya_logger option \<Rightarrow> log_world \<Rightarrow> (int \<times> ya_logger option \<times> log_world) ub" where
  "init_logger alloc_ok g_logger w =
     (let cfg = settings_cfg w in
      case ensure_log_directory (config_text cfg ''logger'' ''file'') (log_dirs w) of (fs, r) \<Rightarrow>
        if r \<noteq> 0 then Defined (- 1, g_logger, w\<lparr>log_dirs := fs\<rparr>)
        else ub_bind (ya_logger_init alloc_ok (Some (logger_config cfg)) g_logger (w\<lparr>log_dirs := fs\<rparr>)) (\<lambda>(lg, _, w').
               Defined (if lg = None then - 1 else 0, lg, w')))"

section \<open>Main\<close>

text \<open>
  The configuration file: the argument, or \<open>server.conf\<close> beside the executable.  The pointer is not
  initialized when the executable's directory is not found; testing it is undefined behaviour.
\<close>

definition config_path :: "u8 list option \<Rightarrow> u8 list option \<Rightarrow> (u8 list \<Rightarrow> u8 list option) \<Rightarrow> u8 list option ub" where
  "config_path arg self_link realpath =
     (case arg of
        Some a \<Rightarrow> Defined (realpath a)
      | None \<Rightarrow>
          (case ya_get_executable_path self_link 1024 of
             None \<Rightarrow> UB
           | Some exe \<Rightarrow>
               (case ya_get_dir_path exe of
                  None \<Rightarrow> UB
                | Some dir \<Rightarrow> Defined (realpath (take 1023 (dir @ bytes_of_string ''/server.conf''))))))"

text \<open>An address: configured, not empty, and parsed to its port.\<close>

definition resolve_addr :: "platform \<Rightarrow> YA_Config \<Rightarrow> string \<Rightarrow> (cfg_ptr \<times> u16) option" where
  "resolve_addr pf cfg s =
     (case (config_ptr cfg s ''listener'', config_text cfg s ''listener'') of
        (Some p, Some t) \<Rightarrow> if t = [] then None else map_option (Pair p) (pf_parse_port pf t)
      | _ \<Rightarrow> None)"

definition resolve_addrs :: "platform \<Rightarrow> 'b process \<Rightarrow> 'b process option" where
  "resolve_addrs pf p =
     (case resolve_addr pf (p_config p) ''session'' of
        None \<Rightarrow> None
      | Some (sp, sport) \<Rightarrow>
          (case resolve_addr pf (p_config p) ''command'' of
             None \<Rightarrow> None
           | Some (cp, cport) \<Rightarrow>
               (case resolve_addr pf (p_config p) ''http'' of
                  None \<Rightarrow> None
                | Some (hp, hport) \<Rightarrow>
                    Some (with_srv (\<lambda>s. s\<lparr>session_sin_port := sport, command_sin_port := cport\<rparr>)
                      (p\<lparr>p_session_addr := Some sp, p_command_addr := Some cp, p_http_addr := Some hp\<rparr>)))))"

record arguments =
  arg_path :: "u8 list option"
  arg_exe_link :: "u8 list option"
  arg_realpath :: "u8 list \<Rightarrow> u8 list option"
  arg_stat :: "u8 list \<Rightarrow> bool"
  arg_file :: "u8 list \<Rightarrow> u8 list option"
  arg_grow :: grow
  arg_malloc :: bool

text \<open>
  \<open>main\<close> up to the start of the server: the process, the logger and the world, or the status of
  \<open>exit\<close>.  The configuration is parsed into an empty one; the first logger, which writes to the
  console only, is destroyed when it has been.
\<close>

definition main_setup ::
  "platform \<Rightarrow> arguments \<Rightarrow> 'b process \<Rightarrow> log_world \<Rightarrow> (int + 'b process \<times> ya_logger option \<times> log_world) ub" where
  "main_setup pf args p w =
     ub_bind (config_path (arg_path args) (arg_exe_link args) (arg_realpath args)) (\<lambda>config_file.
       case config_file of
         None \<Rightarrow> Defined (Inl 1)
       | Some path \<Rightarrow>
           if \<not> file_exists (arg_stat args) path then Defined (Inl 1)
           else case ya_config_parse (arg_grow args) (arg_file args path) ya_config_init of (cfg, r) \<Rightarrow>
             if r \<noteq> 0 then Defined (Inl 1)
             else ub_bind (init_logger (arg_malloc args) None (w\<lparr>settings_cfg := cfg\<rparr>)) (\<lambda>(r', logger, w').
               if r' \<noteq> 0 then Defined (Inl 1)
               else case resolve_addrs pf (p\<lparr>p_config := cfg\<rparr>) of
                 None \<Rightarrow> Defined (Inl 1)
               | Some p' \<Rightarrow> Defined (Inr (p', logger, w'))))"

text \<open>The exit status; the configuration is freed at the end.\<close>

definition main ::
  "platform \<Rightarrow> arguments \<Rightarrow> ('b process \<Rightarrow> 'b process run) \<Rightarrow> 'b process \<Rightarrow> log_world \<Rightarrow> ('b process \<times> int) run" where
  "main pf args event_loop p w =
     run_bind (Some (main_setup pf args p w)) (\<lambda>r.
       case r of
         Inl status \<Rightarrow> returns (p, status)
       | Inr (p1, logger, w1) \<Rightarrow>
           run_bind (start_server pf event_loop p1) (\<lambda>(p2, c).
             returns (p2\<lparr>p_config := ya_config_free (p_config p2)\<rparr>, c)))"

section \<open>Starting and stopping\<close>

text \<open>What a stopped process holds: no device, keymap, command socket, HTTP server, event base or client.\<close>

definition released :: "'b process \<Rightarrow> bool" where
  "released p \<longleftrightarrow> sint (uinput_fd (srv (net p))) < 0 \<and> \<not> xkb_initialized (xkb (srv (net p))) \<and> command_fd p = 0 \<and>
     \<not> http_running p \<and> \<not> base_open p \<and> client_cells (net p) = Map.empty \<and> macs_csv (srv (net p)) = None"

lemma stop_releases:
  assumes "clients_inv (svr_clients (srv (net p)))"
  shows "\<exists>p'. stop p = returns p' \<and> released p' \<and> ctx (net p') = ctx (net p) \<and>
    session_listening p' = session_listening p \<and> discovery_running p' = discovery_running p"
proof -
  obtain M H where MH: "svr_clients (srv (net p)) = (M, H)" by fastforce
  with cleanup_inv [of M H] assms obtain S where S: "ya_client_manager_cleanup (M, H) = returns S" "cells (snd S) = Map.empty"
    by auto
  have "svr_clients (input_linux_shutdown (srv (net p)\<lparr>xkb := x\<rparr>)) = (M, H)" for x
    using MH by (simp add: input_linux_shutdown_def)
  moreover have "sint (uinput_fd (input_linux_shutdown s)) < 0" for s :: server
    by (simp add: input_linux_shutdown_def)
  moreover have "xkb (input_linux_shutdown (s\<lparr>xkb := x\<rparr>)) = x" for s :: server and x
    by (simp add: input_linux_shutdown_def)
  moreover have "\<not> xkb_initialized (xkbmap_free g)" for g by (simp add: xkbmap_free_def)
  ultimately show ?thesis using S
    by (cases "command_fd p = 0") (simp_all add: stop_def Let_def released_def stop_http_server_def)
qed

lemma start_input_keeps:
  "svr_clients (srv (net (start_input pf p))) = svr_clients (srv (net p))"
  "ctx (net (start_input pf p)) = ctx (net p)" "p_config (start_input pf p) = p_config p"
  by (auto simp: start_input_def input_linux_init_def clipboard_helper_init_def Let_def split: prod.split option.split)

definition few_interfaces :: "platform \<Rightarrow> bool" where
  "few_interfaces pf \<longleftrightarrow> (case pf_interfaces pf of None \<Rightarrow> True | Some ifs \<Rightarrow> length ifs < 2 ^ 50)"

lemma macs_return:
  assumes "few_interfaces pf" shows "\<exists>r. ya_get_macs_csv (pf_interfaces pf) m ro = returns r"
proof (cases "pf_interfaces pf")
  case (Some ifs)
  show ?thesis
  proof (cases m)
    case True
    have "mac_inv [] \<lparr>mb_cap = 128, mb_text = []\<rparr>" by (simp add: mac_inv_def)
    from collect_macs_step [OF this, of ifs ro] assms Some True show ?thesis
      by (auto simp: few_interfaces_def ya_get_macs_csv_def split: option.splits)
  qed (simp add: Some ya_get_macs_csv_def)
qed (simp add: ya_get_macs_csv_def)

text \<open>The state before the first server: an empty client table and cleared statistics.\<close>

definition prepared :: "'b process \<Rightarrow> bool" where
  "prepared p \<longleftrightarrow> fst (svr_clients (srv (net p))) = ya_client_manager_init \<and> svr_stats (ctx (net p)) = no_stats \<and>
     components_state (ctx (net p)) = no_components \<and> svr_state (ctx (net p)) = YA_SERVER_INIT"

lemma start_common_prepares:
  assumes "few_interfaces pf" "pf_base pf"
  shows "\<exists>p1. start_common pf p = returns (p1, True) \<and> prepared p1 \<and> client_cells (net p1) = client_cells (net p) \<and>
    p_config p1 = p_config p"
proof -
  from macs_return [OF assms(1), of "pf_malloc pf" "pf_realloc pf"] obtain m where
    "ya_get_macs_csv (pf_interfaces pf) (pf_malloc pf) (pf_realloc pf) = returns m" ..
  with assms(2) show ?thesis
    by (simp add: start_common_def prepared_def start_input_keeps ya_server_set_state_def Let_def)
qed

definition http_starts :: "platform \<Rightarrow> YA_Config \<Rightarrow> bool" where
  "http_starts pf cfg \<longleftrightarrow> config_text cfg ''http'' ''listener'' \<in> {None, Some []} \<or>
     (case pf_http pf of (new_ok, dup_ok, bind_ok) \<Rightarrow> new_ok \<and> dup_ok \<and> bind_ok)"

lemma http_result:
  "snd (start_http pf p) = (if http_starts pf (p_config p) then 0 else - 1)"
  "net (fst (start_http pf p)) = net p" "command_listening (fst (start_http pf p)) = command_listening p"
  "session_listening (fst (start_http pf p)) = session_listening p" "discovery_running (fst (start_http pf p)) = discovery_running p"
  by (auto simp: start_http_def run_http_server_def http_starts_def split: prod.splits option.splits)

lemma command_never_negative: "0 \<le> run_command_server a b c d"
  by (simp add: run_command_server_def)

lemma flag_net: "net (flag c p) = (net p)\<lparr>ctx := ya_server_set_component_ready c True (ctx (net p))\<rparr>"
  by (simp add: flag_def)

lemma flag_rest:
  "p_config (flag c p) = p_config p" "command_listening (flag c p) = command_listening p"
  "session_listening (flag c p) = session_listening p" "discovery_running (flag c p) = discovery_running p"
  by (simp_all add: flag_def)

lemma start_servers_runs:
  assumes "prepared p" "pf_listener pf" "http_starts pf (p_config p)"
  shows "\<exists>p2. start_servers pf p = returns (p2, True) \<and> svr_state (ctx (net p2)) = YA_SERVER_RUNNING \<and>
    ya_server_all_components_ready (components_state (ctx (net p2))) \<and> svr_stats (ctx (net p2)) = no_stats \<and>
    svr_clients (srv (net p2)) = svr_clients (srv (net p)) \<and> session_listening p2 \<and> discovery_running p2 \<and>
    (command_listening p2 \<longleftrightarrow> 0 \<le> sint (pf_command_fd pf) \<and> pf_nonblocking pf \<and> pf_bind pf \<and> pf_event pf)"
proof -
  let ?p1 = "p\<lparr>session_listening := True\<rparr>"
  let ?q = "take_http_addr (flag ''session'' ?p1)"
  let ?r = "run_command_server (0 \<le> sint (pf_command_fd pf)) (pf_nonblocking pf) (pf_bind pf) (pf_event pf)"
  let ?p2 = "?q\<lparr>command_fd := pf_command_fd pf, command_listening := (?r = 0)\<rparr>"
  let ?p4 = "flag ''discovery'' ((flag ''command'' ?p2)\<lparr>discovery_running := True\<rparr>)"
  define p5 where "p5 = fst (start_http pf ?p4)"
  have s: "start_session pf p = (?p1, 0)" using assms(2) by (simp add: start_session_def run_session_server_def)
  have c: "start_command pf ?q = (?p2, ?r)" by (simp add: start_command_def Let_def)
  have cfg: "p_config ?p4 = p_config p" by (simp add: flag_rest take_http_addr_def)
  have h: "start_http pf ?p4 = (p5, 0)" using http_result(1) [of pf ?p4] assms(3) cfg by (simp add: prod_eq_iff p5_def)
  have r: "\<not> ?r < 0" using command_never_negative by (simp add: not_less)
  have run: "start_servers pf p = returns (flag ''http'' p5, True)"
    by (simp add: start_servers_def s c h r run_discovery_server_def Let_def)
  have nets: "net ?p4 = (net p)\<lparr>ctx := ya_server_set_component_ready ''discovery'' True
      (ya_server_set_component_ready ''command'' True (ya_server_set_component_ready ''session'' True (ctx (net p))))\<rparr>"
    by (simp add: flag_net take_http_addr_def)
  have net5: "net (flag ''http'' p5) = (net p)\<lparr>ctx := ya_server_set_component_ready ''http'' True (ctx (net ?p4))\<rparr>"
    unfolding flag_net [of "''http''" p5] unfolding p5_def http_result(2) nets by simp
  have zero: "?r = 0 \<longleftrightarrow> 0 \<le> sint (pf_command_fd pf) \<and> pf_nonblocking pf \<and> pf_bind pf \<and> pf_event pf"
    by (simp add: run_command_server_def)
  have ready: "svr_state c' = YA_SERVER_RUNNING \<and> ya_server_all_components_ready (components_state c') \<and> svr_stats c' = no_stats"
    if "c' = ya_server_set_component_ready ''http'' True (ctx (net ?p4))" for c'
    using assms(1) that unfolding nets prepared_def
    by (simp add: ya_server_set_component_ready_def ya_server_all_components_ready_def no_components_def
        ya_server_set_state_def Let_def)
  have "ctx (net (flag ''http'' p5)) = ya_server_set_component_ready ''http'' True (ctx (net ?p4))"
    "srv (net (flag ''http'' p5)) = srv (net p)"
    unfolding net5 by simp_all
  moreover have "session_listening (flag ''http'' p5)" "discovery_running (flag ''http'' p5)"
    "command_listening (flag ''http'' p5) = (?r = 0)"
    by (simp_all add: p5_def http_result flag_rest take_http_addr_def)
  ultimately show ?thesis using ready zero run by metis
qed

lemma start_servers_fails:
  assumes "prepared p" "\<not> pf_listener pf \<or> \<not> http_starts pf (p_config p)" "client_cells (net p) = Map.empty"
  shows "\<exists>p2. start_servers pf p = returns (p2, False) \<and> released p2 \<and> svr_state (ctx (net p2)) = YA_SERVER_INIT"
proof -
  have inv: "clients_inv (svr_clients (srv (net q)))" if "svr_clients (srv (net q)) = svr_clients (srv (net p))" for q :: "'a process"
    using assms(1,3) that clients_inv_init
    by (cases "svr_clients (srv (net p))") (auto simp: prepared_def clients_inv_def client_table_def
      ya_client_manager_init_def case_prod_unfold intro!: exI [of _ "\<lambda>_. []"])
  show ?thesis
  proof (cases "pf_listener pf")
    case False
    let ?p1 = "p\<lparr>session_listening := False\<rparr>"
    have "start_session pf p = (?p1, - 1)" using False by (simp add: start_session_def run_session_server_def)
    moreover obtain p' where "stop ?p1 = returns p'" "released p'" "ctx (net p') = ctx (net ?p1)"
      using stop_releases [of ?p1] inv [of ?p1] by auto
    ultimately show ?thesis using assms(1) by (simp add: start_servers_def prepared_def)
  next
    case True
    let ?p1 = "p\<lparr>session_listening := True\<rparr>"
    let ?q = "take_http_addr (flag ''session'' ?p1)"
    let ?r = "run_command_server (0 \<le> sint (pf_command_fd pf)) (pf_nonblocking pf) (pf_bind pf) (pf_event pf)"
    let ?p2 = "?q\<lparr>command_fd := pf_command_fd pf, command_listening := (?r = 0)\<rparr>"
    let ?p4 = "flag ''discovery'' ((flag ''command'' ?p2)\<lparr>discovery_running := True\<rparr>)"
    define p5 where "p5 = fst (start_http pf ?p4)"
    have s: "start_session pf p = (?p1, 0)" using True by (simp add: start_session_def run_session_server_def)
    have c: "start_command pf ?q = (?p2, ?r)" by (simp add: start_command_def Let_def)
    have cfg: "p_config ?p4 = p_config p" by (simp add: flag_rest take_http_addr_def)
    have h: "start_http pf ?p4 = (p5, - 1)" using http_result(1) [of pf ?p4] assms(2) True cfg by (simp add: prod_eq_iff p5_def)
    have r: "\<not> ?r < 0" using command_never_negative by (simp add: not_less)
    have run: "start_servers pf p = run_bind (stop p5) (\<lambda>p'. returns (p', False))"
      by (simp add: start_servers_def s c h r run_discovery_server_def Let_def)
    have "svr_clients (srv (net p5)) = svr_clients (srv (net p))"
      unfolding p5_def http_result(2) by (simp add: flag_net take_http_addr_def)
    with stop_releases [OF inv [of p5]] obtain p' where p': "stop p5 = returns p'" "released p'" "ctx (net p') = ctx (net p5)"
      by blast
    have "svr_state (ctx (net p5)) = YA_SERVER_INIT"
      using assms(1) unfolding p5_def http_result(2)
      by (simp add: flag_net take_http_addr_def prepared_def ya_server_set_component_ready_def
          ya_server_all_components_ready_def no_components_def Let_def)
    with p' show ?thesis unfolding run by simp
  qed
qed


definition sample_process :: "u8 list process" where
  "sample_process = \<lparr>net = idle_net, p_config = ya_config_init, p_session_addr = None, p_command_addr = None,
     p_http_addr = None, base_open = False, session_listening = False, command_fd = 0, command_listening = False,
     http_running = False, discovery_running = False, closed_fds = []\<rparr>"

definition sample_platform :: platform where
  "sample_platform = \<lparr>pf_uinput = (5, True, True, True), pf_xkb = (\<lambda>g. (g, - 1)), pf_base = True, pf_listener = True,
     pf_command_fd = 9, pf_nonblocking = True, pf_bind = False, pf_event = True, pf_http = (True, True, True),
     pf_interfaces = None, pf_malloc = True, pf_realloc = (\<lambda>_. True), pf_parse_port = (\<lambda>_. Some 8080)\<rparr>"


text \<open>C36.
  The server can run without its command server.  Every failure of \<open>run_command_server\<close> is a positive
  number, and \<open>start_server\<close> looks for a negative one: when the command socket cannot be made, set up
  or bound, the command server is flagged ready and the state is RUNNING, but nothing listens for
  commands.
\<close>

theorem running_without_commands:
  assumes "few_interfaces pf" "pf_base pf" "pf_listener pf" "http_starts pf (p_config p)"
    and "sint (pf_command_fd pf) < 0 \<or> \<not> pf_nonblocking pf \<or> \<not> pf_bind pf"
  shows "\<exists>p1 q. start_common pf p = returns (p1, True) \<and> start_servers pf p1 = returns (q, True) \<and>
    svr_state (ctx (net q)) = YA_SERVER_RUNNING \<and>
    ya_server_is_component_ready (components_state (ctx (net q))) ''command'' \<and> \<not> command_listening q"
proof -
  obtain p1 where p1: "start_common pf p = returns (p1, True)" "prepared p1" "p_config p1 = p_config p"
    using start_common_prepares [OF assms(1,2), of p] by auto
  with start_servers_runs [OF p1(2) assms(3)] assms(4,5) show ?thesis
    by (auto simp: ya_server_is_component_ready_def ya_server_all_components_ready_def)
qed

theorem running_without_commands_witness:
  "\<exists>p1 q. start_common sample_platform sample_process = returns (p1, True) \<and>
    start_servers sample_platform p1 = returns (q, True) \<and> svr_state (ctx (net q)) = YA_SERVER_RUNNING \<and>
    ya_server_is_component_ready (components_state (ctx (net q))) ''command'' \<and> \<not> command_listening q"
  by (rule running_without_commands)
    (simp_all add: few_interfaces_def sample_platform_def http_starts_def)

text \<open>Stopping leaves the session listener and the discovery thread as they are.\<close>

lemma stop_leaves_running:
  "clients_inv (svr_clients (srv (net p))) \<Longrightarrow> session_listening p \<Longrightarrow> discovery_running p \<Longrightarrow>
     \<exists>p'. stop p = returns p' \<and> session_listening p' \<and> discovery_running p'"
  using stop_releases [of p] by auto

section \<open>The logger at the start\<close>

lemma config_text_ptr:
  "config_text cfg s k = Some v \<Longrightarrow> \<exists>p. config_ptr cfg s k = Some p \<and> cfg_deref cfg p = Defined v"
  by (auto simp: config_text_def split: option.splits ub.splits)

text \<open>
  The logger the configuration asks for.  When a log file of at most 244 bytes is configured, its
  directories can be made, the file can be opened and written and the number of backups is not
  negative, \<open>init_logger\<close> succeeds, and the logger is in order and writes to that file from the
  configured level on, INFO when the level is missing or unknown.
\<close>

theorem configured_logger:
  assumes "config_text (settings_cfg w) ''logger'' ''file'' = Some f" "length f \<le> 244"
    and "snd (ensure_log_directory (Some f) (log_dirs w)) = 0" "can_open w f" "can_write w"
    and "0 \<le> sint (lc_max_backup_files (logger_config (settings_cfg w)))"
  shows "\<exists>lg w'. init_logger True g w = Defined (0, Some lg, w') \<and> logging_to f lg w' \<and> lg_last_error lg = None \<and>
    (\<forall>lv. enabled lg lv \<longleftrightarrow> lv \<noteq> YA_LOG_LEVEL_OFF \<and>
      (case config_text (settings_cfg w) ''logger'' ''level'' of None \<Rightarrow> YA_LOG_LEVEL_INFO | Some t \<Rightarrow> level_of_text t) \<le> lv)"
proof -
  from config_text_ptr [OF assms(1)] obtain p where
    p: "config_ptr (settings_cfg w) ''logger'' ''file'' = Some p" "cfg_deref (settings_cfg w) p = Defined f" by blast
  obtain fs where fs: "ensure_log_directory (Some f) (log_dirs w) = (fs, 0)"
    using assms(3) by (cases "ensure_log_directory (Some f) (log_dirs w)") simp
  have lf: "lc_log_file (logger_config (settings_cfg w)) = Some p" using p(1) by (simp add: logger_config_def)
  have made: "settings_cfg (make_log_dir f v) = settings_cfg v" "files (make_log_dir f v) = files v"
    "can_open (make_log_dir f v) = can_open v" "can_write (make_log_dir f v) = can_write v" for v
    by (simp_all add: make_log_dir_def Let_def)
  let ?lg = "\<lparr>lg_config = logger_config (settings_cfg w), log_fp = Some f, lg_last_error = None\<rparr>"
  obtain w' where init: "init_logger True g w = Defined (0, Some ?lg, w')"
    and w': "settings_cfg w' = settings_cfg w" "can_open w' = can_open w" "can_write w' = can_write w" "files w' f \<noteq> None"
    using assms(1,4) p(2) lf fs
    by (simp add: init_logger_def ya_logger_init_def open_append_def made Let_def)
  have "logging_to f ?lg w'" using assms(2,4,5,6) w' p(2) lf by (simp add: logging_to_def)
  with init show ?thesis by (simp add: enabled_def logger_config_def)
qed

definition log_config :: YA_Config where
  "log_config = \<lparr>entries = [\<lparr>e_section = bytes_of_string ''logger'', e_key = bytes_of_string ''file'',
       e_value = bytes_of_string ''/tmp/mh.log''\<rparr>], capacity = 8, cfg_block = 1\<rparr>"

theorem configured_logger_witness:
  "\<exists>lg w'. init_logger True None (sample_log_world\<lparr>settings_cfg := log_config\<rparr>) = Defined (0, Some lg, w') \<and>
     logging_to (bytes_of_string ''/tmp/mh.log'') lg w' \<and> enabled lg YA_LOG_LEVEL_WARN \<and> \<not> enabled lg YA_LOG_LEVEL_DEBUG"
proof -
  let ?w = "sample_log_world\<lparr>settings_cfg := log_config\<rparr>"
  have t: "config_text log_config ''logger'' ''file'' = Some (bytes_of_string ''/tmp/mh.log'')"
    and l: "config_text log_config ''logger'' ''level'' = None"
    and b: "config_text log_config ''logger'' ''max_backup_files'' = None"
    by code_simp+
  have "snd (ensure_log_directory (Some (bytes_of_string ''/tmp/mh.log'')) \<lparr>dirs = [], creatable = \<lambda>_. True\<rparr>) = 0"
    by code_simp
  then have "snd (ensure_log_directory (Some (bytes_of_string ''/tmp/mh.log'')) (log_dirs ?w)) = 0"
    by (simp add: sample_log_world_def)
  moreover have "0 \<le> sint (lc_max_backup_files (logger_config (settings_cfg ?w)))"
    by (simp add: logger_config_def b)
  ultimately show ?thesis
    using configured_logger [of ?w "bytes_of_string ''/tmp/mh.log''" None] t l
    by (fastforce simp: sample_log_world_def bytes_of_string_def less_eq_ya_log_level_def)
qed

section \<open>Main\<close>

definition listener_ok :: "platform \<Rightarrow> YA_Config \<Rightarrow> string \<Rightarrow> bool" where
  "listener_ok pf cfg s \<longleftrightarrow>
     (case config_text cfg s ''listener'' of None \<Rightarrow> False | Some t \<Rightarrow> t \<noteq> [] \<and> pf_parse_port pf t \<noteq> None)"

lemma resolve_addr_ok: "resolve_addr pf cfg s \<noteq> None \<longleftrightarrow> listener_ok pf cfg s"
  using config_text_ptr [of cfg s "''listener''"]
  by (cases "config_text cfg s ''listener''") (auto simp: resolve_addr_def listener_ok_def split: option.splits)

text \<open>
  The program starts exactly with three listeners.  Once the configuration has been read and the
  logger set up, \<open>main\<close> goes on to start the server if and only if the session, the command and the
  HTTP server each have an address that is not empty and can be parsed, and exits with status 1
  otherwise.  So \<open>run_http_server\<close> never finds itself disabled at the start.
\<close>

theorem main_needs_three_listeners:
  assumes "config_path (arg_path args) (arg_exe_link args) (arg_realpath args) = Defined (Some path)"
    and "file_exists (arg_stat args) path"
    and "ya_config_parse (arg_grow args) (arg_file args path) ya_config_init = (cfg, 0)"
    and "init_logger (arg_malloc args) None (w\<lparr>settings_cfg := cfg\<rparr>) = Defined (0, lg, w')"
  shows "main_setup pf args p w =
    (if list_all (listener_ok pf cfg) [''session'', ''command'', ''http'']
     then Defined (Inr (the (resolve_addrs pf (p\<lparr>p_config := cfg\<rparr>)), lg, w')) else Defined (Inl 1)) \<and>
    (\<forall>p'. resolve_addrs pf (p\<lparr>p_config := cfg\<rparr>) = Some p' \<longrightarrow> config_text (p_config p') ''http'' ''listener'' \<notin> {None, Some []})"
proof -
  have r: "resolve_addrs pf (p\<lparr>p_config := cfg\<rparr>) \<noteq> None \<longleftrightarrow> list_all (listener_ok pf cfg) [''session'', ''command'', ''http'']"
    by (auto simp: resolve_addrs_def simp flip: resolve_addr_ok split: option.splits)
  moreover have "config_text (p_config p') ''http'' ''listener'' \<notin> {None, Some []}"
    if "resolve_addrs pf (p\<lparr>p_config := cfg\<rparr>) = Some p'" for p'
  proof -
    have "listener_ok pf cfg ''http''" using r that by simp
    moreover have "p_config p' = cfg" using that by (auto simp: resolve_addrs_def split: option.splits)
    ultimately show ?thesis by (auto simp: listener_ok_def split: option.splits)
  qed
  ultimately show ?thesis
    using assms by (cases "resolve_addrs pf (p\<lparr>p_config := cfg\<rparr>)") (auto simp: main_setup_def)
qed

definition sample_arguments :: arguments where
  "sample_arguments = \<lparr>arg_path = Some [99], arg_exe_link = None, arg_realpath = Some, arg_stat = (\<lambda>_. True),
     arg_file = (\<lambda>_. Some (bytes_of_string ''[session]'' @ [10] @ bytes_of_string ''listener = 0.0.0.0:1'' @ [10] @
       bytes_of_string ''[command]'' @ [10] @ bytes_of_string ''listener = 0.0.0.0:2'' @ [10] @
       bytes_of_string ''[http]'' @ [10] @ bytes_of_string ''listener = 0.0.0.0:3'')),
     arg_grow = (\<lambda>_. Moved), arg_malloc = True\<rparr>"

definition sample_listeners :: YA_Config where
  "sample_listeners = fst (ya_config_parse (\<lambda>_. Moved) (arg_file sample_arguments [99]) ya_config_init)"

theorem main_needs_three_listeners_witness:
  "\<exists>p' lg w'. main_setup sample_platform sample_arguments sample_process sample_log_world = Defined (Inr (p', lg, w'))"
proof -
  have parsed: "ya_config_parse (arg_grow sample_arguments) (arg_file sample_arguments [99]) ya_config_init = (sample_listeners, 0)"
    by code_simp
  have none: "config_text sample_listeners ''logger'' ''file'' = None" "config_ptr sample_listeners ''logger'' ''file'' = None"
    and ok: "config_text sample_listeners ''session'' ''listener'' = Some (bytes_of_string ''0.0.0.0:1'')"
      "config_text sample_listeners ''command'' ''listener'' = Some (bytes_of_string ''0.0.0.0:2'')"
      "config_text sample_listeners ''http'' ''listener'' = Some (bytes_of_string ''0.0.0.0:3'')"
    by code_simp+
  obtain lg w' where init: "init_logger (arg_malloc sample_arguments) None (sample_log_world\<lparr>settings_cfg := sample_listeners\<rparr>) =
      Defined (0, lg, w')"
    by (simp add: init_logger_def none ensure_log_directory_def ya_logger_init_def logger_config_def sample_arguments_def Let_def)
  have "list_all (listener_ok sample_platform sample_listeners) [''session'', ''command'', ''http'']"
    using ok by (simp add: listener_ok_def sample_platform_def bytes_of_string_def)
  with main_needs_three_listeners [OF _ _ parsed init, of sample_platform sample_process]
  show ?thesis by (simp add: config_path_def file_exists_def sample_arguments_def)
qed

end
