(* ===== verification/CrashDump.thy ===== *)
theory CrashDump
  imports Logger
begin

text \<open>
  The crash reports of debug builds: \<open>ya_crash_dump.c\<close> on Linux.  The state is the configuration
  kept by \<open>ya_crash_dump_init\<close>, the directories (\<open>Utils\<close>), the report files by name, the handlers
  of the five signals and the signal that ended the process.  The local time, the text \<open>ctime\<close>
  gives for it and the lines of \<open>backtrace_symbols\<close> are arguments.
\<close>

record crash_dump_config =
  dump_dir :: "u8 list option"
  max_dumps :: u64
  compress_dumps :: i32

datatype signal_kind = SIGSEGV | SIGABRT | SIGFPE | SIGILL | SIGBUS

fun signal_number :: "signal_kind \<Rightarrow> nat" where
  "signal_number SIGSEGV = 11"
| "signal_number SIGABRT = 6"
| "signal_number SIGFPE = 8"
| "signal_number SIGILL = 4"
| "signal_number SIGBUS = 7"

datatype signal_action = SIG_DFL | CrashHandler

record crash_world =
  g_crash_config :: crash_dump_config
  dump_fs :: filesystem
  dump_files :: "u8 list \<Rightarrow> u8 list option"
  can_create :: "u8 list \<Rightarrow> bool"
  handlers :: "signal_kind \<Rightarrow> signal_action"
  killed_by :: "signal_kind option"

text \<open>A moment: the fields of \<open>localtime\<close>, the text of \<open>ctime\<close> and the trace, if there is one.\<close>

record moment =
  tm_year :: nat  \<comment> \<open>with 1900 added\<close>
  tm_mon :: nat  \<comment> \<open>with 1 added\<close>
  tm_mday :: nat
  tm_hour :: nat
  tm_min :: nat
  tm_sec :: nat
  ctime_text :: "u8 list"
  trace :: "u8 list list option"

definition no_config :: crash_dump_config where
  "no_config = \<lparr>dump_dir = None, max_dumps = 0, compress_dumps = 0\<rparr>"

section \<open>Operations\<close>

definition create_directory_recursive :: "u8 list \<Rightarrow> filesystem \<Rightarrow> filesystem \<times> int" where
  "create_directory_recursive path fs =
     (case ya_ensure_dir (Some path) fs of (fs', ret) \<Rightarrow> (fs', if ret \<noteq> 0 then - 1 else 0))"

definition ya_crash_dump_get_default_dir :: "u8 list" where
  "ya_crash_dump_get_default_dir = bytes_of_string ''./crash''"

definition ya_crash_dump_init :: "crash_dump_config option \<Rightarrow> crash_world \<Rightarrow> crash_world \<times> int" where
  "ya_crash_dump_init cfg w =
     (case cfg of
        None \<Rightarrow> (w, - 1)
      | Some c \<Rightarrow>
          let dir = (case dump_dir c of None \<Rightarrow> ya_crash_dump_get_default_dir | Some d \<Rightarrow> d)
          in case create_directory_recursive dir (dump_fs w) of (fs, r) \<Rightarrow>
               if r \<noteq> 0 then (w\<lparr>dump_fs := fs\<rparr>, - 1)
               else (w\<lparr>dump_fs := fs, g_crash_config := c\<lparr>dump_dir := Some dir\<rparr>\<rparr>, 0))"

definition ya_crash_dump_cleanup :: "crash_world \<Rightarrow> crash_world" where
  "ya_crash_dump_cleanup w = w\<lparr>g_crash_config := no_config\<rparr>"

text \<open>\<open>%0kd\<close> of \<open>printf\<close> for a number that is not negative.\<close>

definition padded :: "nat \<Rightarrow> nat \<Rightarrow> u8 list" where
  "padded k n = replicate (k - length (decimal n)) 48 @ decimal n"

definition stamp :: "moment \<Rightarrow> u8 list" where
  "stamp m = padded 4 (tm_year m) @ padded 2 (tm_mon m) @ padded 2 (tm_mday m) @ [45]
     @ padded 2 (tm_hour m) @ padded 2 (tm_min m) @ padded 2 (tm_sec m)"

definition dump_file :: "u8 list \<Rightarrow> moment \<Rightarrow> u8 list" where
  "dump_file dir m =
     take 511 (dir @ bytes_of_string ''/crash-'' @ stamp m @ bytes_of_string ''.txt'')"

definition crash_report :: "nat \<Rightarrow> u8 list option \<Rightarrow> moment \<Rightarrow> u8 list" where
  "crash_report sig reason m =
     bytes_of_string ''Crash Report'' @ [10] @ bytes_of_string ''============'' @ [10, 10]
     @ bytes_of_string ''Time: '' @ ctime_text m
     @ bytes_of_string ''Signal: '' @ decimal sig @ [10]
     @ (case reason of None \<Rightarrow> [] | Some r \<Rightarrow> bytes_of_string ''Reason: '' @ r @ [10])
     @ [10] @ bytes_of_string ''Stack Trace:'' @ [10]
     @ (case trace m of None \<Rightarrow> [] | Some ls \<Rightarrow> concat (map (\<lambda>l. l @ [10]) (take 50 ls)))"

text \<open>\<open>%s\<close> with a null pointer is undefined.\<close>

definition generate_crash_dump :: "nat \<Rightarrow> u8 list option \<Rightarrow> moment \<Rightarrow> crash_world \<Rightarrow> crash_world ub" where
  "generate_crash_dump sig reason m w =
     (case dump_dir (g_crash_config w) of
        None \<Rightarrow> UB
      | Some dir \<Rightarrow>
          let name = dump_file dir m
          in Defined (if can_create w name
                      then w\<lparr>dump_files := (dump_files w)(name := Some (crash_report sig reason m))\<rparr>
                      else w))"

text \<open>The handler ends in the default action of the signal, which ends the process.\<close>

definition crash_handler :: "signal_kind \<Rightarrow> moment \<Rightarrow> crash_world \<Rightarrow> crash_world ub" where
  "crash_handler sig m w =
     ub_bind (generate_crash_dump (signal_number sig) (Some (bytes_of_string ''Program crashed'')) m w)
       (\<lambda>w. Defined (w\<lparr>handlers := (handlers w)(sig := SIG_DFL), killed_by := Some sig\<rparr>))"

definition ya_crash_dump_generate :: "u8 list option \<Rightarrow> moment \<Rightarrow> crash_world \<Rightarrow> (crash_world \<times> int) ub" where
  "ya_crash_dump_generate reason m w =
     (if dump_dir (g_crash_config w) = None then Defined (w, - 1)
      else ub_bind (generate_crash_dump 0 reason m (w\<lparr>handlers := \<lambda>s. CrashHandler\<rparr>))
             (\<lambda>w. Defined (w, 0)))"

section \<open>The life of the process\<close>

datatype crash_event =
    Init "crash_dump_config option" | Cleanup | Generate "u8 list option" moment | Signal signal_kind moment

definition crash_step :: "crash_event \<Rightarrow> crash_world \<Rightarrow> crash_world ub" where
  "crash_step e w =
     (if killed_by w \<noteq> None then Defined w
      else case e of
        Init c \<Rightarrow> Defined (fst (ya_crash_dump_init c w))
      | Cleanup \<Rightarrow> Defined (ya_crash_dump_cleanup w)
      | Generate r m \<Rightarrow> ub_bind (ya_crash_dump_generate r m w) (\<lambda>(w, _). Defined w)
      | Signal s m \<Rightarrow>
          (case handlers w s of
             SIG_DFL \<Rightarrow> Defined (w\<lparr>killed_by := Some s\<rparr>)
           | CrashHandler \<Rightarrow> crash_handler s m w))"

fun crash_steps :: "crash_event list \<Rightarrow> crash_world \<Rightarrow> crash_world ub" where
  "crash_steps [] w = Defined w"
| "crash_steps (e # es) w = ub_bind (crash_step e w) (crash_steps es)"

text \<open>
  The handlers are installed by the first report, not by \<open>ya_crash_dump_init\<close>, and stay when the
  configuration is cleaned up.
\<close>

definition crash_inv :: "crash_world \<Rightarrow> bool" where
  "crash_inv w \<longleftrightarrow> ((\<exists>s. handlers w s = CrashHandler) \<longrightarrow> dump_dir (g_crash_config w) \<noteq> None)"

lemma crash_steps_append: "crash_steps (es @ fs) w = ub_bind (crash_steps es w) (crash_steps fs)"
proof (induction es arbitrary: w)
  case (Cons e es)
  then show ?case by (cases "crash_step e w") simp_all
qed simp

lemma crash_step_inv:
  assumes "crash_inv w" and "e \<noteq> Cleanup"
  shows "\<exists>w'. crash_step e w = Defined w' \<and> crash_inv w'"
  using assms
  by (auto simp: crash_step_def crash_inv_def ya_crash_dump_init_def ya_crash_dump_generate_def
      generate_crash_dump_def crash_handler_def Let_def
      split: crash_event.split signal_action.split option.splits prod.split if_splits)

lemma crash_steps_inv:
  "crash_inv w \<Longrightarrow> Cleanup \<notin> set es \<Longrightarrow> \<exists>w'. crash_steps es w = Defined w' \<and> crash_inv w'"
proof (induction es arbitrary: w)
  case (Cons e es)
  then obtain v where "crash_step e w = Defined v" "crash_inv v" using crash_step_inv [of w e] by auto
  then show ?case using Cons by simp
qed simp

text \<open>
  Without a clean-up no run is undefined.  A crash after the clean-up formats a null pointer
  exactly when the process still runs and its handler is still installed.
\<close>

lemma cleanup_leaves_handlers:
  assumes "crash_inv w" and "Cleanup \<notin> set es"
  shows "\<exists>w'. crash_steps es w = Defined w' \<and>
    (crash_steps (es @ [Cleanup, Signal s m]) w = UB \<longleftrightarrow> killed_by w' = None \<and> handlers w' s = CrashHandler)"
proof -
  obtain w' where w': "crash_steps es w = Defined w'" using crash_steps_inv [OF assms] by blast
  then show ?thesis
    by (auto simp: crash_steps_append crash_step_def ya_crash_dump_cleanup_def no_config_def
        crash_handler_def generate_crash_dump_def split: signal_action.splits option.splits)
qed

section \<open>Names of reports\<close>

definition valid_moment :: "moment \<Rightarrow> bool" where
  "valid_moment m \<longleftrightarrow> tm_year m < 10000 \<and> tm_mon m < 100 \<and> tm_mday m < 100 \<and> tm_hour m < 100
     \<and> tm_min m < 100 \<and> tm_sec m < 100"

lemma padded_lengths:
  "n < 10000 \<Longrightarrow> length (padded 4 n) = 4" "n < 100 \<Longrightarrow> length (padded 2 n) = 2"
  using decimal_length [of n 3] decimal_length [of n 1] by (simp_all add: padded_def)

lemma stamp_length: "valid_moment m \<Longrightarrow> length (stamp m) = 15"
  by (simp add: valid_moment_def stamp_def padded_lengths)

lemma dump_file_inject:
  assumes "valid_moment m" "valid_moment k" "length dir \<le> 480" and "dump_file dir m = dump_file dir k"
  shows "stamp m = stamp k"
proof -
  have "dump_file dir x = dir @ bytes_of_string ''/crash-'' @ stamp x @ bytes_of_string ''.txt''"
    if "valid_moment x" for x
    using stamp_length [OF that] assms(3) by (simp add: dump_file_def bytes_of_string_def)
  then show ?thesis using assms(1,2,4) stamp_length by simp
qed

section \<open>Reports are written and kept\<close>

definition report_entry :: "u8 list \<Rightarrow> u8 list option \<times> moment \<Rightarrow> u8 list \<times> u8 list" where
  "report_entry dir = (\<lambda>(r, m). (dump_file dir m, crash_report 0 r m))"

lemma generate_step:
  assumes "dump_dir (g_crash_config w) = Some dir" "\<forall>n. can_create w n" "killed_by w = None"
  shows "crash_step (Generate r m) w =
    Defined (w\<lparr>handlers := \<lambda>s. CrashHandler,
               dump_files := (dump_files w)(dump_file dir m \<mapsto> crash_report 0 r m)\<rparr>)"
  using assms by (simp add: crash_step_def ya_crash_dump_generate_def generate_crash_dump_def)

lemma generate_steps:
  assumes "dump_dir (g_crash_config w) = Some dir" "\<forall>n. can_create w n" "killed_by w = None"
  shows "\<exists>w'. crash_steps (map (\<lambda>(r, m). Generate r m) gens) w = Defined w'
    \<and> dump_dir (g_crash_config w') = Some dir \<and> (\<forall>n. can_create w' n) \<and> killed_by w' = None
    \<and> (gens \<noteq> [] \<longrightarrow> handlers w' = (\<lambda>s. CrashHandler))
    \<and> dump_files w' = dump_files w ++ map_of (rev (map (report_entry dir) gens))"
  using assms
proof (induction gens arbitrary: w)
  case (Cons g gens)
  obtain r m where g: "g = (r, m)" by (cases g)
  let ?v = "w\<lparr>handlers := \<lambda>s. CrashHandler,
             dump_files := (dump_files w)(dump_file dir m \<mapsto> crash_report 0 r m)\<rparr>"
  have "dump_dir (g_crash_config ?v) = Some dir" "\<forall>n. can_create ?v n" "killed_by ?v = None"
    using Cons.prems by simp_all
  from Cons.IH [OF this] obtain w' where w': "crash_steps (map (\<lambda>(r, m). Generate r m) gens) ?v = Defined w'"
      "dump_dir (g_crash_config w') = Some dir" "\<forall>n. can_create w' n" "killed_by w' = None"
      "gens \<noteq> [] \<longrightarrow> handlers w' = (\<lambda>s. CrashHandler)"
      "dump_files w' = dump_files ?v ++ map_of (rev (map (report_entry dir) gens))"
    by blast
  have "handlers w' = (\<lambda>s. CrashHandler)"
    using w'(1,5) by (cases "gens = []") auto
  moreover have "crash_steps (map (\<lambda>(r, m). Generate r m) (g # gens)) w = Defined w'"
    using generate_step [OF Cons.prems] w'(1) by (simp add: g)
  moreover have "dump_files w' = dump_files w ++ map_of (rev (map (report_entry dir) (g # gens)))"
    unfolding w'(6) by (simp add: g report_entry_def)
  ultimately show ?case using w'(2-4) by auto
qed simp


definition sample_moment :: "nat \<Rightarrow> moment" where
  "sample_moment s = \<lparr>tm_year = 2025, tm_mon = 1, tm_mday = 2, tm_hour = 3, tm_min = 4, tm_sec = s,
     ctime_text = [10], trace = None\<rparr>"

definition sample_crash_world :: crash_world where
  "sample_crash_world = \<lparr>g_crash_config = \<lparr>dump_dir = Some [46], max_dumps = 1, compress_dumps = 0\<rparr>,
     dump_fs = \<lparr>dirs = [[46]], creatable = \<lambda>_. False\<rparr>, dump_files = \<lambda>_. None, can_create = \<lambda>_. True,
     handlers = \<lambda>_. SIG_DFL, killed_by = None\<rparr>"


end
