(* ===== verification/Xdo.thy ===== *)
theory Xdo
  imports Uinput
begin

text \<open>
  Mouse control over libxdo, \<open>ya_xdo.c\<close>, which the server does not call.  The library is external:
  the state keeps the calls made to it and the results it will still return (\<open>xdo_new\<close> succeeds
  or not; the other calls return 0 for success); when none are left, calls succeed.
\<close>

datatype CCoordinate = Abs | Rel

datatype xdo_call =
    Xdo_new | Move_relative i32 i32 | Move_absolute i32 i32 | Mouse_down nat | Mouse_up nat
  | Click_window nat

record xdo_state =
  g_xdo :: bool  \<comment> \<open>the handle is not null\<close>
  xdo_calls :: "xdo_call list"
  xdo_results :: "bool list"

definition xdo_call :: "xdo_call \<Rightarrow> xdo_state \<Rightarrow> xdo_state \<times> bool" where
  "xdo_call c x =
     (x\<lparr>xdo_calls := xdo_calls x @ [c], xdo_results := tl (xdo_results x)\<rparr>,
      xdo_results x = [] \<or> hd (xdo_results x))"

definition ensure_xdo :: "xdo_state \<Rightarrow> xdo_state \<times> int" where
  "ensure_xdo x =
     (if g_xdo x then (x, 0)
      else case xdo_call Xdo_new x of (x, opened) \<Rightarrow>
             (x\<lparr>g_xdo := opened\<rparr>, if opened then 0 else - 1))"

definition ya_xdo_move_mouse :: "i32 \<Rightarrow> i32 \<Rightarrow> CCoordinate \<Rightarrow> xdo_state \<Rightarrow> xdo_state \<times> YAError" where
  "ya_xdo_move_mouse x y coord s =
     (case ensure_xdo s of (s, r) \<Rightarrow>
        if r \<noteq> 0 then (s, PlatformError)
        else case xdo_call (if coord = Rel then Move_relative x y else Move_absolute x y) s of
               (s, moved) \<Rightarrow> (s, if \<not> moved then PlatformError else Success))"

fun map_button :: "CButton \<Rightarrow> nat" where
  "map_button Left = 1"
| "map_button Middle = 2"
| "map_button Right = 3"
| "map_button ScrollUp = 4"
| "map_button ScrollDown = 5"
| "map_button ScrollLeft = 6"
| "map_button ScrollRight = 7"
| "map_button _ = 1"

definition ya_xdo_button :: "CButton \<Rightarrow> CDirection \<Rightarrow> xdo_state \<Rightarrow> xdo_state \<times> YAError" where
  "ya_xdo_button button dir s =
     (case ensure_xdo s of (s, r) \<Rightarrow>
        if r \<noteq> 0 then (s, PlatformError)
        else let xb = map_button button
             in case xdo_call (case dir of Press \<Rightarrow> Mouse_down xb | Release \<Rightarrow> Mouse_up xb
                                | Click \<Rightarrow> Click_window xb) s of
                  (s, done) \<Rightarrow> (s, if done then Success else PlatformError))"

section \<open>One handle\<close>

text \<open>
  Whatever the library answers, every call but \<open>xdo_new\<close> has a handle, and no handle is opened
  while there is one: each \<open>xdo_new\<close> but the last of the calls has failed.
\<close>

datatype xdo_request = Move i32 i32 CCoordinate | Button CButton CDirection

fun serve_xdo :: "xdo_request \<Rightarrow> xdo_state \<Rightarrow> xdo_state" where
  "serve_xdo (Move x y c) s = fst (ya_xdo_move_mouse x y c s)"
| "serve_xdo (Button b d) s = fst (ya_xdo_button b d s)"

definition xdo_inv :: "xdo_state \<Rightarrow> bool" where
  "xdo_inv s \<longleftrightarrow> (\<exists>n. if g_xdo s then \<exists>cs. xdo_calls s = replicate (Suc n) Xdo_new @ cs \<and> Xdo_new \<notin> set cs
                  else xdo_calls s = replicate n Xdo_new)"

lemma xdo_inv_ensure: assumes "xdo_inv s" shows "xdo_inv (fst (ensure_xdo s))"
proof (cases "g_xdo s")
  case False
  then obtain n where n: "xdo_calls s = replicate n Xdo_new" using assms by (auto simp: xdo_inv_def)
  have "xdo_calls (fst (ensure_xdo s)) = replicate (Suc n) Xdo_new"
    using False n by (simp add: ensure_xdo_def xdo_call_def replicate_append_same)
  then show ?thesis unfolding xdo_inv_def by (intro exI [of _ "if g_xdo (fst (ensure_xdo s)) then n else Suc n"]) simp
qed (use assms in \<open>simp add: ensure_xdo_def\<close>)

lemma ensure_xdo_result: "snd (ensure_xdo s) = 0 \<longleftrightarrow> g_xdo (fst (ensure_xdo s))"
  by (simp add: ensure_xdo_def split: prod.split)

lemma xdo_inv_call: "xdo_inv s \<Longrightarrow> g_xdo s \<Longrightarrow> c \<noteq> Xdo_new \<Longrightarrow> xdo_inv (fst (xdo_call c s))"
  by (fastforce simp: xdo_inv_def xdo_call_def)

lemma xdo_request_inv: assumes "xdo_inv s" shows "xdo_inv (serve_xdo r s)"
proof -
  obtain t n where e: "ensure_xdo s = (t, n)" by (cases "ensure_xdo s")
  then have t: "xdo_inv t" "n = 0 \<longleftrightarrow> g_xdo t"
    using xdo_inv_ensure [OF assms] ensure_xdo_result [of s] by simp_all
  show ?thesis
  proof (cases r)
    case (Move x y c)
    then show ?thesis using e t xdo_inv_call [of t "if c = Rel then Move_relative x y else Move_absolute x y"]
      by (auto simp: ya_xdo_move_mouse_def split: prod.split if_splits)
  next
    case (Button b d)
    then show ?thesis using e t xdo_inv_call [of t "case d of Press \<Rightarrow> Mouse_down (map_button b)
        | Release \<Rightarrow> Mouse_up (map_button b) | Click \<Rightarrow> Click_window (map_button b)"]
      by (auto simp: ya_xdo_button_def Let_def split: prod.split CDirection.splits)
  qed
qed

lemma one_xdo_handle:
  "xdo_inv (fold serve_xdo rs \<lparr>g_xdo = False, xdo_calls = [], xdo_results = results\<rparr>)"
proof -
  have "xdo_inv \<lparr>g_xdo = False, xdo_calls = [], xdo_results = results\<rparr>"
    by (simp add: xdo_inv_def)
  then show ?thesis by (induction rs rule: rev_induct) (simp_all add: xdo_request_inv)
qed

text \<open>The buttons without a number of their own are the left button.\<close>

lemma side_buttons_are_left: "map_button b = 1 \<longleftrightarrow> b \<in> {Left, Back, Forward}"
  by (cases b) simp_all

end
