(* ===== verification/Diagnose.thy ===== *)
theory Diagnose
  imports Uinput Logger
begin

text \<open>
  The diagnosis of the virtual device's installation, \<open>input_linux_diagnose\<close> of
  \<open>input/backend/linux_uinput.c\<close>, which nothing calls.  Whether \<open>/dev/uinput\<close> exists and may be
  written, and the effective user, are arguments; the message is a buffer of 256 bytes.
\<close>

record diagnose_result =
  device_exists :: bool
  has_write_permission :: bool
  udev_rule_detected :: bool
  non_root_verified :: bool
  error_message :: "u8 list"

definition diagnose_text :: "bool \<Rightarrow> bool \<Rightarrow> u32 \<Rightarrow> u8 list" where
  "diagnose_text there may_write euid =
     (if \<not> there then
        bytes_of_string ''/dev/uinput does not exist. Load kernel module: sudo modprobe uinput''
      else if euid = 0 then
        bytes_of_string ''Running as root (EUID='' @ decimal (unat euid) @
        bytes_of_string ''). Application should run as non-root user with udev rules.''
      else if \<not> may_write then
        bytes_of_string ''No write permission to /dev/uinput (EUID='' @ decimal (unat euid) @
        bytes_of_string ''). Configure udev rules and reload: '' @
        bytes_of_string ''sudo udevadm control --reload-rules && sudo udevadm trigger''
      else
        bytes_of_string ''OK: Non-root user (EUID='' @ decimal (unat euid) @
        bytes_of_string '') can write to /dev/uinput'')"

text \<open>The status, and what is stored when there is a result to store it in.\<close>

definition input_linux_diagnose ::
    "bool \<Rightarrow> bool \<Rightarrow> u32 \<Rightarrow> bool \<Rightarrow> input_linux_status \<times> diagnose_result option" where
  "input_linux_diagnose there may_write euid has_result =
     (if \<not> has_result then (INPUT_BACKEND_ERROR_INVALID_PARAM, None)
      else (INPUT_BACKEND_OK, Some \<lparr>device_exists = there, has_write_permission = may_write,
        udev_rule_detected = False, non_root_verified = (euid \<noteq> 0),
        error_message = take 255 (diagnose_text there may_write euid)\<rparr>))"

text \<open>No message is cut by its buffer, and only the one that all is well begins with its letter.\<close>

lemma diagnose_text_length: "length (diagnose_text there may_write euid) \<le> 255"
proof -
  have "unat euid < 10 ^ 10" using unat_u32_bound [of euid] by simp
  then have "length (decimal (unat euid)) \<le> 10" by (intro decimal_length [of _ 9, simplified]) simp
  then show ?thesis by (simp add: diagnose_text_def bytes_of_string_def del: unat_eq_zero) (auto simp: decimal.simps)
qed

lemma diagnose_ok:
  "hd (diagnose_text there may_write euid) = of_char CHR ''O'' \<longleftrightarrow> there \<and> may_write \<and> euid \<noteq> 0"
  by (simp add: diagnose_text_def bytes_of_string_def)

end
