(* ===== verification/Portable.thy ===== *)
theory Portable
  imports Keyboard
begin

text \<open>
  Keyboard and pointer on macOS and Windows, where there is no virtual device: the key tables of
  \<open>input/keyboard/mapper.c\<close>, the chords of \<open>input/keyboard/handler.c\<close> and the other half of
  \<open>input/facade.c\<close>.  The calls go to the Rust library; its answers to the coming calls are
  \<open>answers\<close> (success when there are none left), what it was asked is \<open>requests\<close>.
\<close>

datatype rust_request =
    MoveMouse i32 i32 | MouseButton CButton CDirection | KeyAction CKey CDirection
  | KeyPlatformCode u32 CDirection | KeyUnicode u32 CDirection

record rust_world =
  answers :: "YAError list"
  requests :: "rust_request list"

definition ask_rust :: "rust_request \<Rightarrow> rust_world \<Rightarrow> rust_world \<times> YAError" where
  "ask_rust req w =
     (w\<lparr>requests := requests w @ [req], answers := tl (answers w)\<rparr>,
      case answers w of [] \<Rightarrow> Success | e # _ \<Rightarrow> e)"

section \<open>The facade\<close>

definition input_mouse_move_rs :: "i32 \<Rightarrow> i32 \<Rightarrow> rust_world \<Rightarrow> rust_world \<times> YAError" where
  "input_mouse_move_rs dx dy w = ask_rust (MoveMouse dx dy) w"

definition input_mouse_button_rs :: "CButton \<Rightarrow> CDirection \<Rightarrow> rust_world \<Rightarrow> rust_world \<times> YAError" where
  "input_mouse_button_rs btn dir w = ask_rust (MouseButton btn dir) w"

definition input_key_action_rs :: "CKey \<Rightarrow> CDirection \<Rightarrow> rust_world \<Rightarrow> rust_world \<times> YAError" where
  "input_key_action_rs key dir w = ask_rust (KeyAction key dir) w"

definition wheel_button :: "i32 \<Rightarrow> CButton option" where
  "wheel_button dir =
     (if dir = 0 then Some ScrollUp else if dir = 1 then Some ScrollDown
      else if dir = 2 then Some ScrollLeft else if dir = 3 then Some ScrollRight else None)"

fun scroll_clicks :: "nat \<Rightarrow> CButton \<Rightarrow> rust_world \<Rightarrow> rust_world \<times> YAError" where
  "scroll_clicks 0 btn w = (w, Success)"
| "scroll_clicks (Suc n) btn w =
     (case input_mouse_button_rs btn Click w of (w1, err) \<Rightarrow>
        if err \<noteq> Success then (w1, err) else scroll_clicks n btn w1)"

definition input_mouse_scroll_rs :: "i32 \<Rightarrow> i32 \<Rightarrow> rust_world \<Rightarrow> rust_world \<times> YAError" where
  "input_mouse_scroll_rs amount dir w =
     (case wheel_button dir of
        None \<Rightarrow> (w, InvalidInput)
      | Some btn \<Rightarrow> scroll_clicks (nat (sint amount)) btn w)"

section \<open>Key tables\<close>

text \<open>
  A switch lists keys with the character they give without and with shift; the space bar gives
  the same with both and is listed without.
\<close>

definition switch_char :: "u32 \<Rightarrow> (char \<times> char \<times> u32) list \<Rightarrow> i32 \<Rightarrow> (u32 \<times> bool) option" where
  "switch_char space keys ch =
     (if ch = of_char CHR '' '' then Some (space, False)
      else case find (\<lambda>(plain, shifted, _). ch = of_char plain \<or> ch = of_char shifted) keys of
        None \<Rightarrow> None
      | Some (_, shifted, code) \<Rightarrow> Some (code, ch = of_char shifted))"

text \<open>The codes \<open>kVK_\<close> of \<open>mapper.c\<close>.\<close>

definition macos_keys :: "(char \<times> char \<times> u32) list" where
  "macos_keys =
    [(CHR ''a'', CHR ''A'', 0x00), (CHR ''b'', CHR ''B'', 0x0B), (CHR ''c'', CHR ''C'', 0x08),
     (CHR ''d'', CHR ''D'', 0x02), (CHR ''e'', CHR ''E'', 0x0E), (CHR ''f'', CHR ''F'', 0x03),
     (CHR ''g'', CHR ''G'', 0x05), (CHR ''h'', CHR ''H'', 0x04), (CHR ''i'', CHR ''I'', 0x22),
     (CHR ''j'', CHR ''J'', 0x26), (CHR ''k'', CHR ''K'', 0x28), (CHR ''l'', CHR ''L'', 0x25),
     (CHR ''m'', CHR ''M'', 0x2E), (CHR ''n'', CHR ''N'', 0x2D), (CHR ''o'', CHR ''O'', 0x1F),
     (CHR ''p'', CHR ''P'', 0x23), (CHR ''q'', CHR ''Q'', 0x0C), (CHR ''r'', CHR ''R'', 0x0F),
     (CHR ''s'', CHR ''S'', 0x01), (CHR ''t'', CHR ''T'', 0x11), (CHR ''u'', CHR ''U'', 0x20),
     (CHR ''v'', CHR ''V'', 0x09), (CHR ''w'', CHR ''W'', 0x0D), (CHR ''x'', CHR ''X'', 0x07),
     (CHR ''y'', CHR ''Y'', 0x10), (CHR ''z'', CHR ''Z'', 0x06),
     (CHR ''0'', CHR '')'', 0x1D), (CHR ''1'', CHR ''!'', 0x12), (CHR ''2'', CHR ''@'', 0x13),
     (CHR ''3'', CHR ''#'', 0x14), (CHR ''4'', CHR ''$'', 0x15), (CHR ''5'', CHR ''%'', 0x17),
     (CHR ''6'', CHR ''^'', 0x16), (CHR ''7'', CHR ''&'', 0x1A), (CHR ''8'', CHR ''*'', 0x1C),
     (CHR ''9'', CHR ''('', 0x19), (CHR ''-'', CHR ''_'', 0x1B), (CHR ''='', CHR ''+'', 0x18),
     (CHR 0x60, CHR ''~'', 0x32), (CHR ''['', CHR ''{'', 0x21), (CHR '']'', CHR ''}'', 0x1E),
     (CHR 0x5C, CHR ''|'', 0x2A), (CHR '';'', CHR '':'', 0x29), (CHR 0x27, CHR 0x22, 0x27),
     (CHR '','', CHR ''<'', 0x2B), (CHR ''.'', CHR ''>'', 0x2F), (CHR ''/'', CHR ''?'', 0x2C)]"

definition map_char_to_platform_macos :: "i32 \<Rightarrow> (u32 \<times> bool) option" where
  "map_char_to_platform_macos ch = switch_char 0x31 macos_keys ch"

text \<open>The codes \<open>VK_\<close> of the Windows headers.\<close>

definition windows_keys :: "(char \<times> char \<times> u32) list" where
  "windows_keys =
    [(CHR ''a'', CHR ''A'', of_char CHR ''A''), (CHR ''b'', CHR ''B'', of_char CHR ''B''),
     (CHR ''c'', CHR ''C'', of_char CHR ''C''), (CHR ''d'', CHR ''D'', of_char CHR ''D''),
     (CHR ''e'', CHR ''E'', of_char CHR ''E''), (CHR ''f'', CHR ''F'', of_char CHR ''F''),
     (CHR ''g'', CHR ''G'', of_char CHR ''G''), (CHR ''h'', CHR ''H'', of_char CHR ''H''),
     (CHR ''i'', CHR ''I'', of_char CHR ''I''), (CHR ''j'', CHR ''J'', of_char CHR ''J''),
     (CHR ''k'', CHR ''K'', of_char CHR ''K''), (CHR ''l'', CHR ''L'', of_char CHR ''L''),
     (CHR ''m'', CHR ''M'', of_char CHR ''M''), (CHR ''n'', CHR ''N'', of_char CHR ''N''),
     (CHR ''o'', CHR ''O'', of_char CHR ''O''), (CHR ''p'', CHR ''P'', of_char CHR ''P''),
     (CHR ''q'', CHR ''Q'', of_char CHR ''Q''), (CHR ''r'', CHR ''R'', of_char CHR ''R''),
     (CHR ''s'', CHR ''S'', of_char CHR ''S''), (CHR ''t'', CHR ''T'', of_char CHR ''T''),
     (CHR ''u'', CHR ''U'', of_char CHR ''U''), (CHR ''v'', CHR ''V'', of_char CHR ''V''),
     (CHR ''w'', CHR ''W'', of_char CHR ''W''), (CHR ''x'', CHR ''X'', of_char CHR ''X''),
     (CHR ''y'', CHR ''Y'', of_char CHR ''Y''), (CHR ''z'', CHR ''Z'', of_char CHR ''Z''),
     (CHR ''0'', CHR '')'', 0x30), (CHR ''1'', CHR ''!'', 0x31), (CHR ''2'', CHR ''@'', 0x32),
     (CHR ''3'', CHR ''#'', 0x33), (CHR ''4'', CHR ''$'', 0x34), (CHR ''5'', CHR ''%'', 0x35),
     (CHR ''6'', CHR ''^'', 0x36), (CHR ''7'', CHR ''&'', 0x37), (CHR ''8'', CHR ''*'', 0x38),
     (CHR ''9'', CHR ''('', 0x39), (CHR ''-'', CHR ''_'', 0xBD), (CHR ''='', CHR ''+'', 0xBB),
     (CHR 0x60, CHR ''~'', 0xC0), (CHR ''['', CHR ''{'', 0xDB), (CHR '']'', CHR ''}'', 0xDD),
     (CHR 0x5C, CHR ''|'', 0xDC), (CHR '';'', CHR '':'', 0xBA), (CHR 0x27, CHR 0x22, 0xDE),
     (CHR '','', CHR ''<'', 0xBC), (CHR ''.'', CHR ''>'', 0xBE), (CHR ''/'', CHR ''?'', 0xBF)]"

definition map_char_to_platform_windows :: "i32 \<Rightarrow> (u32 \<times> bool) option" where
  "map_char_to_platform_windows ch = switch_char 0x20 windows_keys ch"

text \<open>Another system than the two has no table.\<close>

datatype system = MacOS | Windows | OtherSystem

definition map_char_to_platform :: "system \<Rightarrow> i32 \<Rightarrow> (u32 \<times> bool) option" where
  "map_char_to_platform sys ch =
     (case sys of
        MacOS \<Rightarrow> map_char_to_platform_macos ch
      | Windows \<Rightarrow> map_char_to_platform_windows ch
      | OtherSystem \<Rightarrow> None)"

section \<open>Chords\<close>

text \<open>The result of pressing or releasing a modifier is not looked at.\<close>

definition modifier_if :: "bool \<Rightarrow> CKey \<Rightarrow> CDirection \<Rightarrow> rust_world \<Rightarrow> rust_world" where
  "modifier_if wanted key dir w = (if wanted then fst (input_key_action_rs key dir w) else w)"

definition press_user_modifiers :: "u32 \<Rightarrow> rust_world \<Rightarrow> rust_world" where
  "press_user_modifiers user_mods w =
     (let w1 = modifier_if (user_mods AND CHORD_MOD_SHIFT \<noteq> 0) CK_Shift Press w;
          w2 = modifier_if (user_mods AND CHORD_MOD_CTRL \<noteq> 0) CK_Control Press w1;
          w3 = modifier_if (user_mods AND CHORD_MOD_ALT \<noteq> 0) CK_Alt Press w2
      in modifier_if (user_mods AND CHORD_MOD_META \<noteq> 0) CK_Meta Press w3)"

definition release_user_modifiers :: "u32 \<Rightarrow> rust_world \<Rightarrow> rust_world" where
  "release_user_modifiers user_mods w =
     (let w1 = modifier_if (user_mods AND CHORD_MOD_META \<noteq> 0) CK_Meta Release w;
          w2 = modifier_if (user_mods AND CHORD_MOD_ALT \<noteq> 0) CK_Alt Release w1;
          w3 = modifier_if (user_mods AND CHORD_MOD_CTRL \<noteq> 0) CK_Control Release w2
      in modifier_if (user_mods AND CHORD_MOD_SHIFT \<noteq> 0) CK_Shift Release w3)"

definition input_char_unified ::
    "system \<Rightarrow> i32 \<Rightarrow> u32 \<Rightarrow> CDirection \<Rightarrow> rust_world \<Rightarrow> rust_world \<times> YAError" where
  "input_char_unified sys codepoint user_mods dir w =
     (case map_char_to_platform sys codepoint of
        Some (platform_code, platform_shift) \<Rightarrow>
          let own_shift = (platform_shift \<and> user_mods AND CHORD_MOD_SHIFT = 0);
              w1 = press_user_modifiers user_mods w;
              w2 = modifier_if own_shift CK_Shift Press w1;
              (w3, err) = ask_rust (KeyPlatformCode platform_code dir) w2;
              w4 = modifier_if own_shift CK_Shift Release w3
          in (release_user_modifiers user_mods w4, err)
      | None \<Rightarrow> ask_rust (KeyUnicode codepoint dir) w)"

definition input_function_key :: "CKey \<Rightarrow> u32 \<Rightarrow> CDirection \<Rightarrow> rust_world \<Rightarrow> rust_world \<times> YAError" where
  "input_function_key key user_mods dir w =
     (let w1 = press_user_modifiers user_mods w;
          (w2, err) = input_key_action_rs key dir w1
      in (release_user_modifiers user_mods w2, err))"

definition keyboard_char_rs ::
    "system \<Rightarrow> i32 \<Rightarrow> u32 \<Rightarrow> CDirection \<Rightarrow> rust_world \<Rightarrow> rust_world \<times> YAError" where
  "keyboard_char_rs sys codepoint mods dir w = input_char_unified sys codepoint mods dir w"

definition keyboard_function_key_rs ::
    "CKey \<Rightarrow> u32 \<Rightarrow> CDirection \<Rightarrow> rust_world \<Rightarrow> rust_world \<times> YAError" where
  "keyboard_function_key_rs key mods dir w = input_function_key key mods dir w"

section \<open>What a chord asks of the library\<close>

text \<open>The modifiers a mask names, in the order they are pressed, and the answer to a later call.\<close>

definition user_keys :: "u32 \<Rightarrow> CKey list" where
  "user_keys mods =
     (if mods AND CHORD_MOD_SHIFT \<noteq> 0 then [CK_Shift] else []) @
     (if mods AND CHORD_MOD_CTRL \<noteq> 0 then [CK_Control] else []) @
     (if mods AND CHORD_MOD_ALT \<noteq> 0 then [CK_Alt] else []) @
     (if mods AND CHORD_MOD_META \<noteq> 0 then [CK_Meta] else [])"

definition nth_answer :: "rust_world \<Rightarrow> nat \<Rightarrow> YAError" where
  "nth_answer w n = (if n < length (answers w) then answers w ! n else Success)"

definition chord :: "CKey list \<Rightarrow> rust_request \<Rightarrow> rust_request list" where
  "chord ks req = map (\<lambda>k. KeyAction k Press) ks @ req # map (\<lambda>k. KeyAction k Release) (rev ks)"

definition asked :: "rust_request list \<Rightarrow> rust_world \<Rightarrow> rust_world" where
  "asked reqs w = w\<lparr>requests := requests w @ reqs, answers := drop (length reqs) (answers w)\<rparr>"

text \<open>The keys held down after a sequence of requests that were all carried out.\<close>

fun held_keys :: "CKey set \<Rightarrow> rust_request list \<Rightarrow> CKey set" where
  "held_keys S [] = S"
| "held_keys S (KeyAction k dir # rs) = held_keys (if dir = Press then insert k S else S - {k}) rs"
| "held_keys S (_ # rs) = held_keys S rs"

lemma asked_simps [simp]:
  "asked [] w = w" "asked qs (asked ps w) = asked (ps @ qs) w" "requests (asked ps w) = requests w @ ps"
  by (simp_all add: asked_def add.commute)

lemma nth_answer_asked [simp]: "nth_answer (asked ps w) n = nth_answer w (length ps + n)"
  by (auto simp: nth_answer_def asked_def)

lemma ask_rust_asked: "ask_rust req w = (asked [req] w, nth_answer w 0)"
  by (cases "answers w") (simp_all add: ask_rust_def asked_def nth_answer_def)

lemma modifier_if_asked: "modifier_if b k dir w = asked (if b then [KeyAction k dir] else []) w"
  by (simp add: modifier_if_def input_key_action_rs_def ask_rust_asked)

lemma press_user_asked: "press_user_modifiers mods w = asked (map (\<lambda>k. KeyAction k Press) (user_keys mods)) w"
  by (simp add: press_user_modifiers_def modifier_if_asked user_keys_def Let_def)

lemma release_user_asked:
  "release_user_modifiers mods w = asked (map (\<lambda>k. KeyAction k Release) (rev (user_keys mods))) w"
  by (simp add: release_user_modifiers_def modifier_if_asked user_keys_def Let_def)

lemma held_keys_append [simp]: "held_keys S (ps @ qs) = held_keys (held_keys S ps) qs"
  by (induction S ps rule: held_keys.induct) simp_all

lemma held_keys_presses: "held_keys S (map (\<lambda>k. KeyAction k Press) ks) = S \<union> set ks"
  by (induction ks arbitrary: S) auto

lemma held_keys_releases: "held_keys S (map (\<lambda>k. KeyAction k Release) ks) = S - set ks"
  by (induction ks arbitrary: S) auto

lemma user_shift: "CK_Shift \<in> set (user_keys mods) \<longleftrightarrow> mods AND CHORD_MOD_SHIFT \<noteq> 0"
  by (simp add: user_keys_def)

lemma distinct_user_keys: "distinct (user_keys mods)"
  by (simp add: user_keys_def)

lemma input_char_asked:
  assumes "map_char_to_platform sys cp = Some (code, shift)"
  shows "keyboard_char_rs sys cp mods dir w =
     (let ks = user_keys mods @ (if shift \<and> CK_Shift \<notin> set (user_keys mods) then [CK_Shift] else [])
      in (asked (chord ks (KeyPlatformCode code dir)) w, nth_answer w (length ks)))"
  using assms
  by (simp add: keyboard_char_rs_def input_char_unified_def Let_def press_user_asked release_user_asked
      modifier_if_asked ask_rust_asked chord_def user_shift)

text \<open>C17. A character of the system's key table is typed as one chord, whatever the library answers:
  the user's modifiers and, when needed, shift are pressed in order, the key acts, and they are
  released in reverse.  The result is the answer for the key alone, and no modifier of the chord is
  held afterwards.
\<close>

theorem portable_char_chord:
  assumes "map_char_to_platform sys cp = Some (code, shift)"
    and "ks = user_keys mods @ (if shift \<and> CK_Shift \<notin> set (user_keys mods) then [CK_Shift] else [])"
    and "keyboard_char_rs sys cp mods dir w = (w', err)"
  shows "requests w' = requests w @ chord ks (KeyPlatformCode code dir) \<and> distinct ks \<and>
    err = nth_answer w (length ks) \<and>
    held_keys {} (requests w') = held_keys {} (requests w) - set ks"
proof -
  have "w' = asked (chord ks (KeyPlatformCode code dir)) w" "err = nth_answer w (length ks)"
    using assms(3) unfolding input_char_asked [OF assms(1)] Let_def assms(2) [symmetric] by simp_all
  moreover have "distinct ks" using assms(2) distinct_user_keys [of mods] by (auto split: if_splits)
  ultimately show ?thesis
    by (auto simp: chord_def held_keys_presses held_keys_releases)
qed

theorem portable_char_chord_witness:
  "requests (fst (keyboard_char_rs Windows 65 2 Click \<lparr>answers = [PlatformError], requests = []\<rparr>)) =
     [KeyAction CK_Control Press, KeyAction CK_Shift Press, KeyPlatformCode 65 Click,
      KeyAction CK_Shift Release, KeyAction CK_Control Release]"
proof -
  have m: "map_char_to_platform Windows 65 = Some (65, True)" by code_simp
  obtain w' err where
    r: "keyboard_char_rs Windows 65 2 Click \<lparr>answers = [PlatformError], requests = []\<rparr> = (w', err)"
    by fastforce
  show ?thesis
    using portable_char_chord [OF m refl r] r by (simp add: chord_def user_keys_def)
qed

text \<open>Any other character goes to the library as it is, and the user's modifiers are dropped.\<close>

lemma unmapped_char_drops_modifiers:
  "map_char_to_platform sys cp = None \<Longrightarrow>
     keyboard_char_rs sys cp mods dir w = (asked [KeyUnicode cp dir] w, nth_answer w 0)"
  by (simp add: keyboard_char_rs_def input_char_unified_def ask_rust_asked)

lemma portable_function_key:
  "keyboard_function_key_rs key mods dir w =
     (asked (chord (user_keys mods) (KeyAction key dir)) w, nth_answer w (length (user_keys mods)))"
  by (simp add: keyboard_function_key_rs_def input_function_key_def press_user_asked release_user_asked
      input_key_action_rs_def ask_rust_asked chord_def)

text \<open>Scrolling clicks until the first failure; an amount that is not positive succeeds.\<close>

lemma scroll_clicks_stop:
  "scroll_clicks n btn w =
     (let k = length (takeWhile (\<lambda>i. nth_answer w i = Success) [0..<n])
      in (asked (replicate (min n (Suc k)) (MouseButton btn Click)) w,
          if k < n then nth_answer w k else Success))"
proof (induction n arbitrary: w)
  case (Suc n)
  have upt: "[0..<Suc n] = 0 # map Suc [0..<n]" by (simp add: upt_conv_Cons map_Suc_upt)
  show ?case
    by (simp add: upt takeWhile_map comp_def input_mouse_button_rs_def ask_rust_asked Suc Let_def del: upt_Suc)
qed simp

section \<open>The two key tables\<close>

text \<open>The characters of a table, and the Windows code of the key that has a code on macOS.\<close>

definition table_chars :: "(char \<times> char \<times> u32) list \<Rightarrow> char list" where
  "table_chars keys = CHR '' '' # concat (map (\<lambda>(plain, shifted, _). [plain, shifted]) keys)"

definition table_codes :: "u32 \<Rightarrow> (char \<times> char \<times> u32) list \<Rightarrow> u32 list" where
  "table_codes space keys = space # map (\<lambda>(_, _, code). code) keys"

definition windows_code :: "u32 \<Rightarrow> u32" where
  "windows_code c =
     (case map_of (zip (table_codes 0x31 macos_keys) (table_codes 0x20 windows_keys)) c of
        Some d \<Rightarrow> d | None \<Rightarrow> c)"

lemma unat_of_char_i32: "unat (of_char c :: i32) = of_char c"
proof -
  have "(of_char c :: i32) = word_of_nat (of_char c)" by (simp add: of_nat_of_char)
  moreover have "(of_char c :: nat) < 2 ^ 32" using nat_of_char_less_256 [of c] by (rule less_trans) simp
  ultimately show ?thesis by (simp add: unat_of_nat take_bit_eq_mod)
qed

lemma switch_char_dom:
  "switch_char space keys ch \<noteq> None \<longleftrightarrow> ch \<in> of_char ` set (table_chars keys)"
proof (cases "ch = of_char CHR '' ''")
  case False
  have "(switch_char space keys ch \<noteq> None) =
      (\<exists>(plain, shifted, _) \<in> set keys. ch = of_char plain \<or> ch = of_char shifted)"
    using False find_Some_set [where xs = keys]
    by (auto simp: switch_char_def find_None_iff split: option.split prod.split; blast)
  also have "\<dots> = (ch \<in> of_char ` set (table_chars keys))"
    using False by (fastforce simp: table_chars_def)
  finally show ?thesis .
qed (simp add: switch_char_def table_chars_def)

lemma switch_char_map:
  "switch_char (f space) (map (\<lambda>(a, b, c). (a, b, f c)) keys) ch =
     map_option (\<lambda>(c, s). (f c, s)) (switch_char space keys ch)"
  by (simp add: switch_char_def) (induction keys, auto split: option.splits)

lemma switch_char_key:
  assumes "switch_char space keys ch = Some (code, s)"
  shows "ch = of_char CHR '' '' \<and> code = space \<and> \<not> s \<or>
    (\<exists>plain shifted. (plain, shifted, code) \<in> set keys \<and>
       (if s then ch = of_char shifted else ch = of_char plain))"
proof (cases "ch = of_char CHR '' ''")
  case True
  with assms show ?thesis by (simp add: switch_char_def)
next
  case False
  then obtain p where p: "find (\<lambda>(plain, shifted, _). ch = of_char plain \<or> ch = of_char shifted) keys = Some p"
    using assms by (auto simp: switch_char_def split: option.splits)
  obtain plain shifted c where "p = (plain, shifted, c)" by (cases p) auto
  with find_Some_set [OF p] p assms False show ?thesis by (auto simp: switch_char_def)
qed

lemma switch_char_inj:
  assumes "distinct (table_codes space keys)"
  shows "inj_on (switch_char space keys) (dom (switch_char space keys))"
proof (rule inj_onI)
  fix x y
  assume "x \<in> dom (switch_char space keys)" and eq: "switch_char space keys x = switch_char space keys y"
  then obtain code s where x: "switch_char space keys x = Some (code, s)" by (metis domD surj_pair)
  from assms have codes: "space \<notin> (\<lambda>(_, _, c). c) ` set keys" "inj_on (\<lambda>(_, _, c). c) (set keys)"
    by (simp_all add: table_codes_def distinct_map)
  have y: "switch_char space keys y = Some (code, s)" using x eq by simp
  from switch_char_key [OF x] switch_char_key [OF y] show "x = y"
  proof (elim disjE exE conjE)
    fix a b a' b'
    assume e: "(a, b, code) \<in> set keys" "(a', b', code) \<in> set keys"
      and xy: "if s then x = of_char b else x = of_char a" "if s then y = of_char b' else y = of_char a'"
    from codes(2) e have "(a, b, code) = (a', b', code)" by (auto dest: inj_onD [where x = "(a, b, code)" and y = "(a', b', code)"])
    with xy show ?thesis by (simp split: if_splits)
  qed (use codes(1) in \<open>force simp: image_iff\<close>)+
qed

lemma table_numbers:
  "map of_char (table_chars macos_keys) =
    [32, 97, 65, 98, 66, 99, 67, 100, 68, 101, 69, 102, 70, 103, 71, 104, 72, 105, 73, 106, 74,
     107, 75, 108, 76, 109, 77, 110, 78, 111, 79, 112, 80, 113, 81, 114, 82, 115, 83, 116, 84,
     117, 85, 118, 86, 119, 87, 120, 88, 121, 89, 122, 90, 48, 41, 49, 33, 50, 64, 51, 35, 52, 36,
     53, 37, 54, 94, 55, 38, 56, 42, 57, 40, 45, 95, 61, 43, 96, 126, 91, 123, 93, 125, 92, 124,
     59, 58, 39, 34, 44, 60, 46, 62, 47, 63 :: nat]"
  by (simp add: table_chars_def macos_keys_def)

lemma printable_chars: "of_char ` set (table_chars macos_keys) = {32..<127 :: nat}"
proof (rule card_subset_eq)
  have "card (set (map of_char (table_chars macos_keys) :: nat list)) = 95"
    by (subst distinct_card) (simp_all only: table_numbers, simp_all)
  then show "card (of_char ` set (table_chars macos_keys) :: nat set) = card {32..<127 :: nat}" by simp
  have "set (map of_char (table_chars macos_keys)) \<subseteq> {32..<127 :: nat}" unfolding table_numbers by simp
  then show "of_char ` set (table_chars macos_keys) \<subseteq> {32..<127 :: nat}" by simp
qed simp

lemma windows_keys_recoded: "windows_keys = map (\<lambda>(a, b, c). (a, b, windows_code c)) macos_keys"
  by (simp add: windows_keys_def macos_keys_def windows_code_def table_codes_def)

lemma windows_space: "windows_code 0x31 = 0x20"
  by (simp add: windows_code_def table_codes_def)

lemma distinct_codes:
  "distinct (table_codes 0x31 macos_keys)" "distinct (table_codes 0x20 windows_keys)"
  by (simp_all add: table_codes_def macos_keys_def windows_keys_def)

lemma sint_range_unat: "32 \<le> unat ch \<and> unat ch < 127 \<longleftrightarrow> 32 \<le> sint (ch :: i32) \<and> sint ch \<le> 126"
proof
  assume u: "32 \<le> unat ch \<and> unat ch < 127"
  then have n: "0 \<le> int (unat ch)" "int (unat ch) < 127" by linarith+
  have "sint (word_of_int (int (unat ch)) :: i32) = int (unat ch)"
    by (rule sint_word_of_int_i32; rule order_trans [OF _ n(1)] order.strict_trans [OF n(2)]) simp_all
  then have "sint ch = int (unat ch)" by simp
  with u show "32 \<le> sint ch \<and> sint ch \<le> 126" by linarith
next
  assume "32 \<le> sint ch \<and> sint ch \<le> 126"
  then show "32 \<le> unat ch \<and> unat ch < 127" using sint_nonneg_unat [of ch] by linarith
qed

lemma printable_i32: "ch \<in> of_char ` set (table_chars macos_keys) \<longleftrightarrow> 32 \<le> sint (ch :: i32) \<and> sint ch \<le> 126"
proof -
  have "ch \<in> of_char ` set (table_chars macos_keys) \<longleftrightarrow> unat ch \<in> of_char ` set (table_chars macos_keys)"
    by (simp only: image_iff unat_of_char_i32 [symmetric] word_unat_eq_iff)
  also have "\<dots> \<longleftrightarrow> unat ch \<in> {32..<127}" by (simp only: printable_chars)
  also have "\<dots> \<longleftrightarrow> 32 \<le> sint ch \<and> sint ch \<le> 126"
    unfolding atLeastLessThan_iff by (rule sint_range_unat)
  finally show ?thesis .
qed

text \<open>C18. The key tables of macOS and Windows describe one keyboard, the characters of which are the
  printable ASCII characters: the tables differ in the codes of the keys only, no two characters
  are typed the same way, and the Windows codes of letters and digits are their capitals and
  themselves.
\<close>

theorem key_tables_agree:
  "map_char_to_platform_windows = (\<lambda>ch. map_option (\<lambda>(c, s). (windows_code c, s)) (map_char_to_platform_macos ch)) \<and>
   dom map_char_to_platform_macos = {ch. 32 \<le> sint ch \<and> sint ch \<le> 126} \<and>
   inj_on map_char_to_platform_macos (dom map_char_to_platform_macos) \<and>
   inj_on map_char_to_platform_windows (dom map_char_to_platform_windows) \<and>
   map (\<lambda>n. map_char_to_platform_windows (word_of_nat n)) [65..<91] =
     map (\<lambda>n. Some (word_of_nat n, True)) [65..<91] \<and>
   map (\<lambda>n. map_char_to_platform_windows (word_of_nat (n + 32))) [65..<91] =
     map (\<lambda>n. Some (word_of_nat n, False)) [65..<91] \<and>
   map (\<lambda>n. map_char_to_platform_windows (word_of_nat n)) [48..<58] =
     map (\<lambda>n. Some (word_of_nat n, False)) [48..<58]"
proof (intro conjI ext)
  show "map_char_to_platform_windows ch =
      map_option (\<lambda>(c, s). (windows_code c, s)) (map_char_to_platform_macos ch)" for ch
    using switch_char_map [of windows_code "0x31" macos_keys ch]
    by (simp add: map_char_to_platform_windows_def map_char_to_platform_macos_def windows_keys_recoded windows_space)
  show "dom map_char_to_platform_macos = {ch. 32 \<le> sint ch \<and> sint ch \<le> 126}"
    unfolding dom_def map_char_to_platform_macos_def switch_char_dom printable_i32 ..
  show "inj_on map_char_to_platform_macos (dom map_char_to_platform_macos)"
    using switch_char_inj [OF distinct_codes(1)] by (simp add: map_char_to_platform_macos_def [abs_def])
  show "inj_on map_char_to_platform_windows (dom map_char_to_platform_windows)"
    using switch_char_inj [OF distinct_codes(2)] by (simp add: map_char_to_platform_windows_def [abs_def])
qed (simp_all add: map_char_to_platform_windows_def switch_char_def windows_keys_def upt_rec)

end
