(* ===== verification/PowerScripts.thy ===== *)
theory PowerScripts
  imports Handler
begin

text \<open>
  The power scripts on macOS and Windows (\<open>ya_power_scripts.c\<close>, release build), over the shell of
  \<open>Handler\<close>.  The path of the program is what the system's call gives, \<open>None\<close> when it fails;
  buffers have the \<open>PATH_MAX\<close> of the system, an argument here, and \<open>snprintf\<close> cuts what does not fit.
\<close>

text \<open>The path is cut at the last character that separates names, if there is one.\<close>

definition cut_at_last :: "(char \<Rightarrow> bool) \<Rightarrow> string \<Rightarrow> string" where
  "cut_at_last sep path =
     (if \<exists>c \<in> set path. sep c then rev (tl (dropWhile (\<lambda>c. \<not> sep c) (rev path))) else path)"

definition windows_exe_dir :: "nat \<Rightarrow> string option \<Rightarrow> string" where
  "windows_exe_dir path_max program =
     (case program of
        Some path \<Rightarrow> if path \<noteq> [] \<and> length path < path_max
                     then cut_at_last (\<lambda>c. c = CHR 0x5C \<or> c = CHR ''/'') path else ''.''
      | None \<Rightarrow> ''.'')"

definition macos_exe_dir :: "nat \<Rightarrow> string option \<Rightarrow> string" where
  "macos_exe_dir path_max executable =
     (case executable of
        Some path \<Rightarrow> if length path < path_max then cut_at_last (\<lambda>c. c = CHR ''/'') path else ''.''
      | None \<Rightarrow> ''.'')"

definition windows_command :: "nat \<Rightarrow> string \<Rightarrow> string" where
  "windows_command path_max path =
     (let script_path = take (path_max - 1) path
      in take (2 * path_max - 1)
           (''cmd /c '' @ [CHR 0x22, CHR 0x22] @ script_path @ [CHR 0x22, CHR 0x22]))"

definition run_power_script_windows :: "nat \<Rightarrow> string \<Rightarrow> server \<Rightarrow> server \<times> int" where
  "run_power_script_windows path_max basename s =
     (let exe_dir = windows_exe_dir path_max (exe_link s);
          (s1, rc) = run_system (windows_command path_max
            (exe_dir @ [CHR 0x5C] @ ''scripts'' @ [CHR 0x5C] @ basename @ ''.bat'')) s
      in if rc \<noteq> 0
         then run_system (windows_command path_max
           (exe_dir @ [CHR 0x5C] @ ''scripts'' @ [CHR 0x5C] @ ''windows'' @ [CHR 0x5C] @ basename @ ''.bat'')) s1
         else (s1, rc))"

text \<open>
  Without a home directory \<open>script_path\<close> is not set before \<open>stat\<close> reads it, which is undefined.
\<close>

definition run_power_script_macos :: "nat \<Rightarrow> string option \<Rightarrow> string \<Rightarrow> server \<Rightarrow> (server \<times> int) ub" where
  "run_power_script_macos path_max home basename s =
     (let exe_dir = macos_exe_dir path_max (exe_link s) in
      case home of
        None \<Rightarrow> UB
      | Some home_dir \<Rightarrow>
          let own = take (path_max - 1) (home_dir @ ''/Library/MouseHero/scripts/'' @ basename @ ''.sh'');
              packed = take (path_max - 1) (exe_dir @ ''/../Resources/scripts/'' @ basename @ ''.sh'');
              script_path = (if script_exists s own then own else packed)
          in Defined (run_system
               (take (2 * path_max - 1) (''/bin/sh '' @ [CHR 0x22] @ script_path @ [CHR 0x22])) s))"

section \<open>What is run\<close>

text \<open>On Linux the same cut at the last slash is \<open>dirname\<close>.\<close>

lemma cut_at_slash: "cut_at_last (\<lambda>c. c = CHR ''/'') path = dirname path"
  by (simp add: cut_at_last_def dirname_def)

lemma cut_at_last_parent:
  "sep c \<Longrightarrow> \<forall>x \<in> set name. \<not> sep x \<Longrightarrow> cut_at_last sep (parent @ c # name) = parent"
proof -
  assume c: "sep c" and n: "\<forall>x \<in> set name. \<not> sep x"
  have "dropWhile (\<lambda>c. \<not> sep c) (rev name @ c # rev parent) = c # rev parent"
    using c n by (subst dropWhile_append2) auto
  with c show ?thesis by (simp add: cut_at_last_def)
qed

text \<open>On Windows success is reported exactly when one of at most two commands succeeded.\<close>

lemma windows_power_script_result:
  assumes "run_power_script_windows path_max basename s = (s', rc)"
  shows "rc = 0 \<longleftrightarrow>
    system_results s = [] \<or> hd (system_results s) = 0 \<or>
    tl (system_results s) = [] \<or> hd (tl (system_results s)) = 0"
  using assms
  by (auto simp: run_power_script_windows_def run_system_def Let_def split: list.splits if_splits)

text \<open>A script path that fits is quoted whole, whatever characters it has.\<close>

lemma windows_command_whole:
  assumes "length path < path_max" and "11 < path_max"
  shows "windows_command path_max path = ''cmd /c '' @ [CHR 0x22, CHR 0x22] @ path @ [CHR 0x22, CHR 0x22]"
  using assms by (simp add: windows_command_def)

lemma macos_without_home: "run_power_script_macos path_max None basename s = UB"
  by (simp add: run_power_script_macos_def)

end
